(* ===== verification/Prelude.thy ===== *)
theory Prelude
  imports Main
begin

text \<open>
  What every component of the development shares: the exceptions the Python code raises, as
  values; the SQL-like operations on a table kept as the list of its rows in insertion order
  (update of the rows that satisfy a predicate, \<open>scalar_one_or_none\<close>); the collections of
  simplification rules; and the interface of a table with a unique key, as a locale.
\<close>

named_theorems table_simps "rewrite rules for operations on tables"
named_theorems frame_simps "fields that an operation leaves unchanged"

section \<open>Exceptions as values\<close>

text \<open>
  The exceptions that can leave a modelled function. \<open>ClientError\<close> stands for whatever an
  external client (the queue service, the object store, the cache, the regional source) raises,
  with its message.
\<close>

datatype error =
    IntegrityError
  | MultipleResultsFound
  | NoResultFound
  | IdempotencyConflict string
  | RuntimeError string
  | ValueError string
  | TypeError string
  | TimeoutError string
  | ValidationError string
  | AttributeError string
  | KeyError string
  | HTTPException int string
  | ClientError string

text \<open>The text Python's \<open>str(exc)\<close> gives (for \<open>KeyError\<close> Python quotes the key).\<close>

fun exn_text :: "error \<Rightarrow> string" where
  "exn_text IntegrityError = ''IntegrityError''"
| "exn_text MultipleResultsFound = ''Multiple rows were found when one or none was required''"
| "exn_text NoResultFound = ''No row was found when one was required''"
| "exn_text (IdempotencyConflict m) = m"
| "exn_text (RuntimeError m) = m"
| "exn_text (ValueError m) = m"
| "exn_text (TypeError m) = m"
| "exn_text (TimeoutError m) = m"
| "exn_text (ValidationError m) = m"
| "exn_text (AttributeError m) = m"
| "exn_text (KeyError m) = [CHR 0x27] @ m @ [CHR 0x27]"
| "exn_text (HTTPException c m) = m"
| "exn_text (ClientError m) = m"

section \<open>Tables\<close>

text \<open>\<open>UPDATE t SET f WHERE P\<close>: the rows keep their places.\<close>

definition upd_where :: "('a \<Rightarrow> bool) \<Rightarrow> ('a \<Rightarrow> 'a) \<Rightarrow> 'a list \<Rightarrow> 'a list" where
  "upd_where P f rows = map (\<lambda>r. if P r then f r else r) rows"

text \<open>
  \<open>Result.scalar_one_or_none()\<close>: None for an empty result, the row of a one-row result, and an
  exception when there are several.
\<close>

fun scalar_one_or_none :: "'a list \<Rightarrow> error + 'a option" where
  "scalar_one_or_none [] = Inr None"
| "scalar_one_or_none [r] = Inr (Some r)"
| "scalar_one_or_none (r # s # rs) = Inl MultipleResultsFound"

text \<open>\<open>Result.scalar_one()\<close>.\<close>

fun scalar_one :: "'a list \<Rightarrow> error + 'a" where
  "scalar_one [] = Inl NoResultFound"
| "scalar_one [r] = Inr r"
| "scalar_one (r # s # rs) = Inl MultipleResultsFound"

lemma length_upd_where [simp]: "length (upd_where P f rows) = length rows"
  by (simp add: upd_where_def)

lemma upd_where_Nil [simp]: "upd_where P f [] = []"
  by (simp add: upd_where_def)

lemma upd_where_Cons [simp]:
  "upd_where P f (r # rows) = (if P r then f r else r) # upd_where P f rows"
  by (simp add: upd_where_def)

lemma upd_where_append [simp]:
  "upd_where P f (xs @ ys) = upd_where P f xs @ upd_where P f ys"
  by (simp add: upd_where_def)

lemma in_upd_where:
  "r \<in> set (upd_where P f rows) \<longleftrightarrow>
     (\<exists>s \<in> set rows. r = (if P s then f s else s))"
  by (auto simp: upd_where_def)

lemma upd_where_elim:
  assumes "r \<in> set (upd_where P f rows)"
  obtains (changed) s where "s \<in> set rows" "P s" "r = f s"
        | (kept) "r \<in> set rows" "\<not> P r"
  using assms by (auto simp: in_upd_where split: if_splits)

lemma map_upd_where:
  "(\<And>r. P r \<Longrightarrow> k (f r) = k r) \<Longrightarrow> map k (upd_where P f rows) = map k rows"
  by (simp add: upd_where_def)

lemma upd_where_none: "(\<And>r. r \<in> set rows \<Longrightarrow> \<not> P r) \<Longrightarrow> upd_where P f rows = rows"
  by (induction rows) auto

lemma filter_upd_where_other:
  assumes "\<And>x. x \<in> set xs \<Longrightarrow> P x \<Longrightarrow> \<not> Q x \<and> \<not> Q (f x)"
  shows "filter Q (upd_where P f xs) = filter Q xs"
  using assms by (induction xs) auto

lemma filter_upd_where_same:
  assumes "\<And>r. P r \<Longrightarrow> Q (f r) = Q r"
  shows "filter Q (upd_where P f rows) = upd_where P f (filter Q rows)"
  using assms by (induction rows) auto

lemma find_snoc:
  "find P (rows @ [r]) =
     (case find P rows of Some s \<Rightarrow> Some s | None \<Rightarrow> if P r then Some r else None)"
  by (induction rows) auto

section \<open>Unique keys\<close>

lemma scalar_one_or_none_filter:
  "distinct (map k rows) \<Longrightarrow>
   scalar_one_or_none (filter (\<lambda>r. k r = x) rows) = Inr (find (\<lambda>r. k r = x) rows)"
proof (induction rows)
  case Nil
  then show ?case by simp
next
  case (Cons r rows)
  show ?case
  proof (cases "k r = x")
    case True
    then have "filter (\<lambda>s. k s = x) rows = []"
      using Cons.prems by (auto simp: filter_empty_conv image_iff)
    with True show ?thesis by simp
  next
    case False
    with Cons show ?thesis by simp
  qed
qed

lemma scalar_one_or_none_Inr:
  "scalar_one_or_none rows = Inr (Some r) \<longleftrightarrow> rows = [r]"
  by (cases rows rule: scalar_one_or_none.cases) auto

lemma scalar_one_or_none_None: "scalar_one_or_none rows = Inr None \<longleftrightarrow> rows = []"
  by (cases rows rule: scalar_one_or_none.cases) auto

lemma scalar_one_Inr: "scalar_one rows = Inr r \<longleftrightarrow> rows = [r]"
  by (cases rows rule: scalar_one.cases) auto

lemma filter_key_singleton:
  "distinct (map k rows) \<Longrightarrow> r \<in> set rows \<Longrightarrow> filter (\<lambda>s. k s = k r) rows = [r]"
proof (induction rows)
  case Nil
  then show ?case by simp
next
  case (Cons s rows)
  show ?case
  proof (cases "r = s")
    case True
    then have "filter (\<lambda>t. k t = k s) rows = []"
      using Cons.prems by (auto simp: filter_empty_conv image_iff)
    with True show ?thesis by simp
  next
    case False
    with Cons.prems have "r \<in> set rows" and "k s \<noteq> k r" by auto
    with Cons show ?thesis by simp
  qed
qed

lemma key_inj: "distinct (map k rows) \<Longrightarrow> r \<in> set rows \<Longrightarrow> s \<in> set rows \<Longrightarrow> k r = k s \<Longrightarrow> r = s"
  by (auto simp: distinct_map dest: inj_onD)

lemma find_key_Some:
  "distinct (map k rows) \<Longrightarrow> r \<in> set rows \<Longrightarrow> find (\<lambda>s. k s = k r) rows = Some r"
  by (induction rows) (auto simp: image_iff)

text \<open>
  The interface of a table with a unique key: \<open>insert\<close> refuses a row whose key is taken, as the
  database does with an integrity error, and otherwise appends it.
\<close>

locale keyed_table =
  fixes rows :: "'db \<Rightarrow> 'r list"
    and key :: "'r \<Rightarrow> 'k"
    and insert_row :: "'r \<Rightarrow> 'db \<Rightarrow> error + 'db"
  assumes insert_ok: "insert_row r d = Inr d' \<Longrightarrow> rows d' = rows d @ [r]"
    and insert_fresh: "insert_row r d = Inr d' \<Longrightarrow> key r \<notin> key ` set (rows d)"
    and insert_error: "insert_row r d = Inl e \<Longrightarrow> e = IntegrityError"
begin

lemma insert_keeps_unique:
  "insert_row r d = Inr d' \<Longrightarrow> distinct (map key (rows d)) \<Longrightarrow> distinct (map key (rows d'))"
  using insert_ok [of r d d'] insert_fresh [of r d d'] by auto

lemma insert_lookup:
  assumes "insert_row r d = Inr d'"
  shows "find (\<lambda>s. key s = key r) (rows d') = Some r"
proof -
  have "find (\<lambda>s. key s = key r) (rows d) = None"
    using insert_fresh [OF assms] by (auto simp: find_None_iff image_iff)
  then show ?thesis by (simp add: insert_ok [OF assms] find_snoc)
qed

lemma insert_lookup_other:
  "insert_row r d = Inr d' \<Longrightarrow> x \<noteq> key r \<Longrightarrow>
   find (\<lambda>s. key s = x) (rows d') = find (\<lambda>s. key s = x) (rows d)"
  using insert_ok [of r d d'] by (auto simp: find_snoc split: option.splits)

end

end
