(* ===== verification/Py_Strings.thy ===== *)
theory Py_Strings
  imports Prelude "HOL-Library.Sublist" "HOL-Library.List_Lexorder" "HOL-Library.Char_ord"
begin

text \<open>
  The Python string operations the program uses. A Python \<open>str\<close> is a \<open>string\<close> whose characters
  are its code points, so the model covers text with code points below 256; on those the
  operations below are the ones of Python (white space and lower case of Latin-1 included), and
  \<open>encode("utf-8")\<close> gives the bytes.
\<close>

section \<open>Lower case and white space\<close>

definition py_isspace :: "char \<Rightarrow> bool" where
  "py_isspace c = (let n = (of_char c :: nat) in
     (9 \<le> n \<and> n \<le> 13) \<or> (28 \<le> n \<and> n \<le> 32) \<or> n = 133 \<or> n = 160)"

definition py_lower_char :: "char \<Rightarrow> char" where
  "py_lower_char c = (let n = (of_char c :: nat) in
     if (65 \<le> n \<and> n \<le> 90) \<or> (192 \<le> n \<and> n \<le> 222 \<and> n \<noteq> 215) then char_of (n + 32) else c)"

definition py_lower :: "string \<Rightarrow> string" where
  "py_lower s = map py_lower_char s"

definition py_lstrip :: "string \<Rightarrow> string" where
  "py_lstrip s = dropWhile py_isspace s"

definition py_rstrip :: "string \<Rightarrow> string" where
  "py_rstrip s = rev (dropWhile py_isspace (rev s))"

definition py_strip :: "string \<Rightarrow> string" where
  "py_strip s = py_rstrip (py_lstrip s)"

text \<open>\<open>s.rstrip(c)\<close> and \<open>s.strip(c)\<close> for a one-character argument.\<close>

definition rstrip_char :: "char \<Rightarrow> string \<Rightarrow> string" where
  "rstrip_char c s = rev (dropWhile (\<lambda>d. d = c) (rev s))"

definition strip_char :: "char \<Rightarrow> string \<Rightarrow> string" where
  "strip_char c s = rstrip_char c (dropWhile (\<lambda>d. d = c) s)"

definition py_startswith :: "string \<Rightarrow> string \<Rightarrow> bool" where
  "py_startswith s p = (take (length p) s = p)"

definition py_endswith :: "string \<Rightarrow> string \<Rightarrow> bool" where
  "py_endswith s p = (length p \<le> length s \<and> drop (length s - length p) s = p)"

definition py_removeprefix :: "string \<Rightarrow> string \<Rightarrow> string" where
  "py_removeprefix s p = (if py_startswith s p then drop (length p) s else s)"

section \<open>Encoding\<close>

text \<open>\<open>str.encode("utf-8")\<close>: a code point below 128 is one byte, the others are two.\<close>

definition utf8_char :: "char \<Rightarrow> string" where
  "utf8_char c = (let n = (of_char c :: nat) in
     if n < 128 then [c] else [char_of (192 + n div 64), char_of (128 + n mod 64)])"

definition utf8_encode :: "string \<Rightarrow> string" where
  "utf8_encode s = concat (map utf8_char s)"

section \<open>Decimal numbers\<close>

fun str_of_nat :: "nat \<Rightarrow> string" where
  "str_of_nat n =
     (if n < 10 then [char_of (48 + n)] else str_of_nat (n div 10) @ [char_of (48 + n mod 10)])"

declare str_of_nat.simps [simp del]

definition str_of_int :: "int \<Rightarrow> string" where
  "str_of_int i = (if i < 0 then CHR 0x2D # str_of_nat (nat (- i)) else str_of_nat (nat i))"

text \<open>\<open>f"{n:03d}"\<close>: at least three digits, padded with zeros.\<close>

definition zero_padded :: "nat \<Rightarrow> nat \<Rightarrow> string" where
  "zero_padded w n = (let d = str_of_nat n in replicate (w - length d) CHR 0x30 @ d)"

section \<open>Lemmas\<close>

lemma of_char_less [simp]: "(of_char c :: nat) < 256"
  using of_char_mod_256 [of c, where 'a = nat] by (metis mod_less_divisor zero_less_numeral)

lemma of_char_char_of_nat: "n < 256 \<Longrightarrow> of_char (char_of n :: char) = (n :: nat)"
  by simp

lemma char_eq_iff: "c = d \<longleftrightarrow> (of_char c :: nat) = of_char d"
  by simp

lemma py_lower_char_idem [simp]: "py_lower_char (py_lower_char c) = py_lower_char c"
  by (auto simp: py_lower_char_def Let_def)

lemma py_isspace_lower_char [simp]: "py_isspace (py_lower_char c) = py_isspace c"
  by (auto simp: py_lower_char_def py_isspace_def Let_def)

lemma py_lower_idem [simp]: "py_lower (py_lower s) = py_lower s"
  by (simp add: py_lower_def o_def)

lemma dropWhile_space_lower:
  "dropWhile py_isspace (map py_lower_char s) = map py_lower_char (dropWhile py_isspace s)"
  by (induction s) auto

lemma py_lstrip_lower: "py_lstrip (py_lower s) = py_lower (py_lstrip s)"
  by (simp add: py_lstrip_def py_lower_def dropWhile_space_lower)

lemma py_rstrip_lower: "py_rstrip (py_lower s) = py_lower (py_rstrip s)"
  by (simp add: py_rstrip_def py_lower_def rev_map dropWhile_space_lower)

lemma py_strip_lower: "py_strip (py_lower s) = py_lower (py_strip s)"
  by (simp add: py_strip_def py_lstrip_lower py_rstrip_lower)

lemma dropWhile_spaces: "(\<forall>c \<in> set ws. P c) \<Longrightarrow> dropWhile P (ws @ s) = dropWhile P s"
  by (induction ws) auto

lemma py_lstrip_spaces:
  "list_all py_isspace ws \<Longrightarrow> py_lstrip (ws @ s) = py_lstrip s"
  by (simp add: py_lstrip_def list_all_iff dropWhile_spaces)

lemma py_rstrip_spaces:
  "list_all py_isspace ws \<Longrightarrow> py_rstrip (s @ ws) = py_rstrip s"
  by (simp add: py_rstrip_def list_all_iff dropWhile_spaces)

lemma dropWhile_all: "list_all P s \<Longrightarrow> dropWhile P s = []"
  by (induction s) auto

lemma py_lstrip_append:
  "\<not> list_all py_isspace s \<Longrightarrow> py_lstrip (s @ ws) = py_lstrip s @ ws"
  by (auto simp: py_lstrip_def list_all_iff)

lemma py_strip_spaces:
  assumes "list_all py_isspace ws" and "list_all py_isspace ws'"
  shows "py_strip (ws @ s @ ws') = py_strip s"
proof (cases "list_all py_isspace s")
  case True
  then have "py_lstrip (s @ ws') = []"
    using assms(2) by (simp add: py_lstrip_def dropWhile_all)
  moreover have "py_lstrip s = []"
    using True by (simp add: py_lstrip_def dropWhile_all)
  ultimately show ?thesis
    using assms(1) by (simp add: py_strip_def py_lstrip_spaces)
next
  case False
  then show ?thesis
    using assms by (simp add: py_strip_def py_lstrip_spaces py_lstrip_append py_rstrip_spaces)
qed

lemma utf8_char_less: "(of_char c :: nat) < 128 \<Longrightarrow> utf8_char c = [c]"
  by (simp add: utf8_char_def)

lemma utf8_char_neq_Nil [simp]: "utf8_char c \<noteq> []"
  by (simp add: utf8_char_def Let_def)

lemma div_64_mod_64: "n div 64 = m div 64 \<Longrightarrow> n mod 64 = m mod 64 \<Longrightarrow> n = (m :: nat)"
  by (metis div_mult_mod_eq)

lemma utf8_lead: "hd (utf8_char c) = (if (of_char c :: nat) < 128 then c else char_of (192 + of_char c div 64 :: nat))"
  by (simp add: utf8_char_def Let_def)

lemma utf8_lead_code:
  "(of_char (hd (utf8_char c)) :: nat) =
     (if (of_char c :: nat) < 128 then of_char c else 192 + of_char c div 64)"
proof -
  have "(of_char c :: nat) div 64 < 4"
    by (rule less_mult_imp_div_less) simp
  then have "192 + (of_char c :: nat) div 64 < 256" by simp
  then show ?thesis by (simp add: utf8_lead)
qed

lemma utf8_char_prefix_free:
  assumes eq: "utf8_char c @ s = utf8_char d @ t"
  shows "c = d \<and> s = t"
proof -
  let ?n = "of_char c :: nat" and ?m = "of_char d :: nat"
  have "hd (utf8_char c) = hd (utf8_char d)"
    using arg_cong [OF eq, of hd] by simp
  then have lead: "(of_char (hd (utf8_char c)) :: nat) = of_char (hd (utf8_char d))"
    by simp
  show ?thesis
  proof (cases "?n < 128")
    case True
    with lead have "?m < 128" and "?n = ?m" by (auto simp: utf8_lead_code split: if_splits)
    with True eq show ?thesis by (simp add: utf8_char_less)
  next
    case False
    with lead have m: "\<not> ?m < 128" and hi: "?n div 64 = ?m div 64"
      by (auto simp: utf8_lead_code split: if_splits)
    from eq False m have "char_of (128 + ?n mod 64) = (char_of (128 + ?m mod 64) :: char)"
      and st: "s = t"
      by (simp_all add: utf8_char_def Let_def)
    then have "(of_char (char_of (128 + ?n mod 64) :: char) :: nat)
                 = of_char (char_of (128 + ?m mod 64) :: char)"
      by simp
    then have "?n mod 64 = ?m mod 64" by simp
    with hi have "?n = ?m" by (rule div_64_mod_64)
    with st show ?thesis by simp
  qed
qed

lemma utf8_encode_inj: "utf8_encode s = utf8_encode t \<Longrightarrow> s = t"
proof (induction s arbitrary: t)
  case Nil
  then show ?case by (cases t) (auto simp: utf8_encode_def)
next
  case (Cons c s)
  then obtain d t' where t: "t = d # t'"
    by (cases t) (auto simp: utf8_encode_def)
  with Cons.prems have "utf8_char c @ utf8_encode s = utf8_char d @ utf8_encode t'"
    by (simp add: utf8_encode_def)
  then have "c = d" and "utf8_encode s = utf8_encode t'"
    by (auto dest: utf8_char_prefix_free)
  with Cons.IH t show ?case by simp
qed

lemma str_of_nat_neq_Nil [simp]: "str_of_nat n \<noteq> []"
  by (subst str_of_nat.simps) simp

definition is_digit :: "char \<Rightarrow> bool" where
  "is_digit c = (48 \<le> (of_char c :: nat) \<and> (of_char c :: nat) \<le> 57)"

lemma str_of_nat_digits: "list_all is_digit (str_of_nat n)"
proof (induction n rule: str_of_nat.induct)
  case (1 n)
  then show ?case
    by (cases "n < 10") (simp_all add: str_of_nat.simps [of n] is_digit_def)
qed

fun nat_of_digits :: "nat \<Rightarrow> string \<Rightarrow> nat" where
  "nat_of_digits a [] = a"
| "nat_of_digits a (c # cs) = nat_of_digits (10 * a + (of_char c - 48)) cs"

lemma nat_of_digits_append: "nat_of_digits a (s @ t) = nat_of_digits (nat_of_digits a s) t"
  by (induction s arbitrary: a) auto

lemma nat_of_digits_str_of_nat: "nat_of_digits 0 (str_of_nat n) = n"
proof (induction n rule: str_of_nat.induct)
  case (1 n)
  then show ?case
    by (cases "n < 10") (simp_all add: str_of_nat.simps [of n] nat_of_digits_append)
qed

lemma str_of_nat_inj: "str_of_nat n = str_of_nat m \<Longrightarrow> n = m"
  by (metis nat_of_digits_str_of_nat)

text \<open>A run of digits followed by a character that is no digit is read back in one way.\<close>

lemma digits_then_stop:
  assumes "list_all is_digit xs" and "list_all is_digit ys"
    and "\<not> is_digit c" and "\<not> is_digit d" and "xs @ c # s = ys @ d # t"
  shows "xs = ys \<and> c = d \<and> s = t"
proof -
  have run: "takeWhile is_digit (zs @ e # u) = zs" if "list_all is_digit zs" "\<not> is_digit e"
    for zs e u
    using that by (simp add: list_all_iff takeWhile_append2)
  have "xs = takeWhile is_digit (xs @ c # s)" using assms(1,3) by (simp add: run)
  also have "\<dots> = ys" using assms(2,4,5) by (simp add: run)
  finally show ?thesis using assms(5) by simp
qed

lemma py_removeprefix_append [simp]: "py_removeprefix (p @ s) p = s"
  by (simp add: py_removeprefix_def py_startswith_def)

lemma py_startswith_append [simp]: "py_startswith (p @ s) p"
  by (simp add: py_startswith_def)

end
