(* ===== verification/Json.thy ===== *)
theory Json
  imports Py_Strings
begin

text \<open>
  JSON values and the encoder the program uses for audit envelopes, queue messages and
  artifacts: \<open>json.dumps(value, separators=(",", ":"), sort_keys=True)\<close>, with \<open>ensure_ascii\<close> as
  an argument. An object keeps its entries in insertion order, as a Python dict does. The
  lemmas show that an encoded string is read back in one way, whatever follows it.
\<close>

datatype json =
    JNull
  | JBool bool
  | JInt int
  | JFloat string  \<comment> \<open>a float, kept as the text \<open>repr\<close> gives it\<close>
  | JStr string
  | JArr "json list"
  | JObj "(string \<times> json) list"

section \<open>The encoder\<close>

fun join :: "string \<Rightarrow> string list \<Rightarrow> string" where
  "join sep [] = []"
| "join sep [x] = x"
| "join sep (x # y # xs) = x @ sep @ join sep (y # xs)"

lemma join_Cons: "vs \<noteq> [] \<Longrightarrow> join sep (x # vs) = x @ sep @ join sep vs"
  by (cases vs) simp_all

definition hex_digit :: "nat \<Rightarrow> char" where
  "hex_digit n = (if n < 10 then char_of (48 + n) else char_of (87 + n))"

text \<open>
  \<open>encode_basestring\<close> (\<open>ascii\<close> false) and \<open>encode_basestring_ascii\<close> (\<open>ascii\<close> true) of the
  standard library, for one character.
\<close>

definition escape_char :: "bool \<Rightarrow> char \<Rightarrow> string" where
  "escape_char ascii c = (let n = (of_char c :: nat) in
     if n = 34 \<or> n = 92 then [CHR 0x5C, c]
     else if n = 8 then [CHR 0x5C, CHR ''b'']
     else if n = 12 then [CHR 0x5C, CHR ''f'']
     else if n = 10 then [CHR 0x5C, CHR ''n'']
     else if n = 13 then [CHR 0x5C, CHR ''r'']
     else if n = 9 then [CHR 0x5C, CHR ''t'']
     else if n < 32 \<or> (ascii \<and> 126 < n) then
       [CHR 0x5C, CHR ''u'', CHR ''0'', CHR ''0'', hex_digit (n div 16), hex_digit (n mod 16)]
     else [c])"

definition json_string :: "bool \<Rightarrow> string \<Rightarrow> string" where
  "json_string ascii s = [CHR 0x22] @ concat (map (escape_char ascii) s) @ [CHR 0x22]"

definition json_object :: "bool \<Rightarrow> (string \<times> string) list \<Rightarrow> string" where
  "json_object ascii parts =
     ''{'' @ join '','' (map (\<lambda>(k, s). json_string ascii k @ '':'' @ s) (sort_key fst parts)) @ ''}''"

fun json_dumps :: "bool \<Rightarrow> json \<Rightarrow> string" where
  "json_dumps ascii JNull = ''null''"
| "json_dumps ascii (JBool b) = (if b then ''true'' else ''false'')"
| "json_dumps ascii (JInt i) = str_of_int i"
| "json_dumps ascii (JFloat r) = r"
| "json_dumps ascii (JStr s) = json_string ascii s"
| "json_dumps ascii (JArr vs) = ''['' @ join '','' (map (json_dumps ascii) vs) @ '']''"
| "json_dumps ascii (JObj kvs) =
     json_object ascii (map (\<lambda>kv. (fst kv, json_dumps ascii (snd kv))) kvs)"

section \<open>Reading a dict\<close>

text \<open>\<open>d.get(k)\<close> on a dict; any other value has no such method.\<close>

fun json_get :: "json \<Rightarrow> string \<Rightarrow> error + json option" where
  "json_get (JObj kvs) k = Inr (map_of kvs k)"
| "json_get v k = Inl (AttributeError ''get'')"

section \<open>Text of a value\<close>

text \<open>
  \<open>str(v)\<close>: a string is itself, \<open>None\<close>, \<open>True\<close> and \<open>False\<close> are words, and a container is
  printed by \<open>repr\<close>, which quotes the strings in it.
\<close>

definition repr_char :: "char \<Rightarrow> char \<Rightarrow> string" where
  "repr_char q c = (let n = (of_char c :: nat) in
     if c = q \<or> n = 92 then [CHR 0x5C, c]
     else if n = 10 then [CHR 0x5C, CHR ''n'']
     else if n = 13 then [CHR 0x5C, CHR ''r'']
     else if n = 9 then [CHR 0x5C, CHR ''t'']
     else if n < 32 \<or> (127 \<le> n \<and> n \<le> 160) \<or> n = 173 then
       [CHR 0x5C, CHR ''x'', hex_digit (n div 16), hex_digit (n mod 16)]
     else [c])"

definition repr_string :: "string \<Rightarrow> string" where
  "repr_string s =
     (let q = (if CHR 0x27 \<in> set s \<and> CHR 0x22 \<notin> set s then CHR 0x22 else CHR 0x27)
      in [q] @ concat (map (repr_char q) s) @ [q])"

fun py_repr :: "json \<Rightarrow> string" where
  "py_repr JNull = ''None''"
| "py_repr (JBool b) = (if b then ''True'' else ''False'')"
| "py_repr (JInt i) = str_of_int i"
| "py_repr (JFloat r) = r"
| "py_repr (JStr s) = repr_string s"
| "py_repr (JArr vs) = ''['' @ join '', '' (map py_repr vs) @ '']''"
| "py_repr (JObj kvs) =
     ''{'' @ join '', '' (map (\<lambda>kv. repr_string (fst kv) @ '': '' @ py_repr (snd kv)) kvs) @ ''}''"

fun py_str :: "json \<Rightarrow> string" where
  "py_str (JStr s) = s"
| "py_str v = py_repr v"

section \<open>An encoded string is read back in one way\<close>

text \<open>
  The scanner of \<open>json.loads\<close> for string literals, after the opening quote: the string and what
  follows the closing quote.
\<close>

definition hex_value :: "char \<Rightarrow> nat option" where
  "hex_value c = (let n = (of_char c :: nat) in
     if 48 \<le> n \<and> n \<le> 57 then Some (n - 48)
     else if 97 \<le> n \<and> n \<le> 102 then Some (n - 87)
     else if 65 \<le> n \<and> n \<le> 70 then Some (n - 55)
     else None)"

definition scan_escape :: "string \<Rightarrow> (char \<times> string) option" where
  "scan_escape cs = (case cs of
     [] \<Rightarrow> None
   | e # r \<Rightarrow>
       if e = CHR 0x22 \<or> e = CHR 0x5C \<or> e = CHR ''/'' then Some (e, r)
       else if e = CHR ''b'' then Some (char_of (8 :: nat), r)
       else if e = CHR ''f'' then Some (char_of (12 :: nat), r)
       else if e = CHR ''n'' then Some (char_of (10 :: nat), r)
       else if e = CHR ''r'' then Some (char_of (13 :: nat), r)
       else if e = CHR ''t'' then Some (char_of (9 :: nat), r)
       else if e = CHR ''u'' \<and> 4 \<le> length r \<and> take 2 r = ''00'' then
         (case (hex_value (r ! 2), hex_value (r ! 3)) of
            (Some h, Some l) \<Rightarrow> Some (char_of (16 * h + l), drop 4 r)
          | _ \<Rightarrow> None)
       else None)"

lemma scan_escape_length: "scan_escape cs = Some (c, r) \<Longrightarrow> length r < length cs"
  by (auto simp: scan_escape_def split: list.splits if_splits option.splits)

function scan_string :: "string \<Rightarrow> (string \<times> string) option" where
  "scan_string [] = None"
| "scan_string (c # cs) =
     (if c = CHR 0x22 then Some ([], cs)
      else if c = CHR 0x5C then
        (case scan_escape cs of
           None \<Rightarrow> None
         | Some (d, r) \<Rightarrow> map_option (\<lambda>(s, r'). (d # s, r')) (scan_string r))
      else if (of_char c :: nat) < 32 then None
      else map_option (\<lambda>(s, r'). (c # s, r')) (scan_string cs))"
  by pat_completeness auto
termination
  by (relation "measure length") (auto dest: scan_escape_length)

lemma hex_value_digit: "n < 16 \<Longrightarrow> hex_value (hex_digit n) = Some n"
  by (auto simp: hex_value_def hex_digit_def Let_def)

lemma scan_string_escape:
  "scan_string (escape_char ascii c @ r) = map_option (\<lambda>(s, r'). (c # s, r')) (scan_string r)"
proof -
  let ?n = "of_char c :: nat"
  have code: "char_of ?n = c" by simp
  have hi: "?n div 16 < 16" by (rule less_mult_imp_div_less) simp
  consider (dquote) "?n = 34" | (backslash) "?n = 92" | (bs) "?n = 8" | (ff) "?n = 12"
    | (nl) "?n = 10" | (cr) "?n = 13" | (tab) "?n = 9"
    | (uni) "?n < 32 \<or> (ascii \<and> 126 < ?n)" and "?n \<notin> {34, 92, 8, 12, 10, 13, 9}"
    | (plain) "\<not> ?n < 32" and "\<not> (ascii \<and> 126 < ?n)" and "?n \<notin> {34, 92}"
    by fastforce
  then show ?thesis
  proof cases
    case uni
    have "char_of (16 * (?n div 16) + ?n mod 16) = c"
      using code by (simp add: mult.commute)
    with uni hi show ?thesis
      by (simp add: escape_char_def scan_escape_def hex_value_digit Let_def)
  next
    case plain
    then have "c \<noteq> CHR 0x22" and "c \<noteq> CHR 0x5C" by auto
    with plain show ?thesis by (auto simp: escape_char_def Let_def)
  next
    case dquote
    then have "(of_char c :: nat) = of_char (CHR 0x22)" by simp
    then have "c = CHR 0x22" by (simp only: of_char_eq_iff)
    then show ?thesis by (simp add: escape_char_def scan_escape_def)
  next
    case backslash
    then have "(of_char c :: nat) = of_char (CHR 0x5C)" by simp
    then have "c = CHR 0x5C" by (simp only: of_char_eq_iff)
    then show ?thesis by (simp add: escape_char_def scan_escape_def)
  qed (use code in \<open>simp_all add: escape_char_def scan_escape_def Let_def\<close>)
qed

lemma scan_string_concat:
  "scan_string (concat (map (escape_char ascii) s) @ CHR 0x22 # r) = Some (s, r)"
  by (induction s) (simp_all add: scan_string_escape)

lemma json_string_prefix_free:
  assumes "json_string ascii s @ r = json_string ascii t @ q"
  shows "s = t \<and> r = q"
proof -
  have "scan_string (tl (json_string ascii s @ r)) = Some (s, r)" for s r
    by (simp add: json_string_def scan_string_concat)
  with assms show ?thesis by (metis option.inject prod.inject)
qed

end
