(* ===== verification/Models.thy ===== *)
theory Models
  imports Json
begin

text \<open>
  The data model (\<open>models.py\<close>): the enumerations with their stored values, one record per
  table, and the state \<open>cloud\<close> that holds the tables. A table is the list of its rows in
  insertion order. Inserting a row checks the primary key and the unique constraints of the
  table and fails with \<open>IntegrityError\<close>, as the flush does.

  Times are microseconds since the epoch. The identifiers that \<open>uuid4\<close> draws come from an
  arbitrary stream \<open>uuid :: nat \<Rightarrow> string\<close>, an argument of the operations that create rows;
  \<open>fresh\<close> counts the draws. Nothing is assumed of the stream: a repeated identifier is an
  integrity error. The three Prometheus metrics are logs of the labels that were counted.
\<close>

type_synonym time = int
type_synonym uuid_stream = "nat \<Rightarrow> string"

section \<open>Enumerations\<close>

datatype request_kind = ACCESS | DELETE

datatype request_status =
  QUEUED | RUNNING | VERIFYING | COMPLETED | PARTIAL | FAILED

datatype task_status = T_PENDING | T_RUNNING | T_SUCCEEDED | T_FAILED

fun kind_value :: "request_kind \<Rightarrow> string" where
  "kind_value ACCESS = ''access''"
| "kind_value DELETE = ''delete''"

fun status_value :: "request_status \<Rightarrow> string" where
  "status_value QUEUED = ''queued''"
| "status_value RUNNING = ''running''"
| "status_value VERIFYING = ''verifying''"
| "status_value COMPLETED = ''completed''"
| "status_value PARTIAL = ''partial''"
| "status_value FAILED = ''failed''"

fun task_status_value :: "task_status \<Rightarrow> string" where
  "task_status_value T_PENDING = ''pending''"
| "task_status_value T_RUNNING = ''running''"
| "task_status_value T_SUCCEEDED = ''succeeded''"
| "task_status_value T_FAILED = ''failed''"

section \<open>Rows\<close>

record privacy_request =
  pr_id :: string
  pr_tenant_id :: string
  pr_idempotency_key :: string
  pr_subject_key_hash :: string
  pr_kind :: request_kind
  pr_status :: request_status
  pr_policy_version :: string
  pr_requested_sources :: "string list"
  pr_artifact_path :: "string option"
  pr_error :: "string option"
  pr_version :: int
  pr_created_at :: time
  pr_updated_at :: time

record request_task =
  rt_id :: string
  rt_request_id :: string
  rt_tenant_id :: string
  rt_source :: string
  rt_status :: task_status
  rt_attempt :: int
  rt_lease_owner :: "string option"
  rt_lease_expires_at :: "time option"
  rt_result_summary :: json
  rt_error :: "string option"
  rt_created_at :: time
  rt_updated_at :: time

record outbox_event =
  ob_id :: string
  ob_tenant_id :: string
  ob_aggregate_id :: string
  ob_event_type :: string
  ob_payload :: json
  ob_created_at :: time
  ob_published_at :: "time option"

record audit_event =
  au_id :: string
  au_tenant_id :: string
  au_request_id :: string
  au_sequence :: int
  au_action :: string
  au_payload_hash :: string
  au_previous_hash :: string
  au_event_hash :: string
  au_created_at :: time

record device_cloud_record =
  dr_id :: string
  dr_tenant_id :: string
  dr_subject_key_hash :: string
  dr_source :: string
  dr_payload :: json
  dr_deleted_at :: "time option"
  dr_created_at :: time

section \<open>The state\<close>

record cloud =
  requests :: "privacy_request list"
  tasks :: "request_task list"
  outbox :: "outbox_event list"
  audit :: "audit_event list"
  records :: "device_cloud_record list"
  fresh :: nat
  m_request_created :: "request_kind list"
  m_request_completed :: "(request_kind \<times> request_status) list"
  m_task_duration :: "(string \<times> request_kind) list"

definition empty_cloud :: cloud where
  "empty_cloud = \<lparr>requests = [], tasks = [], outbox = [], audit = [], records = [], fresh = 0,
     m_request_created = [], m_request_completed = [], m_task_duration = []\<rparr>"

text \<open>The database behind a session: PostgreSQL has row locks, SQLite has not.\<close>

datatype dialect = PostgreSQL | SQLite

section \<open>Inserting rows\<close>

definition idem_key :: "privacy_request \<Rightarrow> string \<times> string" where
  "idem_key r = (pr_tenant_id r, pr_idempotency_key r)"

definition request_source :: "request_task \<Rightarrow> string \<times> string" where
  "request_source t = (rt_request_id t, rt_source t)"

definition tenant_sequence :: "audit_event \<Rightarrow> string \<times> int" where
  "tenant_sequence a = (au_tenant_id a, au_sequence a)"

definition insert_request :: "privacy_request \<Rightarrow> cloud \<Rightarrow> error + cloud" where
  "insert_request r d =
     (if pr_id r \<in> set (map pr_id (requests d)) \<or> idem_key r \<in> set (map idem_key (requests d))
      then Inl IntegrityError else Inr (d\<lparr>requests := requests d @ [r]\<rparr>))"

definition insert_task :: "request_task \<Rightarrow> cloud \<Rightarrow> error + cloud" where
  "insert_task t d =
     (if rt_id t \<in> set (map rt_id (tasks d)) \<or> request_source t \<in> set (map request_source (tasks d))
      then Inl IntegrityError else Inr (d\<lparr>tasks := tasks d @ [t]\<rparr>))"

definition insert_outbox :: "outbox_event \<Rightarrow> cloud \<Rightarrow> error + cloud" where
  "insert_outbox e d =
     (if ob_id e \<in> set (map ob_id (outbox d))
      then Inl IntegrityError else Inr (d\<lparr>outbox := outbox d @ [e]\<rparr>))"

definition insert_audit :: "audit_event \<Rightarrow> cloud \<Rightarrow> error + cloud" where
  "insert_audit a d =
     (if au_id a \<in> set (map au_id (audit d)) \<or> au_event_hash a \<in> set (map au_event_hash (audit d))
         \<or> tenant_sequence a \<in> set (map tenant_sequence (audit d))
      then Inl IntegrityError else Inr (d\<lparr>audit := audit d @ [a]\<rparr>))"

definition insert_record :: "device_cloud_record \<Rightarrow> cloud \<Rightarrow> error + cloud" where
  "insert_record r d =
     (if dr_id r \<in> set (map dr_id (records d))
      then Inl IntegrityError else Inr (d\<lparr>records := records d @ [r]\<rparr>))"

text \<open>Each unique key of each table has the interface of a keyed table.\<close>

interpretation request_pk: keyed_table requests pr_id insert_request
  by unfold_locales (auto simp: insert_request_def split: if_splits)

interpretation request_idem: keyed_table requests idem_key insert_request
  by unfold_locales (auto simp: insert_request_def split: if_splits)

interpretation task_pk: keyed_table tasks rt_id insert_task
  by unfold_locales (auto simp: insert_task_def split: if_splits)

interpretation task_source: keyed_table tasks request_source insert_task
  by unfold_locales (auto simp: insert_task_def split: if_splits)

interpretation outbox_pk: keyed_table outbox ob_id insert_outbox
  by unfold_locales (auto simp: insert_outbox_def split: if_splits)

interpretation audit_pk: keyed_table audit au_id insert_audit
  by unfold_locales (auto simp: insert_audit_def split: if_splits)

interpretation audit_hash: keyed_table audit au_event_hash insert_audit
  by unfold_locales (auto simp: insert_audit_def split: if_splits)

interpretation audit_sequence: keyed_table audit tenant_sequence insert_audit
  by unfold_locales (auto simp: insert_audit_def split: if_splits)

interpretation record_pk: keyed_table records dr_id insert_record
  by unfold_locales (auto simp: insert_record_def split: if_splits)

section \<open>Uniqueness of the keys, as an invariant\<close>

text \<open>
  The primary keys and unique constraints of \<open>models.py\<close>. (The index on \<open>(tenant_id, sequence)\<close>
  is a consequence of the unique constraint.)
\<close>

definition keys_ok :: "cloud \<Rightarrow> bool" where
  "keys_ok d \<longleftrightarrow>
     distinct (map pr_id (requests d)) \<and> distinct (map idem_key (requests d)) \<and>
     distinct (map rt_id (tasks d)) \<and> distinct (map request_source (tasks d)) \<and>
     distinct (map ob_id (outbox d)) \<and>
     distinct (map au_id (audit d)) \<and> distinct (map au_event_hash (audit d)) \<and>
     distinct (map tenant_sequence (audit d)) \<and>
     distinct (map dr_id (records d))"

lemma keys_ok_empty: "keys_ok empty_cloud"
  by (simp add: keys_ok_def empty_cloud_def)

lemma insert_request_frame:
  "insert_request r d = Inr d' \<Longrightarrow>
   d' = d\<lparr>requests := requests d @ [r]\<rparr>"
  by (auto simp: insert_request_def split: if_splits)

lemma insert_task_frame: "insert_task t d = Inr d' \<Longrightarrow> d' = d\<lparr>tasks := tasks d @ [t]\<rparr>"
  by (auto simp: insert_task_def split: if_splits)

lemma insert_outbox_frame: "insert_outbox e d = Inr d' \<Longrightarrow> d' = d\<lparr>outbox := outbox d @ [e]\<rparr>"
  by (auto simp: insert_outbox_def split: if_splits)

lemma insert_audit_frame: "insert_audit a d = Inr d' \<Longrightarrow> d' = d\<lparr>audit := audit d @ [a]\<rparr>"
  by (auto simp: insert_audit_def split: if_splits)

lemma insert_record_frame: "insert_record r d = Inr d' \<Longrightarrow> d' = d\<lparr>records := records d @ [r]\<rparr>"
  by (auto simp: insert_record_def split: if_splits)

lemmas insert_frames =
  insert_request_frame insert_task_frame insert_outbox_frame insert_audit_frame insert_record_frame

lemma insert_request_keys: "insert_request r d = Inr d' \<Longrightarrow> keys_ok d \<Longrightarrow> keys_ok d'"
  using request_pk.insert_keeps_unique [of r d d'] request_idem.insert_keeps_unique [of r d d']
  by (auto simp: keys_ok_def dest: insert_request_frame)

lemma insert_task_keys: "insert_task t d = Inr d' \<Longrightarrow> keys_ok d \<Longrightarrow> keys_ok d'"
  using task_pk.insert_keeps_unique [of t d d'] task_source.insert_keeps_unique [of t d d']
  by (auto simp: keys_ok_def dest: insert_task_frame)

lemma insert_outbox_keys: "insert_outbox e d = Inr d' \<Longrightarrow> keys_ok d \<Longrightarrow> keys_ok d'"
  using outbox_pk.insert_keeps_unique [of e d d']
  by (auto simp: keys_ok_def dest: insert_outbox_frame)

lemma insert_audit_keys: "insert_audit a d = Inr d' \<Longrightarrow> keys_ok d \<Longrightarrow> keys_ok d'"
  using audit_pk.insert_keeps_unique [of a d d'] audit_hash.insert_keeps_unique [of a d d']
    audit_sequence.insert_keeps_unique [of a d d']
  by (auto simp: keys_ok_def dest: insert_audit_frame)

lemma insert_record_keys: "insert_record r d = Inr d' \<Longrightarrow> keys_ok d \<Longrightarrow> keys_ok d'"
  using record_pk.insert_keeps_unique [of r d d']
  by (auto simp: keys_ok_def dest: insert_record_frame)

text \<open>An update that leaves the keys alone keeps the invariant.\<close>

lemma keys_ok_upd_tasks:
  assumes "keys_ok d"
    and "\<And>t. P t \<Longrightarrow> rt_id (f t) = rt_id t \<and> request_source (f t) = request_source t"
  shows "keys_ok (d\<lparr>tasks := upd_where P f (tasks d)\<rparr>)"
  using assms by (simp add: keys_ok_def map_upd_where)

lemma keys_ok_upd_requests:
  assumes "keys_ok d"
    and "\<And>r. P r \<Longrightarrow> pr_id (f r) = pr_id r \<and> idem_key (f r) = idem_key r"
  shows "keys_ok (d\<lparr>requests := upd_where P f (requests d)\<rparr>)"
  using assms by (simp add: keys_ok_def map_upd_where)

lemma keys_ok_upd_outbox:
  assumes "keys_ok d" and "\<And>e. P e \<Longrightarrow> ob_id (f e) = ob_id e"
  shows "keys_ok (d\<lparr>outbox := upd_where P f (outbox d)\<rparr>)"
  using assms by (simp add: keys_ok_def map_upd_where)

lemma keys_ok_upd_records:
  assumes "keys_ok d" and "\<And>r. P r \<Longrightarrow> dr_id (f r) = dr_id r"
  shows "keys_ok (d\<lparr>records := upd_where P f (records d)\<rparr>)"
  using assms by (simp add: keys_ok_def map_upd_where)

end
