(* ===== verification/Security.thy ===== *)
theory Security
  imports Models
begin

text \<open>
  \<open>security.py\<close>: the normalised hash of a data subject and the tenant check of every route.
  SHA-256 is an argument \<open>sha256 :: string \<Rightarrow> string\<close> from bytes to bytes, so what is shown holds
  for the hash of the standard library; where a property needs that two texts have different
  digests, it is stated up to a collision.
\<close>

type_synonym digest_fn = "string \<Rightarrow> string"

text \<open>\<open>digest.hexdigest()\<close>: two lower-case hexadecimal digits per byte.\<close>

definition hex_byte :: "char \<Rightarrow> string" where
  "hex_byte c = (let n = (of_char c :: nat) in [hex_digit (n div 16), hex_digit (n mod 16)])"

definition hexdigest :: "digest_fn \<Rightarrow> string \<Rightarrow> string" where
  "hexdigest sha256 bytes = concat (map hex_byte (sha256 bytes))"

definition hash_subject :: "digest_fn \<Rightarrow> string \<Rightarrow> string" where
  "hash_subject sha256 value =
     (let normalized = utf8_encode (py_lower (py_strip value)) in hexdigest sha256 normalized)"

text \<open>
  \<open>hmac.compare_digest\<close> on two strings: it compares ASCII strings only and raises otherwise.
\<close>

definition py_isascii :: "string \<Rightarrow> bool" where
  "py_isascii s = list_all (\<lambda>c. (of_char c :: nat) < 128) s"

definition compare_digest :: "string \<Rightarrow> string \<Rightarrow> error + bool" where
  "compare_digest a b =
     (if py_isascii a \<and> py_isascii b then Inr (a = b)
      else Inl (TypeError ''comparing strings with non-ASCII characters is not supported''))"

text \<open>
  \<open>tenant_context\<close>: the header lengths are checked before the body runs (the framework's
  \<open>Header(min_length=2, max_length=64)\<close>), then the API key.
\<close>

definition tenant_context :: "string \<Rightarrow> string \<Rightarrow> string \<Rightarrow> error + string" where
  "tenant_context api_key x_tenant_id x_api_key =
     (if length x_tenant_id < 2 \<or> 64 < length x_tenant_id
      then Inl (ValidationError ''x-tenant-id'')
      else case compare_digest x_api_key api_key of
             Inl e \<Rightarrow> Inl e
           | Inr False \<Rightarrow> Inl (HTTPException 401 ''invalid API key'')
           | Inr True \<Rightarrow> Inr x_tenant_id)"

section \<open>Lemmas\<close>

lemma hex_digit_inj: "n < 16 \<Longrightarrow> m < 16 \<Longrightarrow> hex_digit n = hex_digit m \<Longrightarrow> n = m"
  by (metis hex_value_digit option.inject)

lemma of_char_div_16 [simp]: "(of_char c :: nat) div 16 < 16"
  by (rule less_mult_imp_div_less) simp

lemma hex_byte_inj: "hex_byte c @ s = hex_byte d @ t \<Longrightarrow> c = d \<and> s = t"
proof -
  assume eq: "hex_byte c @ s = hex_byte d @ t"
  let ?n = "of_char c :: nat" and ?m = "of_char d :: nat"
  from eq have "hex_digit (?n div 16) = hex_digit (?m div 16)"
    and "hex_digit (?n mod 16) = hex_digit (?m mod 16)" and st: "s = t"
    by (simp_all add: hex_byte_def Let_def)
  then have "?n div 16 = ?m div 16" and "?n mod 16 = ?m mod 16"
    by (auto dest!: hex_digit_inj [rotated 2])
  then have "?n = ?m" by (metis div_mult_mod_eq)
  with st show ?thesis by simp
qed

lemma hex_inj: "concat (map hex_byte s) = concat (map hex_byte t) \<Longrightarrow> s = t"
proof (induction s arbitrary: t)
  case Nil
  then show ?case by (cases t) (auto simp: hex_byte_def Let_def)
next
  case (Cons c s)
  then obtain d t' where t: "t = d # t'"
    by (cases t) (auto simp: hex_byte_def Let_def)
  with Cons.prems have "hex_byte c @ concat (map hex_byte s) = hex_byte d @ concat (map hex_byte t')"
    by simp
  then have "c = d" and "concat (map hex_byte s) = concat (map hex_byte t')"
    by (auto dest: hex_byte_inj)
  with Cons.IH t show ?case by simp
qed

lemma hexdigest_inj: "hexdigest sha256 x = hexdigest sha256 y \<Longrightarrow> sha256 x = sha256 y"
  by (auto simp: hexdigest_def dest: hex_inj)

lemma length_hexdigest: "length (hexdigest sha256 x) = 2 * length (sha256 x)"
  by (induction "sha256 x" arbitrary: x rule: rev_induct)
     (simp_all add: hexdigest_def hex_byte_def Let_def length_concat o_def sum_list_triv)

lemma compare_digest_True: "compare_digest a b = Inr True \<longleftrightarrow> py_isascii a \<and> a = b"
  by (auto simp: compare_digest_def)

end
