(* ===== verification/Schemas.thy ===== *)
theory Schemas
  imports Security
begin

text \<open>
  \<open>schemas.py\<close>: the validated commands. A command that the framework would refuse with a
  validation error is \<open>Inl\<close>; the message names the first field that fails.
\<close>

text \<open>The set literal \<open>ALLOWED_SOURCES\<close>.\<close>

definition allowed_sources :: "string list" where
  "allowed_sources = [''profile'', ''devices'', ''telemetry'', ''jobs'', ''support_logs'']"

text \<open>\<open>list(dict.fromkeys(value))\<close>: the first occurrence of each element, in order.\<close>

fun dict_fromkeys :: "'a list \<Rightarrow> 'a list" where
  "dict_fromkeys [] = []"
| "dict_fromkeys (x # xs) = x # filter (\<lambda>y. y \<noteq> x) (dict_fromkeys xs)"

definition validate_sources :: "string list \<Rightarrow> error + string list" where
  "validate_sources value =
     (let unique = dict_fromkeys value;
          unknown = filter (\<lambda>s. s \<notin> set allowed_sources) unique
      in if unknown \<noteq> []
         then Inl (ValueError (''unknown sources: '' @ py_repr (JArr (map JStr (sort unknown)))))
         else Inr unique)"

record privacy_request_create =
  c_subject_key :: string
  c_kind :: request_kind
  c_sources :: "string list"

text \<open>The enumeration is parsed by value.\<close>

definition parse_kind :: "string \<Rightarrow> request_kind option" where
  "parse_kind s = (if s = ''access'' then Some ACCESS else if s = ''delete'' then Some DELETE else None)"

text \<open>
  Validation of a request body: \<open>subject_key\<close> has 3 to 320 characters, \<open>kind\<close> is a value of
  the enumeration, and \<open>sources\<close> defaults to all sources, sorted (a default is not validated).
\<close>

definition make_privacy_request_create ::
    "string \<Rightarrow> string \<Rightarrow> string list option \<Rightarrow> error + privacy_request_create" where
  "make_privacy_request_create subject_key kind sources =
     (if length subject_key < 3 \<or> 320 < length subject_key
      then Inl (ValidationError ''subject_key'')
      else case parse_kind kind of
             None \<Rightarrow> Inl (ValidationError ''kind'')
           | Some k \<Rightarrow>
               (case sources of
                  None \<Rightarrow> Inr \<lparr>c_subject_key = subject_key, c_kind = k,
                                 c_sources = sort allowed_sources\<rparr>
                | Some value \<Rightarrow>
                    (case validate_sources value of
                       Inl e \<Rightarrow> Inl (ValidationError (exn_text e))
                     | Inr unique \<Rightarrow> Inr \<lparr>c_subject_key = subject_key, c_kind = k,
                                             c_sources = unique\<rparr>)))"

record seed_records_request =
  s_subject_key :: string
  s_records_per_source :: nat

definition make_seed_records_request :: "string \<Rightarrow> int option \<Rightarrow> error + seed_records_request" where
  "make_seed_records_request subject_key n =
     (let k = (case n of None \<Rightarrow> 1 | Some i \<Rightarrow> i) in
      if k < 1 \<or> 1000 < k then Inl (ValidationError ''records_per_source'')
      else Inr \<lparr>s_subject_key = subject_key, s_records_per_source = nat k\<rparr>)"

section \<open>Lemmas\<close>

lemma set_dict_fromkeys [simp]: "set (dict_fromkeys xs) = set xs"
  by (induction xs) auto

lemma distinct_dict_fromkeys [simp]: "distinct (dict_fromkeys xs)"
  by (induction xs) (auto intro: distinct_filter)

lemma dict_fromkeys_id: "distinct xs \<Longrightarrow> dict_fromkeys xs = xs"
  by (induction xs) (auto simp: filter_id_conv)

lemma validate_sources_ok:
  "validate_sources value = Inr out \<longleftrightarrow>
     set value \<subseteq> set allowed_sources \<and> out = dict_fromkeys value"
  by (auto simp: validate_sources_def Let_def filter_empty_conv)

lemma distinct_allowed_sources: "distinct allowed_sources"
  by (simp add: allowed_sources_def)

lemma make_privacy_request_create_wf:
  assumes "make_privacy_request_create subject_key kind sources = Inr c"
  shows "distinct (c_sources c)" and "set (c_sources c) \<subseteq> set allowed_sources"
    and "3 \<le> length (c_subject_key c)" and "length (c_subject_key c) \<le> 320"
  using assms distinct_allowed_sources
  by (auto simp: make_privacy_request_create_def validate_sources_ok
           split: if_splits option.splits sum.splits)

end
