(* ===== verification/Samples.thy ===== *)
theory Samples
  imports Schemas
begin

text \<open>
  Concrete arguments for the examples that follow the properties: a collision-free digest (the
  identity on bytes), a stream of distinct identifiers, two commands. They stand only in
  statements about examples, never in the model.
\<close>

definition sample_digest :: digest_fn where
  "sample_digest bytes = bytes"

definition sample_uuid :: uuid_stream where
  "sample_uuid n = replicate n CHR ''u''"

definition sample_access :: privacy_request_create where
  "sample_access = \<lparr>c_subject_key = ''ada@example.org'', c_kind = ACCESS, c_sources = [''profile'']\<rparr>"

definition sample_delete :: privacy_request_create where
  "sample_delete = \<lparr>c_subject_key = ''ada@example.org'', c_kind = DELETE, c_sources = [''jobs'', ''devices'']\<rparr>"

lemma sample_uuid_inj [simp]: "sample_uuid n = sample_uuid m \<longleftrightarrow> n = m"
  by (metis length_replicate sample_uuid_def)

end
