(* ===== verification/Events.thy ===== *)
theory Events
  imports Samples "HOL-Library.Word"
begin

text \<open>
  \<open>services/events.py\<close>: the per-tenant audit chain (\<open>append_audit\<close>, \<open>verify_audit_chain\<close>) and
  the transactional outbox (\<open>enqueue_outbox\<close>, \<open>unpublished_outbox_count\<close>). The lemmas show that
  appending keeps a chain valid, that a valid chain is numbered from 1 without gaps, and that two
  valid chains with the same last hash are the same chain unless a hash collision is at hand.
\<close>

section \<open>Operations\<close>

definition canonical_json :: "json \<Rightarrow> string" where
  "canonical_json value = json_dumps False value"

text \<open>\<open>int.from_bytes(b, "big")\<close>.\<close>

definition int_from_bytes :: "string \<Rightarrow> int" where
  "int_from_bytes b = foldl (\<lambda>a c. 256 * a + int (of_char c)) 0 b"

definition postgres_advisory_key :: "digest_fn \<Rightarrow> string \<Rightarrow> int" where
  "postgres_advisory_key sha256 tenant_id =
     (let value = int_from_bytes (take 8 (sha256 (utf8_encode tenant_id)))
      in if 2 ^ 63 \<le> value then value - 2 ^ 64 else value)"

definition zero_hash :: string where
  "zero_hash = replicate 64 CHR ''0''"

text \<open>The rows of one tenant, and the row of the query with \<open>ORDER BY sequence DESC LIMIT 1\<close>.\<close>

definition tenant_events :: "cloud \<Rightarrow> string \<Rightarrow> audit_event list" where
  "tenant_events d tenant_id = filter (\<lambda>a. au_tenant_id a = tenant_id) (audit d)"

definition chain_head :: "cloud \<Rightarrow> string \<Rightarrow> audit_event option" where
  "chain_head d tenant_id =
     (case sort_key (\<lambda>a. - au_sequence a) (tenant_events d tenant_id) of
        [] \<Rightarrow> None | a # _ \<Rightarrow> Some a)"

definition envelope ::
    "string \<Rightarrow> string \<Rightarrow> int \<Rightarrow> string \<Rightarrow> string \<Rightarrow> string \<Rightarrow> json" where
  "envelope tenant_id request_id sequence action payload_hash previous_hash =
     JObj [(''tenant_id'', JStr tenant_id),
           (''request_id'', JStr request_id),
           (''sequence'', JInt sequence),
           (''action'', JStr action),
           (''payload_hash'', JStr payload_hash),
           (''previous_hash'', JStr previous_hash)]"

text \<open>\<open>payload or {}\<close>: the empty dict is falsy, too.\<close>

definition or_empty :: "json option \<Rightarrow> json" where
  "or_empty payload = (case payload of None \<Rightarrow> JObj [] | Some p \<Rightarrow> p)"

text \<open>The row that \<open>append_audit\<close> builds, and the append itself.\<close>

definition audit_row ::
    "digest_fn \<Rightarrow> uuid_stream \<Rightarrow> time \<Rightarrow> string \<Rightarrow> string \<Rightarrow> string \<Rightarrow> json option \<Rightarrow> cloud \<Rightarrow> audit_event"
  where
  "audit_row sha256 uuid now tenant_id request_id action payload d =
     (let payload = or_empty payload;
          last = chain_head d tenant_id;
          sequence = (case last of None \<Rightarrow> 1 | Some a \<Rightarrow> au_sequence a + 1);
          previous_hash = (case last of None \<Rightarrow> zero_hash | Some a \<Rightarrow> au_event_hash a);
          payload_hash = hexdigest sha256 (utf8_encode (canonical_json payload));
          event_hash = hexdigest sha256 (utf8_encode (canonical_json
            (envelope tenant_id request_id sequence action payload_hash previous_hash)))
      in \<lparr>au_id = uuid (fresh d), au_tenant_id = tenant_id, au_request_id = request_id,
          au_sequence = sequence, au_action = action, au_payload_hash = payload_hash,
          au_previous_hash = previous_hash, au_event_hash = event_hash, au_created_at = now\<rparr>)"

definition append_audit ::
    "digest_fn \<Rightarrow> uuid_stream \<Rightarrow> time \<Rightarrow> string \<Rightarrow> string \<Rightarrow> string \<Rightarrow> json option \<Rightarrow> cloud \<Rightarrow> error + cloud"
  where
  "append_audit sha256 uuid now tenant_id request_id action payload d =
     insert_audit (audit_row sha256 uuid now tenant_id request_id action payload d)
       (d\<lparr>fresh := fresh d + 1\<rparr>)"

text \<open>
  \<open>enqueue_outbox\<close> adds the row to the session; the row reaches the table with the next flush of
  the same transaction, so the model inserts it at once.
\<close>

definition enqueue_outbox ::
    "uuid_stream \<Rightarrow> time \<Rightarrow> string \<Rightarrow> string \<Rightarrow> string \<Rightarrow> json option \<Rightarrow> cloud \<Rightarrow> error + cloud" where
  "enqueue_outbox uuid now tenant_id aggregate_id event_type payload d =
     insert_outbox
       \<lparr>ob_id = uuid (fresh d), ob_tenant_id = tenant_id, ob_aggregate_id = aggregate_id,
        ob_event_type = event_type, ob_payload = or_empty payload, ob_created_at = now,
        ob_published_at = None\<rparr>
       (d\<lparr>fresh := fresh d + 1\<rparr>)"

definition event_envelope_hash :: "digest_fn \<Rightarrow> audit_event \<Rightarrow> string" where
  "event_envelope_hash sha256 a =
     hexdigest sha256 (utf8_encode (canonical_json
       (envelope (au_tenant_id a) (au_request_id a) (au_sequence a) (au_action a)
          (au_payload_hash a) (au_previous_hash a))))"

fun verify_loop :: "digest_fn \<Rightarrow> string \<Rightarrow> int \<Rightarrow> audit_event list \<Rightarrow> bool" where
  "verify_loop sha256 previous_hash expected_sequence [] = True"
| "verify_loop sha256 previous_hash expected_sequence (event # events) =
     (if au_sequence event \<noteq> expected_sequence \<or> au_previous_hash event \<noteq> previous_hash then False
      else if event_envelope_hash sha256 event \<noteq> au_event_hash event then False
      else verify_loop sha256 (au_event_hash event) (expected_sequence + 1) events)"

definition verify_audit_chain :: "digest_fn \<Rightarrow> cloud \<Rightarrow> string \<Rightarrow> bool" where
  "verify_audit_chain sha256 d tenant_id =
     verify_loop sha256 zero_hash 1 (sort_key au_sequence (tenant_events d tenant_id))"

definition unpublished_outbox_count :: "cloud \<Rightarrow> nat" where
  "unpublished_outbox_count d = length (filter (\<lambda>e. ob_published_at e = None) (outbox d))"

section \<open>Sorting\<close>

lemma insort_key_snoc: "f x \<le> f a \<Longrightarrow> insort_key f x (ys @ [a]) = insort_key f x ys @ [a]"
  by (induction ys) auto

lemma sort_key_snoc:
  "(\<And>x. x \<in> set xs \<Longrightarrow> f x \<le> f a) \<Longrightarrow> sort_key f (xs @ [a]) = sort_key f xs @ [a]"
  by (induction xs) (auto simp: insort_key_snoc)

section \<open>A valid chain\<close>

lemma verify_loop_append:
  "verify_loop sha256 p n (xs @ ys) \<longleftrightarrow>
     verify_loop sha256 p n xs \<and>
     verify_loop sha256 (if xs = [] then p else au_event_hash (last xs)) (n + int (length xs)) ys"
  by (induction xs arbitrary: p n) (auto simp: algebra_simps)

lemma verify_loop_sequences:
  "verify_loop sha256 p n es \<Longrightarrow> map au_sequence es = map (\<lambda>i. n + int i) [0..<length es]"
proof (induction es arbitrary: p n)
  case Nil
  then show ?case by simp
next
  case (Cons e es)
  then have "au_sequence e = n"
    and "map au_sequence es = map (\<lambda>i. n + 1 + int i) [0..<length es]"
    by (auto split: if_splits)
  then show ?case
    by (auto simp: map_upt_Suc simp del: upt_Suc)
qed

lemma verify_loop_nth:
  assumes "verify_loop sha256 p n es" and "i < length es"
  shows "au_sequence (es ! i) = n + int i"
proof -
  have "au_sequence (es ! i) = map au_sequence es ! i" using assms(2) by simp
  also have "\<dots> = n + int i" by (simp add: verify_loop_sequences [OF assms(1)] assms(2))
  finally show ?thesis .
qed

lemma verify_loop_hash:
  "verify_loop sha256 p n es \<Longrightarrow> e \<in> set es \<Longrightarrow> event_envelope_hash sha256 e = au_event_hash e"
  by (induction es arbitrary: p n) (auto split: if_splits)

lemma verify_loop_distinct:
  "verify_loop sha256 p n es \<Longrightarrow> distinct (map au_sequence es)"
  by (simp add: verify_loop_sequences distinct_map inj_on_def)

section \<open>Appending\<close>

lemma chain_head_max:
  assumes "chain_head d t = Some a"
  shows "a \<in> set (tenant_events d t)" and "\<And>b. b \<in> set (tenant_events d t) \<Longrightarrow> au_sequence b \<le> au_sequence a"
proof -
  let ?s = "sort_key (\<lambda>a. - au_sequence a) (tenant_events d t)"
  obtain rest where s: "?s = a # rest"
    using assms by (auto simp: chain_head_def split: list.splits)
  have mem: "set (tenant_events d t) = set (a # rest)"
    using s by (metis set_sort)
  then show "a \<in> set (tenant_events d t)" by simp
  have "sorted (map (\<lambda>a. - au_sequence a) ?s)" by (rule sorted_sort_key)
  then show "au_sequence b \<le> au_sequence a" if "b \<in> set (tenant_events d t)" for b
    using that mem s by auto
qed

lemma chain_head_None: "chain_head d t = None \<longleftrightarrow> tenant_events d t = []"
proof -
  have "chain_head d t = None \<longleftrightarrow> sort_key (\<lambda>a. - au_sequence a) (tenant_events d t) = []"
    by (auto simp: chain_head_def split: list.splits)
  also have "\<dots> \<longleftrightarrow> set (sort_key (\<lambda>a. - au_sequence a) (tenant_events d t)) = {}" by (simp only: set_empty)
  also have "\<dots> \<longleftrightarrow> tenant_events d t = []" by simp
  finally show ?thesis .
qed

lemma sorted_le_last: "sorted (map f xs) \<Longrightarrow> x \<in> set xs \<Longrightarrow> f x \<le> f (last xs)"
  by (induction xs) auto

lemma chain_head_verified:
  assumes "verify_audit_chain sha256 d t" and "tenant_events d t \<noteq> []"
  shows "chain_head d t = Some (last (sort_key au_sequence (tenant_events d t)))"
proof -
  let ?s = "sort_key au_sequence (tenant_events d t)"
  have mem: "set ?s = set (tenant_events d t)" by simp
  then have ne: "?s \<noteq> []" using assms(2) by (metis set_empty)
  have v: "verify_loop sha256 zero_hash 1 ?s" using assms(1) by (simp add: verify_audit_chain_def)
  obtain a where a: "chain_head d t = Some a" using assms(2) chain_head_None by blast
  have in_a: "a \<in> set ?s" and in_l: "last ?s \<in> set ?s"
    using chain_head_max(1) [OF a] ne mem by (blast, blast intro: last_in_set)
  then have "au_sequence (last ?s) \<le> au_sequence a"
    using chain_head_max(2) [OF a] mem by blast
  moreover have "au_sequence a \<le> au_sequence (last ?s)"
    using sorted_le_last [OF sorted_sort_key in_a] .
  ultimately have "au_sequence a = au_sequence (last ?s)" by simp
  then have "a = last ?s" by (rule key_inj [OF verify_loop_distinct [OF v] in_a in_l])
  with a show ?thesis by simp
qed


lemma append_audit_eq:
  "append_audit sha256 uuid now t r act pl d = Inr d' \<Longrightarrow>
   d' = d\<lparr>fresh := fresh d + 1, audit := audit d @ [audit_row sha256 uuid now t r act pl d]\<rparr>"
  by (auto simp: append_audit_def dest: insert_audit_frame)

lemma audit_row_fields [simp]:
  "au_tenant_id (audit_row sha256 uuid now t r act pl d) = t"
  "au_request_id (audit_row sha256 uuid now t r act pl d) = r"
  "au_action (audit_row sha256 uuid now t r act pl d) = act"
  "au_sequence (audit_row sha256 uuid now t r act pl d) =
     (case chain_head d t of None \<Rightarrow> 1 | Some b \<Rightarrow> au_sequence b + 1)"
  "au_previous_hash (audit_row sha256 uuid now t r act pl d) =
     (case chain_head d t of None \<Rightarrow> zero_hash | Some b \<Rightarrow> au_event_hash b)"
  "event_envelope_hash sha256 (audit_row sha256 uuid now t r act pl d) =
     au_event_hash (audit_row sha256 uuid now t r act pl d)"
  by (simp_all add: audit_row_def event_envelope_hash_def Let_def)

lemma append_audit_verified:
  assumes app: "append_audit sha256 uuid now t r act pl d = Inr d'"
    and ok: "verify_audit_chain sha256 d u"
  shows "verify_audit_chain sha256 d' u"
proof -
  let ?a = "audit_row sha256 uuid now t r act pl d"
  have d': "audit d' = audit d @ [?a]" using append_audit_eq [OF app] by simp
  let ?s = "sort_key au_sequence (tenant_events d u)"
  have v: "verify_loop sha256 zero_hash 1 ?s" using ok by (simp add: verify_audit_chain_def)
  consider (other) "t \<noteq> u" | (first) "t = u" "tenant_events d u = []"
    | (later) "t = u" "tenant_events d u \<noteq> []" by blast
  then show ?thesis
  proof cases
    case other
    then have "tenant_events d' u = tenant_events d u" using d' by (simp add: tenant_events_def)
    with v show ?thesis by (simp add: verify_audit_chain_def)
  next
    case first
    then have "tenant_events d' u = [?a]" using d' by (simp add: tenant_events_def)
    moreover have "chain_head d t = None" using first by (simp add: chain_head_None)
    ultimately show ?thesis by (simp add: verify_audit_chain_def)
  next
    case later
    then have hd: "chain_head d t = Some (last ?s)" using ok by (simp add: chain_head_verified)
    have ne: "?s \<noteq> []" using later(2) by (metis set_empty set_sort)
    have "au_sequence b \<le> au_sequence ?a" if "b \<in> set (tenant_events d u)" for b
      using chain_head_max(2) [OF hd] that later(1) hd by fastforce
    then have s': "sort_key au_sequence (tenant_events d u @ [?a]) = ?s @ [?a]"
      by (rule sort_key_snoc)
    have "tenant_events d' u = tenant_events d u @ [?a]"
      using d' later by (simp add: tenant_events_def)
    moreover have "au_sequence (last ?s) = int (length ?s)"
      using verify_loop_nth [OF v, of "length ?s - 1"] ne later(2) by (simp add: last_conv_nth of_nat_diff Suc_leI)
    ultimately show ?thesis
      using v s' hd ne by (simp add: verify_audit_chain_def verify_loop_append)
  qed
qed


section \<open>The canonical text of an envelope determines it\<close>

lemma canonical_envelope:
  "canonical_json (envelope t r n act ph prev) =
     ''{'' @ json_string False ''action'' @ '':'' @ json_string False act @
     '','' @ json_string False ''payload_hash'' @ '':'' @ json_string False ph @
     '','' @ json_string False ''previous_hash'' @ '':'' @ json_string False prev @
     '','' @ json_string False ''request_id'' @ '':'' @ json_string False r @
     '','' @ json_string False ''sequence'' @ '':'' @ str_of_int n @
     '','' @ json_string False ''tenant_id'' @ '':'' @ json_string False t @ ''}''"
  by (simp add: canonical_json_def envelope_def json_object_def)

lemma str_of_int_stop:
  assumes "str_of_int n @ CHR '','' # s = str_of_int m @ CHR '','' # q"
  shows "n = m \<and> s = q"
proof -
  have nd: "\<not> is_digit CHR '',''" "\<not> is_digit CHR ''-''" by (simp_all add: is_digit_def)
  have hd: "str_of_nat k @ CHR '','' # x \<noteq> CHR ''-'' # y" for k x y
    using str_of_nat_digits [of k] nd(2) by (cases "str_of_nat k") auto
  show ?thesis
  proof (cases "n < 0"; cases "m < 0")
    assume "n < 0" "m < 0"
    with assms have "str_of_nat (nat (- n)) @ CHR '','' # s = str_of_nat (nat (- m)) @ CHR '','' # q"
      by (simp add: str_of_int_def)
    then have "nat (- n) = nat (- m)" "s = q"
      using digits_then_stop [OF str_of_nat_digits str_of_nat_digits nd(1) nd(1)] str_of_nat_inj by blast+
    with \<open>n < 0\<close> \<open>m < 0\<close> show ?thesis by simp
  next
    assume "\<not> n < 0" "\<not> m < 0"
    with assms have "str_of_nat (nat n) @ CHR '','' # s = str_of_nat (nat m) @ CHR '','' # q"
      by (simp add: str_of_int_def)
    then have "nat n = nat m" "s = q"
      using digits_then_stop [OF str_of_nat_digits str_of_nat_digits nd(1) nd(1)] str_of_nat_inj by blast+
    with \<open>\<not> n < 0\<close> \<open>\<not> m < 0\<close> show ?thesis by simp
  next
    assume "n < 0" "\<not> m < 0"
    with assms hd show ?thesis by (metis append_Cons str_of_int_def)
  next
    assume "\<not> n < 0" "m < 0"
    with assms hd show ?thesis by (metis append_Cons str_of_int_def)
  qed
qed

lemma json_string_eq [simp]:
  "json_string ascii x @ s = json_string ascii y @ t \<longleftrightarrow> x = y \<and> s = t"
  by (auto dest: json_string_prefix_free)

lemma json_string_inj [simp]: "json_string ascii x = json_string ascii y \<longleftrightarrow> x = y"
  using json_string_eq [of ascii x "[]" y "[]"] by simp

lemma str_of_int_eq [simp]:
  "str_of_int n @ CHR '','' # s = str_of_int m @ CHR '','' # q \<longleftrightarrow> n = m \<and> s = q"
  by (auto dest: str_of_int_stop)

lemma canonical_envelope_inj:
  "canonical_json (envelope t r n act ph prev) = canonical_json (envelope t' r' n' act' ph' prev') \<longleftrightarrow>
     t = t' \<and> r = r' \<and> n = n' \<and> act = act' \<and> ph = ph' \<and> prev = prev'"
  by (auto simp: canonical_envelope)

section \<open>Tampering\<close>

text \<open>The fields of an event that its hash covers.\<close>

definition audit_core :: "audit_event \<Rightarrow> string \<times> string \<times> int \<times> string \<times> string \<times> string" where
  "audit_core a = (au_tenant_id a, au_request_id a, au_sequence a, au_action a,
     au_payload_hash a, au_previous_hash a)"

definition collision :: "digest_fn \<Rightarrow> bool" where
  "collision sha256 \<longleftrightarrow> (\<exists>x y. x \<noteq> y \<and> sha256 x = sha256 y)"

lemma envelope_hash_core:
  assumes "event_envelope_hash sha256 a = event_envelope_hash sha256 b" and "\<not> collision sha256"
  shows "audit_core a = audit_core b"
proof -
  let ?c = "\<lambda>a. canonical_json (envelope (au_tenant_id a) (au_request_id a) (au_sequence a)
     (au_action a) (au_payload_hash a) (au_previous_hash a))"
  have "sha256 (utf8_encode (?c a)) = sha256 (utf8_encode (?c b))"
    by (rule hexdigest_inj) (use assms(1) in \<open>simp only: event_envelope_hash_def\<close>)
  with assms(2) have "utf8_encode (?c a) = utf8_encode (?c b)"
    unfolding collision_def by blast
  then have "?c a = ?c b" by (rule utf8_encode_inj)
  then show ?thesis by (simp add: canonical_envelope_inj audit_core_def)
qed

lemma chain_determined:
  assumes "verify_loop sha256 p n es" and "verify_loop sha256 p n es'"
    and "length es = length es'" and "es \<noteq> []"
    and "au_event_hash (last es) = au_event_hash (last es')" and "\<not> collision sha256"
  shows "map audit_core es = map audit_core es'"
  using assms
proof (induction es arbitrary: es' rule: rev_induct)
  case Nil
  then show ?case by simp
next
  case (snoc a es)
  obtain b bs where es': "es' = bs @ [b]"
    using snoc.prems(3) by (cases es' rule: rev_cases) auto
  have ab: "audit_core a = audit_core b"
    using snoc.prems es' by (intro envelope_hash_core) (auto simp: verify_loop_append split: if_splits)
  have len: "length es = length bs" using snoc.prems(3) es' by simp
  show ?case
  proof (cases "es = []")
    case True
    with len es' ab show ?thesis by simp
  next
    case False
    with len have "bs \<noteq> []" by auto
    with False snoc.prems es' ab have "au_event_hash (last es) = au_event_hash (last bs)"
      by (auto simp: verify_loop_append audit_core_def split: if_splits)
    with False snoc es' len have "map audit_core es = map audit_core bs"
      by (auto simp: verify_loop_append)
    with ab es' show ?thesis by simp
  qed
qed

lemma verify_loop_drop_event:
  assumes "verify_loop sha256 p n (xs @ e # ys)" and "ys \<noteq> []"
  shows "\<not> verify_loop sha256 p n (xs @ ys)"
proof
  assume v: "verify_loop sha256 p n (xs @ ys)"
  have "au_sequence ((xs @ e # ys) ! (length xs + 1)) = n + int (length xs + 1)"
    using verify_loop_nth [OF assms(1), of "length xs + 1"] assms(2) by simp
  moreover have "au_sequence ((xs @ ys) ! length xs) = n + int (length xs)"
    using verify_loop_nth [OF v, of "length xs"] assms(2) by simp
  moreover have "(xs @ e # ys) ! (length xs + 1) = hd ys" and "(xs @ ys) ! length xs = hd ys"
    using assms(2) by (simp_all add: nth_append hd_conv_nth)
  ultimately show False by simp
qed

section \<open>When an append fails\<close>

lemma append_audit_error:
  assumes "append_audit sha256 uuid now t r act pl d = Inl e"
  shows "e = IntegrityError"
    and "uuid (fresh d) \<in> set (map au_id (audit d)) \<or>
         au_event_hash (audit_row sha256 uuid now t r act pl d) \<in> set (map au_event_hash (audit d))"
proof -
  let ?a = "audit_row sha256 uuid now t r act pl d"
  show "e = IntegrityError" using assms by (simp add: append_audit_def insert_audit_def split: if_splits)
  have "tenant_sequence ?a \<noteq> tenant_sequence b" if "b \<in> set (audit d)" for b
  proof (cases "au_tenant_id b = t")
    case True
    with that have b: "b \<in> set (tenant_events d t)" by (simp add: tenant_events_def)
    then obtain h where h: "chain_head d t = Some h"
      using chain_head_None [of d t] by fastforce
    with chain_head_max(2) [OF h b] show ?thesis by (auto simp: tenant_sequence_def)
  next
    case False
    then show ?thesis by (auto simp: tenant_sequence_def)
  qed
  moreover have "au_id ?a = uuid (fresh d)" by (simp add: audit_row_def Let_def)
  ultimately show "uuid (fresh d) \<in> set (map au_id (audit d)) \<or>
         au_event_hash ?a \<in> set (map au_event_hash (audit d))"
    using assms by (auto simp: append_audit_def insert_audit_def split: if_splits)
qed

section \<open>The advisory-lock key\<close>

lemma int_from_bytes_bounds: "0 \<le> int_from_bytes b \<and> int_from_bytes b < 256 ^ length b"
proof (induction b rule: rev_induct)
  case Nil
  then show ?case by (simp add: int_from_bytes_def)
next
  case (snoc c b)
  define k where "k = int (of_char c)"
  have c: "0 \<le> k" "k < 256"
    using of_char_less [of c] by (simp_all add: k_def)
  have eq: "int_from_bytes (b @ [c]) = 256 * int_from_bytes b + k"
    by (simp add: int_from_bytes_def k_def)
  have "256 * (int_from_bytes b + 1) \<le> 256 * 256 ^ length b"
    using snoc by simp
  with c have "256 * int_from_bytes b + k < 256 * 256 ^ length b" by simp
  with snoc c show ?case by (simp add: eq)
qed

lemma chain_length:
  assumes "verify_audit_chain sha256 d t"
  shows "(case chain_head d t of None \<Rightarrow> 1 | Some b \<Rightarrow> au_sequence b + 1) = int (length (tenant_events d t)) + 1"
proof (cases "tenant_events d t = []")
  case True
  then show ?thesis using chain_head_None [of d t] by simp
next
  case False
  let ?s = "sort_key au_sequence (tenant_events d t)"
  have ne: "?s \<noteq> []" using False by (metis set_empty set_sort)
  have "au_sequence (last ?s) = 1 + int (length ?s - 1)"
    using assms ne False verify_loop_nth [of sha256 zero_hash 1 ?s "length ?s - 1"]
    by (simp add: verify_audit_chain_def last_conv_nth)
  with False chain_head_verified [OF assms False] show ?thesis
    by (simp add: of_nat_diff Suc_leI)
qed

lemma events_without:
  "sort_key au_sequence (tenant_events (d\<lparr>audit := filter (\<lambda>b. b \<noteq> a) (audit d)\<rparr>) t) =
   filter (\<lambda>b. b \<noteq> a) (sort_key au_sequence (tenant_events d t))"
proof -
  have "tenant_events (d\<lparr>audit := filter (\<lambda>b. b \<noteq> a) (audit d)\<rparr>) t = filter (\<lambda>b. b \<noteq> a) (tenant_events d t)"
    by (simp add: tenant_events_def conj_commute)
  then show ?thesis by (simp add: filter_sort)
qed

lemma filter_out_middle:
  "distinct (xs @ a # ys) \<Longrightarrow> filter (\<lambda>b. b \<noteq> a) (xs @ a # ys) = xs @ ys"
  using filter_id_conv [of "\<lambda>b. b \<noteq> a" xs] filter_id_conv [of "\<lambda>b. b \<noteq> a" ys] by auto

lemma verify_loop_without:
  assumes "verify_loop sha256 p n es" and "a \<in> set es"
  shows "verify_loop sha256 p n (filter (\<lambda>b. b \<noteq> a) es) \<longleftrightarrow> a = last es"
proof -
  from assms(2) obtain xs ys where es: "es = xs @ a # ys" by (meson split_list)
  have "distinct es" using verify_loop_distinct [OF assms(1)] by (simp add: distinct_map)
  then have f: "filter (\<lambda>b. b \<noteq> a) es = xs @ ys"
    unfolding es by (rule filter_out_middle)
  have l: "a = last es \<longleftrightarrow> ys = []"
    using \<open>distinct es\<close> last_in_set [of ys] by (cases "ys = []") (auto simp: es)
  show ?thesis
  proof (cases "ys = []")
    case True
    then show ?thesis using assms(1) f l by (simp add: es verify_loop_append)
  next
    case False
    then show ?thesis using verify_loop_drop_event [of sha256 p n xs a ys] assms(1) f l by (simp add: es)
  qed
qed

lemma append_audit_succeeds:
  assumes "\<not> collision sha256" and "uuid (fresh d) \<notin> set (map au_id (audit d))"
    and "list_all (\<lambda>a. event_envelope_hash sha256 a = au_event_hash a) (audit d)"
  shows "\<exists>d'. append_audit sha256 uuid now t r act pl d = Inr d'"
proof (rule ccontr)
  assume "\<not> ?thesis"
  then obtain e where err: "append_audit sha256 uuid now t r act pl d = Inl e"
    by (cases "append_audit sha256 uuid now t r act pl d") auto
  let ?a = "audit_row sha256 uuid now t r act pl d"
  from append_audit_error(2) [OF err] assms(2) obtain b where
    b: "b \<in> set (audit d)" "au_event_hash ?a = au_event_hash b" by auto
  then have "event_envelope_hash sha256 ?a = event_envelope_hash sha256 b"
    using assms(3) by (auto simp: list_all_iff)
  then have core: "audit_core ?a = audit_core b" using assms(1) by (rule envelope_hash_core)
  then have "b \<in> set (tenant_events d t)" using b(1) by (simp add: audit_core_def tenant_events_def)
  then obtain h where "chain_head d t = Some h" "au_sequence b \<le> au_sequence h"
    using chain_head_None [of d t] chain_head_max(2) by fastforce
  with core show False by (simp add: audit_core_def)
qed

section \<open>A chain of two events, for the examples\<close>

definition sample_log1 :: cloud where
  "sample_log1 = empty_cloud\<lparr>fresh := 1, audit := [audit_row sample_digest sample_uuid 0 ''acme'' ''r1''
     ''request.created'' None empty_cloud]\<rparr>"

definition sample_log :: cloud where
  "sample_log = sample_log1\<lparr>fresh := 2, audit := audit sample_log1 @ [audit_row sample_digest sample_uuid 1
     ''acme'' ''r1'' ''task.succeeded'' None sample_log1]\<rparr>"

lemma sample_digest_injective: "\<not> collision sample_digest"
  by (simp add: collision_def sample_digest_def)

lemma sample_log1_append:
  "append_audit sample_digest sample_uuid 0 ''acme'' ''r1'' ''request.created'' None empty_cloud = Inr sample_log1"
  by (simp add: append_audit_def insert_audit_def sample_log1_def) (simp add: empty_cloud_def)

lemma empty_cloud_verified: "verify_audit_chain sha256 empty_cloud t"
  by (simp add: verify_audit_chain_def tenant_events_def empty_cloud_def)

lemma sample_log1_verified: "verify_audit_chain sample_digest sample_log1 ''acme''"
  by (rule append_audit_verified [OF sample_log1_append empty_cloud_verified])

lemma sample_log_append:
  "append_audit sample_digest sample_uuid 1 ''acme'' ''r1'' ''task.succeeded'' None sample_log1 = Inr sample_log"
proof -
  let ?a = "audit_row sample_digest sample_uuid 0 ''acme'' ''r1'' ''request.created'' None empty_cloud"
  let ?b = "audit_row sample_digest sample_uuid 1 ''acme'' ''r1'' ''task.succeeded'' None sample_log1"
  have audit: "audit sample_log1 = [?a]" "fresh sample_log1 = 1" by (simp_all add: sample_log1_def)
  have "au_action ?b \<noteq> au_action ?a" by simp
  then have "audit_core ?b \<noteq> audit_core ?a" by (simp only: audit_core_def prod.inject) blast
  then have h: "au_event_hash ?b \<noteq> au_event_hash ?a"
    using envelope_hash_core [OF _ sample_digest_injective, of ?b ?a] by auto
  have s: "tenant_sequence ?b \<noteq> tenant_sequence ?a"
    using chain_length [OF sample_log1_verified] chain_length [OF empty_cloud_verified [of sample_digest "''acme''"]]
    by (auto simp: tenant_sequence_def tenant_events_def audit) (simp_all add: empty_cloud_def)
  have i: "au_id ?b \<noteq> au_id ?a" by (simp add: audit_row_def Let_def audit(2)) (simp add: empty_cloud_def)
  show ?thesis
    using h s i by (simp add: append_audit_def insert_audit_def sample_log_def audit)
qed

lemma sample_log_verified: "verify_audit_chain sample_digest sample_log ''acme''"
  by (rule append_audit_verified [OF sample_log_append sample_log1_verified])

lemma sample_log_length: "length (tenant_events sample_log ''acme'') = 2"
  by (simp add: tenant_events_def sample_log_def sample_log1_def)

section \<open>Properties\<close>

text \<open>
  C7. Appending an audit event keeps every tenant's chain valid, adds exactly one event to the chain
  of the tenant concerned and none to another, and gives it the next sequence number.
\<close>

theorem append_audit_keeps_chains:
  assumes "append_audit sha256 uuid now t r act pl d = Inr d'"
    and "verify_audit_chain sha256 d u" and "verify_audit_chain sha256 d t"
  shows "verify_audit_chain sha256 d' u \<and>
    (\<exists>a. tenant_events d' u = tenant_events d u @ (if u = t then [a] else []) \<and>
         au_sequence a = int (length (tenant_events d t)) + 1 \<and> au_request_id a = r \<and> au_action a = act)"
proof
  show "verify_audit_chain sha256 d' u" by (rule append_audit_verified [OF assms(1,2)])
  have d': "audit d' = audit d @ [audit_row sha256 uuid now t r act pl d]"
    using append_audit_eq [OF assms(1)] by simp
  then show "\<exists>a. tenant_events d' u = tenant_events d u @ (if u = t then [a] else []) \<and>
      au_sequence a = int (length (tenant_events d t)) + 1 \<and> au_request_id a = r \<and> au_action a = act"
    using chain_length [OF assms(3)]
    by (intro exI [of _ "audit_row sha256 uuid now t r act pl d"]) (auto simp: tenant_events_def)
qed

theorem append_audit_keeps_chains_witness:
  "append_audit sample_digest sample_uuid 1 ''acme'' ''r1'' ''task.succeeded'' None sample_log1 = Inr sample_log \<and>
   verify_audit_chain sample_digest sample_log ''acme'' \<and> length (tenant_events sample_log ''acme'') = 2"
proof -
  have one: "length (tenant_events sample_log1 ''acme'') = 1"
    by (simp add: tenant_events_def sample_log1_def)
  from append_audit_keeps_chains [OF sample_log_append sample_log1_verified sample_log1_verified] one
  show ?thesis using sample_log_append by auto
qed

text \<open>
  The events of a verified chain, in the order of the query, carry the sequence numbers
  1, 2, 3, ... without a gap or a repetition.
\<close>

theorem verified_chain_sequences:
  assumes "verify_audit_chain sha256 d t"
  shows "map au_sequence (sort_key au_sequence (tenant_events d t)) = map int [1..<length (tenant_events d t) + 1]"
proof -
  have "map (\<lambda>i. 1 + int i) [0..<n] = map int [1..<n + 1]" for n
    by (induction n) simp_all
  with verify_loop_sequences [OF assms [unfolded verify_audit_chain_def]] show ?thesis by simp
qed

theorem verified_chain_sequences_witness:
  "verify_audit_chain sample_digest sample_log ''acme'' \<and>
   map au_sequence (sort_key au_sequence (tenant_events sample_log ''acme'')) = [1, 2]"
  using verified_chain_sequences [OF sample_log_verified] sample_log_verified
  by (simp add: sample_log_length upt_rec)



text \<open>
  Deleting one event of a verified chain is detected exactly when the event is not the last:
  the chain has no gap to show when its end is cut off.
\<close>

theorem event_removal_detected:
  assumes "verify_audit_chain sha256 d t" and "a \<in> set (tenant_events d t)"
  shows "verify_audit_chain sha256 (d\<lparr>audit := filter (\<lambda>b. b \<noteq> a) (audit d)\<rparr>) t \<longleftrightarrow> chain_head d t = Some a"
proof -
  have ne: "tenant_events d t \<noteq> []" using assms(2) by auto
  have "verify_audit_chain sha256 (d\<lparr>audit := filter (\<lambda>b. b \<noteq> a) (audit d)\<rparr>) t \<longleftrightarrow>
      a = last (sort_key au_sequence (tenant_events d t))"
    unfolding verify_audit_chain_def events_without
    by (rule verify_loop_without) (use assms in \<open>simp_all add: verify_audit_chain_def\<close>)
  then show ?thesis using chain_head_verified [OF assms(1) ne] by auto
qed

theorem event_removal_detected_witness:
  "\<not> verify_audit_chain sample_digest
      (sample_log\<lparr>audit := filter (\<lambda>b. b \<noteq> hd (audit sample_log)) (audit sample_log)\<rparr>) ''acme''"
proof -
  have m: "hd (audit sample_log) \<in> set (tenant_events sample_log ''acme'')"
    by (simp add: sample_log_def sample_log1_def tenant_events_def)
  have "au_sequence (hd (audit sample_log)) = 1"
    by (simp add: sample_log_def sample_log1_def chain_head_def tenant_events_def empty_cloud_def)
  moreover have "au_sequence b = 2" if "chain_head sample_log ''acme'' = Some b" for b
    using chain_length [OF sample_log_verified] that by (simp add: sample_log_length)
  ultimately have "chain_head sample_log ''acme'' \<noteq> Some (hd (audit sample_log))" by fastforce
  then show ?thesis using event_removal_detected [OF sample_log_verified m] by simp
qed

text \<open>
  An append is refused only when the drawn identifier is taken or when the digest of the new
  envelope is the stored hash of another event: the sequence number never clashes with one in the
  table, and without a collision of the digest and of the identifiers every append succeeds, in any
  state whose stored hashes are digests of their envelopes.
\<close>

theorem append_audit_total:
  assumes "\<not> collision sha256" and "uuid (fresh d) \<notin> set (map au_id (audit d))"
    and "list_all (\<lambda>a. event_envelope_hash sha256 a = au_event_hash a) (audit d)"
  shows "\<exists>d'. append_audit sha256 uuid now t r act pl d = Inr d'"
  by (rule append_audit_succeeds) (fact assms)+

theorem append_audit_total_witness:
  "\<exists>d'. append_audit sample_digest sample_uuid 5 ''acme'' ''r1'' ''request.completed'' None sample_log = Inr d'"
proof (rule append_audit_total)
  show "sample_uuid (fresh sample_log) \<notin> set (map au_id (audit sample_log))"
    by (simp add: sample_log_def sample_log1_def audit_row_def Let_def empty_cloud_def)
  show "list_all (\<lambda>a. event_envelope_hash sample_digest a = au_event_hash a) (audit sample_log)"
    by (simp add: sample_log_def sample_log1_def)
qed (rule sample_digest_injective)

text \<open>
  The key of PostgreSQL's per-tenant advisory lock is the first eight bytes of the tenant's
  digest read as a two's-complement 64-bit integer, so it is always in the range that
  \<open>pg_advisory_xact_lock\<close> accepts.
\<close>

theorem postgres_advisory_key_signed:
  "postgres_advisory_key sha256 tenant =
     sint (word_of_int (int_from_bytes (take 8 (sha256 (utf8_encode tenant)))) :: 64 word) \<and>
   - (2 ^ 63) \<le> postgres_advisory_key sha256 tenant \<and> postgres_advisory_key sha256 tenant < 2 ^ 63"
proof -
  let ?b = "take 8 (sha256 (utf8_encode tenant))" and ?v = "int_from_bytes (take 8 (sha256 (utf8_encode tenant)))"
  have "(256 :: int) ^ length ?b \<le> 256 ^ 8" by (rule power_increasing) simp_all
  then have v: "0 \<le> ?v" "?v < 2 ^ 64" using int_from_bytes_bounds [of ?b] by simp_all
  have "signed_take_bit 63 ?v = (if 2 ^ 63 \<le> ?v then ?v - 2 ^ 64 else ?v)"
  proof (cases "2 ^ 63 \<le> ?v")
    case True
    then have "(?v + 2 ^ 63) mod 2 ^ 64 = ?v - 2 ^ 63"
      using v mod_add_self2 [of "?v - 2 ^ 63" "2 ^ 64"] mod_pos_pos_trivial [of "?v - 2 ^ 63" "2 ^ 64"]
      by (simp add: add.commute)
    with True show ?thesis by (simp add: signed_take_bit_eq_take_bit_shift take_bit_eq_mod)
  next
    case False
    then show ?thesis using v by (simp add: signed_take_bit_eq_take_bit_shift take_bit_eq_mod mod_pos_pos_trivial)
  qed
  then show ?thesis using v by (simp add: postgres_advisory_key_def Let_def sint_sbintrunc')
qed

end
