(* ===== verification/Requests.thy ===== *)
theory Requests
  imports Events
begin

text \<open>
  \<open>services/requests.py\<close>: intake of a privacy request under an idempotency key, and the
  tenant-scoped reads. \<open>create_rows\<close> is the try block up to its commit; an integrity error rolls
  everything back, so a failed intake leaves the state as it was. The intake reads the table
  twice, before its transaction and again after a rollback; \<open>create_privacy_request_racing\<close>
  takes the states of both moments, so that what another client commits in between is covered.
\<close>

section \<open>Operations\<close>

definition same_command :: "digest_fn \<Rightarrow> privacy_request \<Rightarrow> privacy_request_create \<Rightarrow> bool" where
  "same_command sha256 request command \<longleftrightarrow>
     pr_subject_key_hash request = hash_subject sha256 (c_subject_key command) \<and>
     pr_kind request = c_kind command \<and>
     sort (pr_requested_sources request) = sort (c_sources command)"

definition find_by_idempotency ::
    "cloud \<Rightarrow> string \<Rightarrow> string \<Rightarrow> error + privacy_request option" where
  "find_by_idempotency d tenant_id idempotency_key =
     scalar_one_or_none (filter (\<lambda>r. pr_tenant_id r = tenant_id \<and>
       pr_idempotency_key r = idempotency_key) (requests d))"

definition get_privacy_request :: "cloud \<Rightarrow> string \<Rightarrow> string \<Rightarrow> error + privacy_request option" where
  "get_privacy_request d tenant_id request_id =
     scalar_one_or_none (filter (\<lambda>r. pr_id r = request_id \<and> pr_tenant_id r = tenant_id) (requests d))"

text \<open>The tasks of a request, the relationship that \<open>selectinload\<close> fills.\<close>

definition request_tasks :: "cloud \<Rightarrow> string \<Rightarrow> request_task list" where
  "request_tasks d request_id = filter (\<lambda>t. rt_request_id t = request_id) (tasks d)"

definition new_request ::
    "digest_fn \<Rightarrow> uuid_stream \<Rightarrow> time \<Rightarrow> string \<Rightarrow> string \<Rightarrow> privacy_request_create \<Rightarrow> cloud \<Rightarrow> privacy_request"
  where
  "new_request sha256 uuid now tenant_id idempotency_key command d =
     \<lparr>pr_id = uuid (fresh d), pr_tenant_id = tenant_id, pr_idempotency_key = idempotency_key,
      pr_subject_key_hash = hash_subject sha256 (c_subject_key command),
      pr_kind = c_kind command, pr_status = QUEUED, pr_policy_version = ''2026-08'',
      pr_requested_sources = c_sources command, pr_artifact_path = None, pr_error = None,
      pr_version = 1, pr_created_at = now, pr_updated_at = now\<rparr>"

definition new_task :: "uuid_stream \<Rightarrow> time \<Rightarrow> string \<Rightarrow> string \<Rightarrow> string \<Rightarrow> cloud \<Rightarrow> request_task" where
  "new_task uuid now tenant_id request_id source d =
     \<lparr>rt_id = uuid (fresh d), rt_request_id = request_id, rt_tenant_id = tenant_id,
      rt_source = source, rt_status = T_PENDING, rt_attempt = 0, rt_lease_owner = None,
      rt_lease_expires_at = None, rt_result_summary = JObj [], rt_error = None,
      rt_created_at = now, rt_updated_at = now\<rparr>"

fun insert_tasks ::
    "uuid_stream \<Rightarrow> time \<Rightarrow> string \<Rightarrow> string \<Rightarrow> string list \<Rightarrow> cloud \<Rightarrow> error + cloud" where
  "insert_tasks uuid now tenant_id request_id [] d = Inr d"
| "insert_tasks uuid now tenant_id request_id (source # sources) d =
     (case insert_task (new_task uuid now tenant_id request_id source d) (d\<lparr>fresh := fresh d + 1\<rparr>) of
        Inl e \<Rightarrow> Inl e
      | Inr d' \<Rightarrow> insert_tasks uuid now tenant_id request_id sources d')"

fun enqueue_ready ::
    "uuid_stream \<Rightarrow> time \<Rightarrow> string \<Rightarrow> string \<Rightarrow> request_task list \<Rightarrow> cloud \<Rightarrow> error + cloud" where
  "enqueue_ready uuid now tenant_id request_id [] d = Inr d"
| "enqueue_ready uuid now tenant_id request_id (task # ts) d =
     (case enqueue_outbox uuid now tenant_id (rt_id task) ''privacy_task.ready''
             (Some (JObj [(''task_id'', JStr (rt_id task)), (''request_id'', JStr request_id),
                          (''source'', JStr (rt_source task))])) d of
        Inl e \<Rightarrow> Inl e
      | Inr d' \<Rightarrow> enqueue_ready uuid now tenant_id request_id ts d')"

definition created_payload :: "privacy_request \<Rightarrow> json" where
  "created_payload request =
     JObj [(''kind'', JStr (kind_value (pr_kind request))),
           (''sources'', JArr (map JStr (pr_requested_sources request)))]"

definition create_rows ::
    "digest_fn \<Rightarrow> uuid_stream \<Rightarrow> time \<Rightarrow> string \<Rightarrow> string \<Rightarrow> privacy_request_create \<Rightarrow> cloud
       \<Rightarrow> error + cloud" where
  "create_rows sha256 uuid now tenant_id idempotency_key command d =
     (let request = new_request sha256 uuid now tenant_id idempotency_key command d in
      case insert_request request (d\<lparr>fresh := fresh d + 1\<rparr>) of
        Inl e \<Rightarrow> Inl e
      | Inr d1 \<Rightarrow>
      case insert_tasks uuid now tenant_id (pr_id request) (c_sources command) d1 of
        Inl e \<Rightarrow> Inl e
      | Inr d2 \<Rightarrow>
      case enqueue_outbox uuid now tenant_id (pr_id request) ''privacy_request.created''
             (Some (created_payload request)) d2 of
        Inl e \<Rightarrow> Inl e
      | Inr d3 \<Rightarrow>
      case enqueue_ready uuid now tenant_id (pr_id request)
             (drop (length (tasks d1)) (tasks d2)) d3 of
        Inl e \<Rightarrow> Inl e
      | Inr d4 \<Rightarrow>
      append_audit sha256 uuid now tenant_id (pr_id request) ''request.created''
             (Some (created_payload request)) d4)"

definition conflict_message :: string where
  "conflict_message = ''idempotency key already represents a different request''"

text \<open>An existing request under the key: it is returned for the same command only.\<close>

definition existing_result ::
    "digest_fn \<Rightarrow> privacy_request \<Rightarrow> privacy_request_create \<Rightarrow> error + (privacy_request option \<times> bool)" where
  "existing_result sha256 existing command =
     (if \<not> same_command sha256 existing command then Inl (IdempotencyConflict conflict_message)
      else Inr (Some existing, False))"

definition create_privacy_request_racing ::
    "digest_fn \<Rightarrow> uuid_stream \<Rightarrow> time \<Rightarrow> string \<Rightarrow> string \<Rightarrow> privacy_request_create \<Rightarrow> cloud \<Rightarrow> cloud
       \<Rightarrow> (error + (privacy_request option \<times> bool)) \<times> cloud" where
  "create_privacy_request_racing sha256 uuid now tenant_id idempotency_key command d0 d =
     (case find_by_idempotency d0 tenant_id idempotency_key of
        Inl e \<Rightarrow> (Inl e, d)
      | Inr (Some existing) \<Rightarrow> (existing_result sha256 existing command, d)
      | Inr None \<Rightarrow>
          (case create_rows sha256 uuid now tenant_id idempotency_key command d of
             Inr d' \<Rightarrow>
               (let d'' = d'\<lparr>m_request_created := m_request_created d' @ [c_kind command]\<rparr> in
                (case get_privacy_request d'' tenant_id (uuid (fresh d)) of
                   Inl e \<Rightarrow> (Inl e, d'')
                 | Inr r \<Rightarrow> (Inr (r, True), d'')))
           | Inl IntegrityError \<Rightarrow>
               (case find_by_idempotency d tenant_id idempotency_key of
                  Inl e \<Rightarrow> (Inl e, d)
                | Inr None \<Rightarrow> (Inl IntegrityError, d)
                | Inr (Some existing) \<Rightarrow> (existing_result sha256 existing command, d))
           | Inl e \<Rightarrow> (Inl e, d)))"

text \<open>Without a competing client both moments see the same table.\<close>

definition create_privacy_request ::
    "digest_fn \<Rightarrow> uuid_stream \<Rightarrow> time \<Rightarrow> string \<Rightarrow> string \<Rightarrow> privacy_request_create \<Rightarrow> cloud
       \<Rightarrow> (error + (privacy_request option \<times> bool)) \<times> cloud" where
  "create_privacy_request sha256 uuid now tenant_id idempotency_key command d =
     create_privacy_request_racing sha256 uuid now tenant_id idempotency_key command d d"

definition list_privacy_requests ::
    "cloud \<Rightarrow> string \<Rightarrow> request_status option \<Rightarrow> nat \<Rightarrow> nat \<Rightarrow> privacy_request list" where
  "list_privacy_requests d tenant_id status limit offset =
     take limit (drop offset
       (sort_key (\<lambda>r. - pr_created_at r)
         (filter (\<lambda>r. pr_tenant_id r = tenant_id \<and>
            (case status of None \<Rightarrow> True | Some s \<Rightarrow> pr_status r = s)) (requests d))))"

section \<open>Lookups under unique keys\<close>

lemma find_by_idempotency_eq:
  "keys_ok d \<Longrightarrow> find_by_idempotency d t k = Inr (find (\<lambda>r. idem_key r = (t, k)) (requests d))"
  using scalar_one_or_none_filter [of idem_key "requests d" "(t, k)"]
  by (simp add: find_by_idempotency_def keys_ok_def idem_key_def)

lemma find_by_idempotency_Some:
  "keys_ok d \<Longrightarrow> r \<in> set (requests d) \<Longrightarrow>
   find_by_idempotency d (pr_tenant_id r) (pr_idempotency_key r) = Inr (Some r)"
  using find_key_Some [of idem_key "requests d" r]
  by (simp add: find_by_idempotency_eq keys_ok_def) (simp add: idem_key_def)

lemma get_privacy_request_eq:
  assumes "keys_ok d"
  shows "get_privacy_request d t i =
    Inr (case find (\<lambda>r. pr_id r = i) (requests d) of
           None \<Rightarrow> None | Some r \<Rightarrow> if pr_tenant_id r = t then Some r else None)"
proof -
  have flt: "filter (\<lambda>r. pr_id r = i \<and> pr_tenant_id r = t) (requests d) =
      filter (\<lambda>r. pr_tenant_id r = t) (filter (\<lambda>r. pr_id r = i) (requests d))"
    by (simp add: conj_commute)
  have "distinct (map pr_id (requests d))" using assms by (simp add: keys_ok_def)
  then have one: "scalar_one_or_none (filter (\<lambda>r. pr_id r = i) (requests d)) =
      Inr (find (\<lambda>r. pr_id r = i) (requests d))"
    by (rule scalar_one_or_none_filter)
  show ?thesis
  proof (cases "find (\<lambda>r. pr_id r = i) (requests d)")
    case None
    with one have "filter (\<lambda>r. pr_id r = i) (requests d) = []"
      by (simp add: scalar_one_or_none_None)
    with None flt show ?thesis by (simp add: get_privacy_request_def)
  next
    case (Some r)
    with one have "filter (\<lambda>r. pr_id r = i) (requests d) = [r]"
      by (simp add: scalar_one_or_none_Inr)
    with Some flt show ?thesis by (simp add: get_privacy_request_def)
  qed
qed

lemma get_privacy_request_Some:
  "keys_ok d \<Longrightarrow> r \<in> set (requests d) \<Longrightarrow> get_privacy_request d (pr_tenant_id r) (pr_id r) = Inr (Some r)"
  using find_key_Some [of pr_id "requests d" r]
  by (simp add: get_privacy_request_eq) (simp add: keys_ok_def)

section \<open>What the intake inserts\<close>

text \<open>A task as the intake creates it.\<close>

definition initial_task :: "time \<Rightarrow> string \<Rightarrow> string \<Rightarrow> request_task \<Rightarrow> bool" where
  "initial_task now tenant_id request_id t \<longleftrightarrow>
     rt_request_id t = request_id \<and> rt_tenant_id t = tenant_id \<and> rt_status t = T_PENDING \<and>
     rt_attempt t = 0 \<and> rt_lease_owner t = None \<and> rt_lease_expires_at t = None \<and>
     rt_result_summary t = JObj [] \<and> rt_error t = None \<and> rt_created_at t = now"

text \<open>The outbox row that wakes a worker for a task.\<close>

definition ready_event :: "time \<Rightarrow> request_task \<Rightarrow> outbox_event \<Rightarrow> bool" where
  "ready_event now t e \<longleftrightarrow>
     ob_tenant_id e = rt_tenant_id t \<and> ob_aggregate_id e = rt_id t \<and>
     ob_event_type e = ''privacy_task.ready'' \<and>
     ob_payload e = JObj [(''task_id'', JStr (rt_id t)), (''request_id'', JStr (rt_request_id t)),
                          (''source'', JStr (rt_source t))] \<and>
     ob_created_at e = now \<and> ob_published_at e = None"

lemma insert_tasks_spec:
  assumes "insert_tasks uuid now tn rid srcs d = Inr d'"
  shows "\<exists>ts. d' = d\<lparr>tasks := tasks d @ ts, fresh := fresh d + length srcs\<rparr> \<and>
     map rt_source ts = srcs \<and> list_all (initial_task now tn rid) ts \<and> (keys_ok d \<longrightarrow> keys_ok d')"
  using assms
proof (induction srcs arbitrary: d)
  case Nil
  then show ?case by simp
next
  case (Cons s srcs)
  let ?t = "new_task uuid now tn rid s d"
  from Cons.prems obtain d1 where ins: "insert_task ?t (d\<lparr>fresh := fresh d + 1\<rparr>) = Inr d1"
    and rest: "insert_tasks uuid now tn rid srcs d1 = Inr d'"
    by (auto split: sum.splits)
  have d1: "d1 = d\<lparr>fresh := fresh d + 1, tasks := tasks d @ [?t]\<rparr>"
    using insert_task_frame [OF ins] by simp
  have k1: "keys_ok d \<longrightarrow> keys_ok d1"
    using insert_task_keys [OF ins] by (simp add: keys_ok_def)
  from Cons.IH [OF rest] obtain ts where
    "d' = d1\<lparr>tasks := tasks d1 @ ts, fresh := fresh d1 + length srcs\<rparr>" and "map rt_source ts = srcs"
    and "list_all (initial_task now tn rid) ts" and "keys_ok d1 \<longrightarrow> keys_ok d'"
    by blast
  moreover have "initial_task now tn rid ?t" and "rt_source ?t = s"
    by (simp_all add: new_task_def initial_task_def)
  ultimately show ?case
    using d1 k1 by (intro exI [of _ "?t # ts"]) simp
qed

lemma enqueue_outbox_spec:
  assumes "enqueue_outbox uuid now tn agg ty pl d = Inr d'"
  shows "d' = d\<lparr>outbox := outbox d @ [\<lparr>ob_id = uuid (fresh d), ob_tenant_id = tn,
      ob_aggregate_id = agg, ob_event_type = ty, ob_payload = or_empty pl, ob_created_at = now,
      ob_published_at = None\<rparr>], fresh := fresh d + 1\<rparr>"
    and "keys_ok d \<Longrightarrow> keys_ok d'"
  using insert_outbox_frame [OF assms [unfolded enqueue_outbox_def]]
    insert_outbox_keys [OF assms [unfolded enqueue_outbox_def]]
  by (simp_all add: keys_ok_def)

lemma enqueue_ready_spec:
  assumes "enqueue_ready uuid now tn rid ts d = Inr d'"
    and "list_all (initial_task now tn rid) ts"
  shows "\<exists>es. d' = d\<lparr>outbox := outbox d @ es, fresh := fresh d + length ts\<rparr> \<and>
     list_all2 (ready_event now) ts es \<and> (keys_ok d \<longrightarrow> keys_ok d')"
  using assms
proof (induction ts arbitrary: d)
  case Nil
  then show ?case by simp
next
  case (Cons t ts)
  let ?pl = "Some (JObj [(''task_id'', JStr (rt_id t)), (''request_id'', JStr rid),
                          (''source'', JStr (rt_source t))])"
  from Cons.prems obtain d1 where one:
      "enqueue_outbox uuid now tn (rt_id t) ''privacy_task.ready'' ?pl d = Inr d1"
    and rest: "enqueue_ready uuid now tn rid ts d1 = Inr d'"
    by (auto split: sum.splits)
  from Cons.IH [OF rest] Cons.prems(2) obtain es where
    es: "d' = d1\<lparr>outbox := outbox d1 @ es, fresh := fresh d1 + length ts\<rparr>"
    "list_all2 (ready_event now) ts es" "keys_ok d1 \<longrightarrow> keys_ok d'"
    by auto
  let ?e = "\<lparr>ob_id = uuid (fresh d), ob_tenant_id = tn, ob_aggregate_id = rt_id t,
      ob_event_type = ''privacy_task.ready'', ob_payload = or_empty ?pl, ob_created_at = now,
      ob_published_at = None\<rparr>"
  have "ready_event now t ?e"
    using Cons.prems(2) by (simp add: ready_event_def initial_task_def or_empty_def)
  with es enqueue_outbox_spec [OF one] show ?case
    by (intro exI [of _ "?e # es"]) simp
qed

lemma append_audit_keys:
  "append_audit sha256 uuid now t r act pl d = Inr d' \<Longrightarrow> keys_ok d \<Longrightarrow> keys_ok d'"
  unfolding append_audit_def using insert_audit_keys by (fastforce simp: keys_ok_def)

text \<open>The rows of a successful intake, in one statement.\<close>

lemma create_rows_spec:
  assumes "create_rows sha256 uuid now tn key c d = Inr d'"
  shows "\<exists>ts es a n. d' = d\<lparr>requests := requests d @ [new_request sha256 uuid now tn key c d],
       tasks := tasks d @ ts, outbox := outbox d @ es, audit := audit d @ [a], fresh := n\<rparr> \<and>
     map rt_source ts = c_sources c \<and> list_all (initial_task now tn (uuid (fresh d))) ts \<and>
     (\<exists>e0 es'. es = e0 # es' \<and> ob_event_type e0 = ''privacy_request.created'' \<and>
        ob_aggregate_id e0 = uuid (fresh d) \<and> ob_tenant_id e0 = tn \<and> ob_published_at e0 = None \<and>
        ob_payload e0 = created_payload (new_request sha256 uuid now tn key c d) \<and>
        list_all2 (ready_event now) ts es') \<and>
     au_tenant_id a = tn \<and> au_request_id a = uuid (fresh d) \<and> au_action a = ''request.created'' \<and>
     (keys_ok d \<longrightarrow> keys_ok d') \<and>
     (\<forall>u. verify_audit_chain sha256 d u \<longrightarrow> verify_audit_chain sha256 d' u)"
proof -
  let ?r = "new_request sha256 uuid now tn key c d"
  have rid: "pr_id ?r = uuid (fresh d)" by (simp add: new_request_def)
  from assms obtain d1 d2 d3 d4 where
    1: "insert_request ?r (d\<lparr>fresh := fresh d + 1\<rparr>) = Inr d1" and
    2: "insert_tasks uuid now tn (pr_id ?r) (c_sources c) d1 = Inr d2" and
    3: "enqueue_outbox uuid now tn (pr_id ?r) ''privacy_request.created''
          (Some (created_payload ?r)) d2 = Inr d3" and
    4: "enqueue_ready uuid now tn (pr_id ?r) (drop (length (tasks d1)) (tasks d2)) d3 = Inr d4" and
    5: "append_audit sha256 uuid now tn (pr_id ?r) ''request.created''
          (Some (created_payload ?r)) d4 = Inr d'"
    by (auto simp: create_rows_def Let_def split: sum.splits)
  from insert_tasks_spec [OF 2] obtain ts where
    ts: "d2 = d1\<lparr>tasks := tasks d1 @ ts, fresh := fresh d1 + length (c_sources c)\<rparr>"
      "map rt_source ts = c_sources c" "list_all (initial_task now tn (pr_id ?r)) ts"
      "keys_ok d1 \<longrightarrow> keys_ok d2" by blast
  have "drop (length (tasks d1)) (tasks d2) = ts" by (simp add: ts(1))
  with enqueue_ready_spec [OF 4] ts(3) obtain es' where
    es: "d4 = d3\<lparr>outbox := outbox d3 @ es', fresh := fresh d3 + length ts\<rparr>"
      "list_all2 (ready_event now) ts es'" "keys_ok d3 \<longrightarrow> keys_ok d4" by auto
  note e0 = enqueue_outbox_spec [OF 3]
  note f1 = insert_request_frame [OF 1]
  have k1: "keys_ok d \<longrightarrow> keys_ok d1" using insert_request_keys [OF 1] by (simp add: keys_ok_def)
  note a = append_audit_eq [OF 5]
  have kk: "keys_ok d \<longrightarrow> keys_ok d'"
    using k1 ts(4) e0(2) es(3) append_audit_keys [OF 5] by blast
  have "audit d4 = audit d" by (simp add: es(1) e0(1) ts(1) f1)
  then have same: "verify_audit_chain sha256 d u = verify_audit_chain sha256 d4 u" for u
    by (simp add: verify_audit_chain_def tenant_events_def)
  then have vv: "\<forall>u. verify_audit_chain sha256 d u \<longrightarrow> verify_audit_chain sha256 d' u"
    using append_audit_verified [OF 5] by blast
  let ?e0 = "\<lparr>ob_id = uuid (fresh d2), ob_tenant_id = tn, ob_aggregate_id = pr_id ?r,
    ob_event_type = ''privacy_request.created'', ob_payload = created_payload ?r,
    ob_created_at = now, ob_published_at = None\<rparr>"
  let ?a = "audit_row sha256 uuid now tn (pr_id ?r) ''request.created'' (Some (created_payload ?r)) d4"
  show ?thesis
    using kk vv ts(2,3) es(2)
    by (intro exI [of _ ts] exI [of _ "?e0 # es'"] exI [of _ ?a] exI [of _ "fresh d'"])
       (simp add: a es(1) e0(1) ts(1) f1 rid or_empty_def)
qed

lemma insert_tasks_error: "insert_tasks uuid now tn rid srcs d = Inl e \<Longrightarrow> e = IntegrityError"
  by (induction srcs arbitrary: d) (auto split: sum.splits dest: task_pk.insert_error)

lemma enqueue_outbox_error: "enqueue_outbox uuid now tn agg ty pl d = Inl e \<Longrightarrow> e = IntegrityError"
  by (auto simp: enqueue_outbox_def dest: outbox_pk.insert_error)

lemma enqueue_ready_error: "enqueue_ready uuid now tn rid ts d = Inl e \<Longrightarrow> e = IntegrityError"
  by (induction ts arbitrary: d) (auto split: sum.splits dest: enqueue_outbox_error)

lemma create_rows_error: "create_rows sha256 uuid now tn key c d = Inl e \<Longrightarrow> e = IntegrityError"
  by (auto simp: create_rows_def Let_def split: sum.splits dest: request_pk.insert_error
      insert_tasks_error enqueue_outbox_error enqueue_ready_error append_audit_error(1))

lemma create_rows_refuses_key:
  assumes "(tn, key) \<in> idem_key ` set (requests d)"
  shows "create_rows sha256 uuid now tn key c d = Inl IntegrityError"
proof -
  have "idem_key (new_request sha256 uuid now tn key c d) = (tn, key)"
    by (simp add: new_request_def idem_key_def)
  with assms show ?thesis by (simp add: create_rows_def insert_request_def Let_def)
qed

section \<open>The intake as a whole\<close>

lemma create_replay:
  assumes "keys_ok d" and "r \<in> set (requests d)"
    and "pr_tenant_id r = tn" and "pr_idempotency_key r = key"
  shows "create_privacy_request_racing sha256 uuid now tn key c d d' = (existing_result sha256 r c, d')"
  using find_by_idempotency_Some [OF assms(1,2)] assms(3,4)
  by (simp add: create_privacy_request_racing_def)

lemma create_raced:
  assumes "keys_ok d" and "find_by_idempotency d0 tn key = Inr None" and "r \<in> set (requests d)"
    and "pr_tenant_id r = tn" and "pr_idempotency_key r = key"
  shows "create_privacy_request_racing sha256 uuid now tn key c d0 d = (existing_result sha256 r c, d)"
proof -
  have "(tn, key) \<in> idem_key ` set (requests d)"
    using assms(3-5) by (auto simp: idem_key_def image_iff)
  then have "create_rows sha256 uuid now tn key c d = Inl IntegrityError"
    by (rule create_rows_refuses_key)
  with find_by_idempotency_Some [OF assms(1,3)] assms(2,4,5) show ?thesis
    by (simp add: create_privacy_request_racing_def)
qed

lemma create_fresh:
  assumes "keys_ok d" and "find_by_idempotency d0 tn key = Inr None"
    and "create_rows sha256 uuid now tn key c d = Inr d1"
  shows "create_privacy_request_racing sha256 uuid now tn key c d0 d =
    (Inr (Some (new_request sha256 uuid now tn key c d), True),
     d1\<lparr>m_request_created := m_request_created d1 @ [c_kind c]\<rparr>)"
proof -
  let ?r = "new_request sha256 uuid now tn key c d"
  let ?d2 = "d1\<lparr>m_request_created := m_request_created d1 @ [c_kind c]\<rparr>"
  from create_rows_spec [OF assms(3)] assms(1)
  have "keys_ok d1" and req: "requests d1 = requests d @ [?r]" by fastforce+
  then have k2: "keys_ok ?d2" by (simp add: keys_ok_def)
  have "?r \<in> set (requests ?d2)" by (simp add: req)
  from get_privacy_request_Some [OF k2 this]
  have "get_privacy_request ?d2 tn (uuid (fresh d)) = Inr (Some ?r)"
    by (simp add: new_request_def)
  with assms(2,3) show ?thesis by (simp add: create_privacy_request_racing_def Let_def)
qed

text \<open>The three ways an intake can end.\<close>

lemma create_cases:
  assumes "keys_ok d0" and "keys_ok d"
    and "create_privacy_request_racing sha256 uuid now tn key c d0 d = (res, d')"
  obtains (existing) r where "pr_tenant_id r = tn" "pr_idempotency_key r = key"
            "r \<in> set (requests d0) \<or> r \<in> set (requests d)"
            "res = existing_result sha256 r c" "d' = d"
        | (refused) "res = Inl IntegrityError" "d' = d"
        | (created) d1 where "create_rows sha256 uuid now tn key c d = Inr d1"
            "d' = d1\<lparr>m_request_created := m_request_created d1 @ [c_kind c]\<rparr>"
            "res = Inr (Some (new_request sha256 uuid now tn key c d), True)"
proof -
  have key_of: "find (\<lambda>r. idem_key r = (tn, key)) (requests x) = Some r \<Longrightarrow>
      r \<in> set (requests x) \<and> pr_tenant_id r = tn \<and> pr_idempotency_key r = key" for x r
    by (auto simp: find_Some_iff idem_key_def)
  show thesis
  proof (cases "find (\<lambda>r. idem_key r = (tn, key)) (requests d0)")
    case (Some r)
    with assms key_of [OF Some] show thesis
      by (intro existing [of r])
         (auto simp: create_privacy_request_racing_def find_by_idempotency_eq)
  next
    case None
    show thesis
    proof (cases "create_rows sha256 uuid now tn key c d")
      case (Inl e)
      then have e: "e = IntegrityError" by (rule create_rows_error)
      show thesis
      proof (cases "find (\<lambda>r. idem_key r = (tn, key)) (requests d)")
        case None': None
        with None Inl e assms show thesis
          by (intro refused) (auto simp: create_privacy_request_racing_def find_by_idempotency_eq)
      next
        case (Some r)
        with None Inl e assms key_of [OF Some] show thesis
          by (intro existing [of r])
             (auto simp: create_privacy_request_racing_def find_by_idempotency_eq)
      qed
    next
      case (Inr d1)
      with None create_fresh [OF assms(2) _ Inr, of d0] assms(1,3) show thesis
        by (intro created [of d1]) (auto simp: find_by_idempotency_eq)
    qed
  qed
qed
section \<open>Listing\<close>

lemma list_privacy_requests_tenant:
  "r \<in> set (list_privacy_requests d t st limit offset) \<Longrightarrow>
     r \<in> set (requests d) \<and> pr_tenant_id r = t \<and> (\<forall>s. st = Some s \<longrightarrow> pr_status r = s)"
  by (auto simp: list_privacy_requests_def dest!: in_set_takeD in_set_dropD split: option.splits)

lemma list_privacy_requests_page:
  "list_privacy_requests d t st n off @ list_privacy_requests d t st m (off + n) =
   list_privacy_requests d t st (n + m) off"
  by (simp add: list_privacy_requests_def take_add drop_drop add.commute [of off n])

end
