(* ===== verification/Records.thy ===== *)
theory Records
  imports Requests
begin

text \<open>
  \<open>services/records.py\<close>: the synthetic source records. Seeding inserts the same number of rows
  in each source, in one transaction; clearing removes the rows of one tenant.
\<close>

definition seed_payload :: "string \<Rightarrow> nat \<Rightarrow> json" where
  "seed_payload source sequence =
     JObj [(''source'', JStr source), (''sequence'', JInt (int sequence)),
           (''device_ref'', JStr (''device-'' @ zero_padded 3 (sequence mod 8))),
           (''region'', JStr ''eu-central'')]"

fun insert_seed_rows ::
    "uuid_stream \<Rightarrow> time \<Rightarrow> string \<Rightarrow> string \<Rightarrow> (string \<times> nat) list \<Rightarrow> cloud \<Rightarrow> error + cloud" where
  "insert_seed_rows uuid now tenant_id subject_hash [] d = Inr d"
| "insert_seed_rows uuid now tenant_id subject_hash ((source, sequence) # rest) d =
     (case insert_record
             \<lparr>dr_id = uuid (fresh d), dr_tenant_id = tenant_id, dr_subject_key_hash = subject_hash,
              dr_source = source, dr_payload = seed_payload source sequence,
              dr_deleted_at = None, dr_created_at = now\<rparr>
             (d\<lparr>fresh := fresh d + 1\<rparr>) of
        Inl e \<Rightarrow> Inl e
      | Inr d' \<Rightarrow> insert_seed_rows uuid now tenant_id subject_hash rest d')"

definition seed_plan :: "nat \<Rightarrow> (string \<times> nat) list" where
  "seed_plan n = concat (map (\<lambda>source. map (\<lambda>sequence. (source, sequence)) [0..<n]) (sort allowed_sources))"

definition seed_records ::
    "digest_fn \<Rightarrow> uuid_stream \<Rightarrow> time \<Rightarrow> string \<Rightarrow> seed_records_request \<Rightarrow> cloud \<Rightarrow> (error + nat) \<times> cloud" where
  "seed_records sha256 uuid now tenant_id command d =
     (let rows = seed_plan (s_records_per_source command) in
      case insert_seed_rows uuid now tenant_id (hash_subject sha256 (s_subject_key command)) rows d of
        Inl e \<Rightarrow> (Inl e, d)
      | Inr d' \<Rightarrow> (Inr (length rows), d'))"

definition clear_seed_records :: "string \<Rightarrow> cloud \<Rightarrow> nat \<times> cloud" where
  "clear_seed_records tenant_id d =
     (length (filter (\<lambda>r. dr_tenant_id r = tenant_id) (records d)),
      d\<lparr>records := filter (\<lambda>r. dr_tenant_id r \<noteq> tenant_id) (records d)\<rparr>)"

section \<open>Lemmas\<close>

definition seeded_row :: "time \<Rightarrow> string \<Rightarrow> string \<Rightarrow> string \<times> nat \<Rightarrow> device_cloud_record \<Rightarrow> bool" where
  "seeded_row now tenant_id subject_hash p r \<longleftrightarrow>
     dr_tenant_id r = tenant_id \<and> dr_subject_key_hash r = subject_hash \<and> dr_source r = fst p \<and>
     dr_payload r = seed_payload (fst p) (snd p) \<and> dr_deleted_at r = None \<and> dr_created_at r = now"

lemma insert_seed_rows_spec:
  assumes "insert_seed_rows uuid now tn sh ps d = Inr d'"
  shows "\<exists>rs. d' = d\<lparr>records := records d @ rs, fresh := fresh d + length ps\<rparr> \<and>
     list_all2 (seeded_row now tn sh) ps rs \<and> (keys_ok d \<longrightarrow> keys_ok d')"
  using assms
proof (induction ps arbitrary: d)
  case Nil
  then show ?case by simp
next
  case (Cons p ps)
  obtain s q where p: "p = (s, q)" by (cases p)
  let ?r = "\<lparr>dr_id = uuid (fresh d), dr_tenant_id = tn, dr_subject_key_hash = sh, dr_source = s,
      dr_payload = seed_payload s q, dr_deleted_at = None, dr_created_at = now\<rparr>"
  from Cons.prems p obtain d1 where ins: "insert_record ?r (d\<lparr>fresh := fresh d + 1\<rparr>) = Inr d1"
    and rest: "insert_seed_rows uuid now tn sh ps d1 = Inr d'"
    by (auto split: sum.splits)
  have k1: "keys_ok d \<longrightarrow> keys_ok d1"
    using insert_record_keys [OF ins] by (simp add: keys_ok_def)
  from Cons.IH [OF rest] obtain rs where
    "d' = d1\<lparr>records := records d1 @ rs, fresh := fresh d1 + length ps\<rparr>"
    and "list_all2 (seeded_row now tn sh) ps rs" and "keys_ok d1 \<longrightarrow> keys_ok d'"
    by blast
  moreover have "seeded_row now tn sh p ?r" by (simp add: seeded_row_def p)
  ultimately show ?case
    using insert_record_frame [OF ins] k1 by (intro exI [of _ "?r # rs"]) simp
qed

lemma length_seed_plan: "length (seed_plan n) = 5 * n"
proof -
  have "length (sort allowed_sources) = 5" by (simp add: allowed_sources_def)
  then show ?thesis by (simp add: seed_plan_def length_concat o_def sum_list_triv)
qed

lemma seed_plan_source: "(s, q) \<in> set (seed_plan n) \<longleftrightarrow> s \<in> set allowed_sources \<and> q < n"
  by (auto simp: seed_plan_def image_iff)

end
