(* ===== verification/Config.thy ===== *)
theory Config
  imports Prelude
begin

text \<open>
  \<open>config.py\<close>: the settings with the defaults of the class. The two durations that are floats in the
  class are kept in milliseconds.
\<close>

record settings =
  database_url :: string
  database_pool_size :: int
  database_max_overflow :: int
  database_pool_timeout_seconds :: int
  source_backend :: string
  regional_source_base_url :: string
  regional_source_token :: string
  redis_url :: string
  source_request_timeout_ms :: int
  source_admission_timeout_ms :: int
  max_task_attempts :: int
  api_key :: string
  webhook_secret :: string
  artifact_dir :: string
  worker_batch_size :: nat
  lease_seconds :: int
  queue_backend :: string
  artifact_backend :: string
  aws_region :: string
  aws_endpoint_url :: string
  sqs_queue_url :: string
  sqs_visibility_timeout_seconds :: int
  sqs_heartbeat_seconds :: int
  s3_bucket :: string
  s3_prefix :: string
  s3_kms_key_id :: string
  artifact_presign_seconds :: int

definition default_settings :: settings where
  "default_settings = \<lparr>database_url = ''sqlite+aiosqlite:///./privacy_cloud.db'', database_pool_size = 10,
     database_max_overflow = 20, database_pool_timeout_seconds = 10,
     source_backend = ''database'', regional_source_base_url = '''',
     regional_source_token = '''', redis_url = '''', source_request_timeout_ms = 10000,
     source_admission_timeout_ms = 30000, max_task_attempts = 5, api_key = ''dev-api-key'',
     webhook_secret = ''dev-webhook-secret'', artifact_dir = ''artifacts'',
     worker_batch_size = 32, lease_seconds = 60, queue_backend = ''local'',
     artifact_backend = ''local'', aws_region = ''eu-west-1'', aws_endpoint_url = '''',
     sqs_queue_url = '''', sqs_visibility_timeout_seconds = 60,
     sqs_heartbeat_seconds = 20, s3_bucket = '''', s3_prefix = ''privacy-artifacts'',
     s3_kms_key_id = '''', artifact_presign_seconds = 300\<rparr>"

end
