(* ===== verification/Artifacts.thy ===== *)
theory Artifacts
  imports Security Config
begin

text \<open>
  \<open>services/artifacts.py\<close>: the encoded document, the local store (a directory) and the S3 store.
  The file system is the map from a path's text to the file's bytes; the S3 client is an argument
  with a state of its own. \<open>artifact_store\<close> is what the worker relies on: after a successful
  \<open>put_json\<close> the object at the returned address holds the encoded document.
\<close>

section \<open>Encoding\<close>

definition encode_artifact :: "digest_fn \<Rightarrow> json \<Rightarrow> string \<times> string" where
  "encode_artifact sha256 document =
     (let content = utf8_encode (json_dumps False document) in (content, hexdigest sha256 content))"

record artifact_reference =
  ref_uri :: string
  ref_sha256 :: string

section \<open>Paths\<close>

text \<open>
  \<open>pathlib.PurePosixPath\<close>: a root (none, one slash, or exactly two) and the components, without
  the empty ones and the dots. Joining an absolute path discards the left operand.
\<close>

type_synonym path = "string \<times> string list"

fun split_on :: "char \<Rightarrow> string \<Rightarrow> string list" where
  "split_on c [] = [[]]"
| "split_on c (x # xs) =
     (if x = c then [] # split_on c xs
      else case split_on c xs of [] \<Rightarrow> [[x]] | p # ps \<Rightarrow> (x # p) # ps)"

definition path_root :: "string \<Rightarrow> string" where
  "path_root s =
     (if py_startswith s ''//'' \<and> \<not> py_startswith s ''///'' then ''//''
      else if py_startswith s ''/'' then ''/'' else '''')"

definition make_path :: "string \<Rightarrow> path" where
  "make_path s = (path_root s, filter (\<lambda>p. p \<noteq> [] \<and> p \<noteq> ''.'') (split_on CHR ''/'' s))"

definition join_path :: "path \<Rightarrow> string \<Rightarrow> path" where
  "join_path p s =
     (let q = make_path s in if fst q \<noteq> [] then q else (fst p, snd p @ snd q))"

definition path_text :: "path \<Rightarrow> string" where
  "path_text p = (if fst p = [] \<and> snd p = [] then ''.'' else fst p @ join ''/'' (snd p))"

text \<open>\<open>with_suffix\<close> on the last component.\<close>

definition name_with_suffix :: "string \<Rightarrow> string \<Rightarrow> string" where
  "name_with_suffix name suf =
     (let stem = rev (tl (dropWhile (\<lambda>c. c \<noteq> CHR ''.'') (rev name))) in
      if CHR ''.'' \<in> set name \<and> stem \<noteq> [] \<and> last name \<noteq> CHR ''.'' then stem @ suf
      else name @ suf)"

definition path_with_suffix :: "path \<Rightarrow> string \<Rightarrow> path" where
  "path_with_suffix p suf = (fst p, butlast (snd p) @ [name_with_suffix (last (snd p)) suf])"

section \<open>The local store\<close>

type_synonym file_system = "string \<rightharpoonup> string"

definition local_path :: "string \<Rightarrow> string \<Rightarrow> string \<Rightarrow> path" where
  "local_path root tenant_id request_id =
     join_path (join_path (make_path root) tenant_id) (request_id @ ''.json'')"

text \<open>The document is written beside its final place and then moved there.\<close>

definition local_put_json ::
    "digest_fn \<Rightarrow> string \<Rightarrow> string \<Rightarrow> string \<Rightarrow> json \<Rightarrow> file_system
       \<Rightarrow> (error + artifact_reference) \<times> file_system" where
  "local_put_json sha256 root tenant_id request_id document fs =
     (let (content, digest) = encode_artifact sha256 document;
          path = local_path root tenant_id request_id;
          temporary = path_with_suffix path ''.tmp'';
          written = fs(path_text temporary \<mapsto> content);
          moved = (written(path_text temporary := None))(path_text path := written (path_text temporary))
      in (Inr \<lparr>ref_uri = path_text path, ref_sha256 = digest\<rparr>, moved))"

definition local_presign_get :: "string \<Rightarrow> int \<Rightarrow> string option" where
  "local_presign_get uri expires_seconds = None"

section \<open>The S3 store\<close>

text \<open>The arguments of \<open>put_object\<close> as the store passes them.\<close>

record s3_put =
  put_Bucket :: string
  put_Key :: string
  put_Body :: string
  put_ContentType :: string
  put_ServerSideEncryption :: string
  put_SSEKMSKeyId :: string
  put_Metadata :: "(string \<times> string) list"

record 's s3_client =
  put_object :: "s3_put \<Rightarrow> 's \<Rightarrow> (error + unit) \<times> 's"
  generate_presigned_url :: "string \<Rightarrow> string \<Rightarrow> int \<Rightarrow> 's \<Rightarrow> error + string"

record s3_store =
  s3_store_bucket :: string
  s3_store_kms_key_id :: string
  s3_store_key_prefix :: string

definition make_s3_store :: "string \<Rightarrow> string \<Rightarrow> string \<Rightarrow> error + s3_store" where
  "make_s3_store bucket kms_key_id key_prefix =
     (if bucket = [] \<or> kms_key_id = [] then Inl (ValueError ''S3 bucket and KMS key ID are required'')
      else Inr \<lparr>s3_store_bucket = bucket, s3_store_kms_key_id = kms_key_id,
                 s3_store_key_prefix = strip_char CHR ''/'' key_prefix\<rparr>)"

definition s3_key :: "s3_store \<Rightarrow> string \<Rightarrow> string \<Rightarrow> string" where
  "s3_key store tenant_id request_id =
     s3_store_key_prefix store @ ''/'' @ tenant_id @ ''/'' @ request_id @ ''.json''"

definition s3_put_json ::
    "'s s3_client \<Rightarrow> digest_fn \<Rightarrow> s3_store \<Rightarrow> string \<Rightarrow> string \<Rightarrow> json \<Rightarrow> 's
       \<Rightarrow> (error + artifact_reference) \<times> 's" where
  "s3_put_json client sha256 store tenant_id request_id document s =
     (let (content, digest) = encode_artifact sha256 document;
          key = s3_key store tenant_id request_id
      in case put_object client
             \<lparr>put_Bucket = s3_store_bucket store, put_Key = key, put_Body = content,
              put_ContentType = ''application/json'', put_ServerSideEncryption = ''aws:kms'',
              put_SSEKMSKeyId = s3_store_kms_key_id store, put_Metadata = [(''sha256'', digest)]\<rparr> s of
           (Inl e, s') \<Rightarrow> (Inl e, s')
         | (Inr _, s') \<Rightarrow>
             (Inr \<lparr>ref_uri = ''s3://'' @ s3_store_bucket store @ ''/'' @ key, ref_sha256 = digest\<rparr>, s'))"

definition s3_presign_get :: "'s s3_client \<Rightarrow> s3_store \<Rightarrow> string \<Rightarrow> int \<Rightarrow> 's \<Rightarrow> error + string option" where
  "s3_presign_get client store uri expires_seconds s =
     (let uri_prefix = ''s3://'' @ s3_store_bucket store @ ''/'' in
      if \<not> py_startswith uri uri_prefix
      then Inl (ValueError ''artifact URI does not belong to the configured bucket'')
      else let key = py_removeprefix uri uri_prefix in
           (case generate_presigned_url client (s3_store_bucket store) key expires_seconds s of
              Inl e \<Rightarrow> Inl e | Inr url \<Rightarrow> Inr (Some url)))"

section \<open>The configured store\<close>

datatype artifact_store_kind = LocalStore string | S3Store s3_store

definition build_artifact_store :: "settings \<Rightarrow> error + artifact_store_kind" where
  "build_artifact_store cfg =
     (if artifact_backend cfg = ''local'' then Inr (LocalStore (artifact_dir cfg))
      else if artifact_backend cfg \<noteq> ''s3''
      then Inl (ValueError (''unsupported artifact backend: '' @ artifact_backend cfg))
      else case make_s3_store (s3_bucket cfg) (s3_kms_key_id cfg) (s3_prefix cfg) of
             Inl e \<Rightarrow> Inl e | Inr store \<Rightarrow> Inr (S3Store store))"

record 's blobs =
  files :: file_system
  objects :: 's

text \<open>\<open>build_artifact_store(settings).put_json(...)\<close>.\<close>

definition put_json ::
    "'s s3_client \<Rightarrow> digest_fn \<Rightarrow> settings \<Rightarrow> string \<Rightarrow> string \<Rightarrow> json \<Rightarrow> 's blobs
       \<Rightarrow> (error + artifact_reference) \<times> 's blobs" where
  "put_json client sha256 cfg tenant_id request_id document b =
     (case build_artifact_store cfg of
        Inl e \<Rightarrow> (Inl e, b)
      | Inr (LocalStore root) \<Rightarrow>
          (let (res, fs) = local_put_json sha256 root tenant_id request_id document (files b)
           in (res, b\<lparr>files := fs\<rparr>))
      | Inr (S3Store store) \<Rightarrow>
          (let (res, s) = s3_put_json client sha256 store tenant_id request_id document (objects b)
           in (res, b\<lparr>objects := s\<rparr>)))"

section \<open>The interface the worker relies on\<close>

locale artifact_store =
  fixes put :: "string \<Rightarrow> string \<Rightarrow> json \<Rightarrow> 'st \<Rightarrow> (error + artifact_reference) \<times> 'st"
    and stored :: "'st \<Rightarrow> string \<Rightarrow> string option"
    and sha256 :: digest_fn
  assumes put_stored: "put t r doc st = (Inr ref, st') \<Longrightarrow>
      stored st' (ref_uri ref) = Some (fst (encode_artifact sha256 doc))"
    and put_digest: "put t r doc st = (Inr ref, st') \<Longrightarrow>
      ref_sha256 ref = snd (encode_artifact sha256 doc)"
    and put_address: "put t r doc st = (Inr ref, st') \<Longrightarrow> put t r doc' st2 = (Inr ref', st2') \<Longrightarrow>
      ref_uri ref' = ref_uri ref"
begin

text \<open>What is stored matches the digest of the reference.\<close>

lemma stored_digest:
  "put t r doc st = (Inr ref, st') \<Longrightarrow>
   (\<exists>bytes. stored st' (ref_uri ref) = Some bytes \<and> hexdigest sha256 bytes = ref_sha256 ref)"
  using put_stored [of t r doc st ref st'] put_digest [of t r doc st ref st']
  by (auto simp: encode_artifact_def Let_def)

text \<open>A second write for the same request replaces the first at the same address.\<close>

lemma put_again:
  assumes "put t r doc st = (Inr ref, st')" and "put t r doc' st' = (Inr ref', st'')"
  shows "stored st'' (ref_uri ref) = Some (fst (encode_artifact sha256 doc'))"
  using put_stored [OF assms(2)] put_address [OF assms] by simp

end

interpretation local_store: artifact_store "local_put_json sha256 root" "\<lambda>fs uri. fs uri" sha256
  for sha256 root
  by unfold_locales (auto simp: local_put_json_def Let_def split: prod.splits)

section \<open>Lemmas\<close>

lemma s3_uri_roundtrip:
  "py_removeprefix (''s3://'' @ b @ ''/'' @ key) (''s3://'' @ b @ ''/'') = key"
  using py_removeprefix_append [of "''s3://'' @ b @ ''/''" key] by simp

lemma s3_uri_prefix: "py_startswith (''s3://'' @ b @ ''/'' @ key) (''s3://'' @ b @ ''/'')"
  using py_startswith_append [of "''s3://'' @ b @ ''/''" key] by simp

end
