(* ===== verification/Source_Api.thy ===== *)
theory Source_Api
  imports Json Complex_Main
begin

text \<open>
  The values that pass between a worker and the executor of a regional source: the two frozen
  dataclasses at the head of \<open>services/source_connectors.py\<close>. A latency is a rational number of
  seconds.
\<close>

record source_operation =
  op_task_id :: string
  op_tenant_id :: string
  op_source :: string
  op_subject_key_hash :: string
  op_kind :: string

record source_receipt =
  rc_task_id :: string
  rc_succeeded :: bool
  rc_status_code :: int
  rc_latency_seconds :: rat
  rc_payload :: json

end
