(* ===== verification/Py_Time.thy ===== *)
theory Py_Time
  imports Py_Strings
begin

text \<open>
  \<open>datetime.isoformat()\<close> for a time in UTC, given as microseconds since the epoch: the proleptic
  Gregorian date, the time of day, the microseconds when they are not zero, and the offset.
\<close>

definition civil_from_days :: "int \<Rightarrow> int \<times> int \<times> int" where
  "civil_from_days days =
     (let z = days + 719468;
          era = z div 146097;
          doe = z - era * 146097;
          yoe = (doe - doe div 1460 + doe div 36524 - doe div 146096) div 365;
          doy = doe - (365 * yoe + yoe div 4 - yoe div 100);
          mp = (5 * doy + 2) div 153;
          day = doy - (153 * mp + 2) div 5 + 1;
          month = (if mp < 10 then mp + 3 else mp - 9);
          year = yoe + era * 400 + (if month \<le> 2 then 1 else 0)
      in (year, month, day))"

definition padded :: "nat \<Rightarrow> int \<Rightarrow> string" where
  "padded w n = zero_padded w (nat n)"

definition isoformat :: "int \<Rightarrow> string" where
  "isoformat t =
     (let us = t mod 1000000;
          secs = t div 1000000;
          (year, month, day) = civil_from_days (secs div 86400);
          sod = secs mod 86400
      in padded 4 year @ ''-'' @ padded 2 month @ ''-'' @ padded 2 day @ ''T'' @
         padded 2 (sod div 3600) @ '':'' @ padded 2 ((sod div 60) mod 60) @ '':'' @ padded 2 (sod mod 60) @
         (if us = 0 then [] else ''.'' @ padded 6 us) @ ''+00:00'')"

lemma isoformat_example: "isoformat 1786617000000000 = ''2026-08-13T10:30:00+00:00''"
  by code_simp

end
