(* ===== verification/Worker.thy ===== *)
theory Worker
  imports Records Artifacts Source_Api Py_Time
begin

text \<open>
  \<open>services/worker.py\<close>: leasing tasks, running one against its source, and deriving the state of
  the parent request. A transaction is a function on the state; an exception leaves the state of
  the last commit.

  \<open>execute_task\<close> reads the task, works on the source, and commits the outcome. The time between
  the read and the commit is long, so the commit is a function \<open>finish_task\<close> of its own: it gets
  the task and the request as the session read them and writes to the state it finds. The outcome
  is written by primary key, and only the attributes whose value differs from what was read are
  written (\<open>orm_set\<close>), as the session's flush does.
\<close>

section \<open>The environment of an operation\<close>

record 'st env =
  e_sha256 :: digest_fn
  e_uuid :: uuid_stream
  e_now :: time
  e_settings :: settings
  e_put_json :: "string \<Rightarrow> string \<Rightarrow> json \<Rightarrow> 'st \<Rightarrow> (error + artifact_reference) \<times> 'st"
  e_late_records :: "device_cloud_record list"
    \<comment> \<open>rows that other transactions commit between a deletion and its read-back\<close>

type_synonym executor = "source_operation \<Rightarrow> error + source_receipt"

section \<open>Leases\<close>

definition claimable :: "time \<Rightarrow> request_task \<Rightarrow> bool" where
  "claimable now t \<longleftrightarrow>
     rt_status t = T_PENDING \<or>
     (rt_status t = T_RUNNING \<and> (case rt_lease_expires_at t of None \<Rightarrow> False | Some l \<Rightarrow> l < now))"

definition lease_until :: "time \<Rightarrow> int \<Rightarrow> time" where
  "lease_until now seconds = now + seconds * 1000000"

definition lease_task :: "string \<Rightarrow> time \<Rightarrow> time \<Rightarrow> request_task \<Rightarrow> request_task" where
  "lease_task worker_id now until t =
     t\<lparr>rt_status := T_RUNNING, rt_attempt := rt_attempt t + 1, rt_lease_owner := Some worker_id,
       rt_lease_expires_at := Some until, rt_updated_at := now\<rparr>"

text \<open>\<open>UPDATE privacy_requests SET status = RUNNING WHERE id IN ids AND status = QUEUED\<close>.\<close>

definition start_requests :: "time \<Rightarrow> string list \<Rightarrow> cloud \<Rightarrow> cloud" where
  "start_requests now ids d =
     d\<lparr>requests := upd_where (\<lambda>r. pr_id r \<in> set ids \<and> pr_status r = QUEUED)
         (\<lambda>r. r\<lparr>pr_status := RUNNING, pr_updated_at := now\<rparr>) (requests d)\<rparr>"

text \<open>\<open>x or default\<close> for an optional number: zero is falsy.\<close>

definition or_default_nat :: "nat option \<Rightarrow> nat \<Rightarrow> nat" where
  "or_default_nat x y = (case x of None \<Rightarrow> y | Some n \<Rightarrow> if n = 0 then y else n)"

definition or_default_int :: "int option \<Rightarrow> int \<Rightarrow> int" where
  "or_default_int x y = (case x of None \<Rightarrow> y | Some n \<Rightarrow> if n = 0 then y else n)"

definition claim_candidates :: "time \<Rightarrow> string option \<Rightarrow> nat \<Rightarrow> (string \<Rightarrow> bool) \<Rightarrow> cloud \<Rightarrow> string list" where
  "claim_candidates now tenant_id batch_size locked d =
     map rt_id (take batch_size (sort_key rt_created_at
       (filter (\<lambda>t. claimable now t \<and> (case tenant_id of None \<Rightarrow> True | Some u \<Rightarrow> rt_tenant_id t = u)
                    \<and> \<not> locked (rt_id t)) (tasks d))))"

text \<open>
  \<open>claim_tasks\<close>: PostgreSQL skips the rows that other transactions hold locked and returns the
  tasks in the order of the query; SQLite has no row locks and returns the updated rows in table
  order.
\<close>

definition claim_ids ::
    "dialect \<Rightarrow> (string \<Rightarrow> bool) \<Rightarrow> 'st env \<Rightarrow> string option \<Rightarrow> nat option \<Rightarrow> cloud \<Rightarrow> string list" where
  "claim_ids dialect locked env tenant_id batch_size d =
     claim_candidates (e_now env) tenant_id
       (or_default_nat batch_size (worker_batch_size (e_settings env)))
       (case dialect of PostgreSQL \<Rightarrow> locked | SQLite \<Rightarrow> (\<lambda>_. False)) d"

definition claim_tasks ::
    "dialect \<Rightarrow> (string \<Rightarrow> bool) \<Rightarrow> 'st env \<Rightarrow> string \<Rightarrow> string option \<Rightarrow> nat option \<Rightarrow> int option \<Rightarrow> cloud
       \<Rightarrow> string list \<times> cloud" where
  "claim_tasks dialect locked env worker_id tenant_id batch_size lease_secs d =
     (let secs = or_default_int lease_secs (lease_seconds (e_settings env));
          now = e_now env;
          until = lease_until now secs;
          ids = claim_ids dialect locked env tenant_id batch_size d;
          d1 = d\<lparr>tasks := upd_where (\<lambda>t. rt_id t \<in> set ids) (lease_task worker_id now until) (tasks d)\<rparr>;
          claimed = filter (\<lambda>t. rt_id t \<in> set ids) (tasks d);
          d2 = (if ids = [] then d1 else start_requests now (map rt_request_id claimed) d1)
      in (case dialect of PostgreSQL \<Rightarrow> ids | SQLite \<Rightarrow> map rt_id claimed, d2))"

section \<open>Work on the local source\<close>

definition active_record :: "request_task \<Rightarrow> privacy_request \<Rightarrow> device_cloud_record \<Rightarrow> bool" where
  "active_record task request r \<longleftrightarrow>
     dr_tenant_id r = rt_tenant_id task \<and> dr_subject_key_hash r = pr_subject_key_hash request \<and>
     dr_source r = rt_source task \<and> dr_deleted_at r = None"

definition active_records :: "cloud \<Rightarrow> request_task \<Rightarrow> privacy_request \<Rightarrow> device_cloud_record list" where
  "active_records d task request = filter (active_record task request) (records d)"

definition execute_access :: "cloud \<Rightarrow> request_task \<Rightarrow> privacy_request \<Rightarrow> json" where
  "execute_access d task request =
     (let rows = active_records d task request in
      JObj [(''record_count'', JInt (int (length rows))),
            (''records'', JArr (map (\<lambda>r. JObj [(''id'', JStr (dr_id r)), (''payload'', dr_payload r)]) rows)),
            (''verified'', JBool True)])"

definition execute_delete ::
    "'st env \<Rightarrow> cloud \<Rightarrow> request_task \<Rightarrow> privacy_request \<Rightarrow> (error + json) \<times> cloud" where
  "execute_delete env d task request =
     (let rows = active_records d task request;
          marked = upd_where (\<lambda>r. dr_id r \<in> set (map dr_id rows))
                     (\<lambda>r. r\<lparr>dr_deleted_at := Some (e_now env)\<rparr>) (records d);
          d1 = d\<lparr>records := marked @ e_late_records env\<rparr>;
          remaining = length (filter (active_record task request) (records d1))
      in (if 0 < remaining
          then Inl (RuntimeError (''reverse verification found '' @ str_of_nat remaining @ '' active records''))
          else Inr (JObj [(''deleted_count'', JInt (int (length rows))), (''remaining_count'', JInt 0),
                          (''verified'', JBool True)]),
          d1))"

section \<open>The state of the parent request\<close>

definition write_artifact ::
    "'st env \<Rightarrow> privacy_request \<Rightarrow> request_task list \<Rightarrow> 'st \<Rightarrow> (error + string) \<times> 'st" where
  "write_artifact env request ts st =
     (let document =
        JObj [(''request_id'', JStr (pr_id request)), (''tenant_id'', JStr (pr_tenant_id request)),
              (''kind'', JStr (kind_value (pr_kind request))),
              (''policy_version'', JStr (pr_policy_version request)),
              (''sources'', JObj (map (\<lambda>t. (rt_source t, rt_result_summary t)) ts)),
              (''generated_at'', JStr (isoformat (e_now env)))]
      in case e_put_json env (pr_tenant_id request) (pr_id request) document st of
           (Inl e, st') \<Rightarrow> (Inl e, st')
         | (Inr reference, st') \<Rightarrow> (Inr (ref_uri reference), st'))"

definition derived_status :: "task_status set \<Rightarrow> request_status" where
  "derived_status statuses =
     (if statuses = {} \<or> statuses \<subseteq> {T_PENDING} then QUEUED
      else if T_PENDING \<in> statuses \<or> T_RUNNING \<in> statuses then RUNNING
      else if statuses = {T_SUCCEEDED} then COMPLETED
      else if statuses = {T_FAILED} then FAILED
      else PARTIAL)"

definition terminal_status :: "request_status \<Rightarrow> bool" where
  "terminal_status s \<longleftrightarrow> s \<in> {COMPLETED, PARTIAL, FAILED}"

definition count_status :: "task_status \<Rightarrow> request_task list \<Rightarrow> int" where
  "count_status s ts = int (length (filter (\<lambda>t. rt_status t = s) ts))"

definition terminal_summary :: "request_status \<Rightarrow> request_task list \<Rightarrow> json" where
  "terminal_summary status ts =
     JObj [(''status'', JStr (status_value status)),
           (''succeeded'', JInt (count_status T_SUCCEEDED ts)),
           (''failed'', JInt (count_status T_FAILED ts))]"

text \<open>The outbox event and the audit event of a request that has just become terminal.\<close>

definition announce_terminal ::
    "'st env \<Rightarrow> privacy_request \<Rightarrow> request_status \<Rightarrow> request_task list \<Rightarrow> cloud \<Rightarrow> error + cloud" where
  "announce_terminal env request status ts d =
     (case enqueue_outbox (e_uuid env) (e_now env) (pr_tenant_id request) (pr_id request)
             (''privacy_request.'' @ status_value status) (Some (terminal_summary status ts)) d of
        Inl e \<Rightarrow> Inl e
      | Inr d' \<Rightarrow>
          (case append_audit (e_sha256 env) (e_uuid env) (e_now env) (pr_tenant_id request)
                 (pr_id request) (''request.'' @ status_value status)
                 (Some (terminal_summary status ts)) d' of
             Inl e \<Rightarrow> Inl e
           | Inr d'' \<Rightarrow> Inr (d''\<lparr>m_request_completed :=
                 m_request_completed d'' @ [(pr_kind request, status)]\<rparr>)))"

definition became_terminal :: "request_status \<Rightarrow> request_status \<Rightarrow> bool" where
  "became_terminal status previous_status \<longleftrightarrow>
     terminal_status status \<and> \<not> terminal_status previous_status"

definition needs_access_artifact :: "privacy_request \<Rightarrow> request_status \<Rightarrow> bool" where
  "needs_access_artifact request status \<longleftrightarrow>
     pr_kind request = ACCESS \<and> status \<in> {COMPLETED, PARTIAL} \<and> pr_artifact_path request = None"

text \<open>The attributes of the request that a refresh assigns.\<close>

definition refreshed ::
    "'st env \<Rightarrow> privacy_request \<Rightarrow> request_status \<Rightarrow> string option \<Rightarrow> privacy_request \<Rightarrow> privacy_request" where
  "refreshed env request status artifact r =
     r\<lparr>pr_status := status,
       pr_version := (if status \<noteq> pr_status request then pr_version r + 1 else pr_version r),
       pr_artifact_path := artifact,
       pr_updated_at := (if status \<noteq> pr_status request \<or> needs_access_artifact request status
                         then e_now env else pr_updated_at r)\<rparr>"

definition refresh_artifact ::
    "'st env \<Rightarrow> privacy_request \<Rightarrow> request_status \<Rightarrow> request_task list \<Rightarrow> 'st
       \<Rightarrow> (error + string option) \<times> 'st" where
  "refresh_artifact env request status ts st =
     (if needs_access_artifact request status
      then (case write_artifact env request ts st of
              (Inl e, st') \<Rightarrow> (Inl e, st')
            | (Inr uri, st') \<Rightarrow> (Inr (Some uri), st'))
      else (Inr (pr_artifact_path request), st))"

definition refresh_request_status ::
    "'st env \<Rightarrow> string \<Rightarrow> cloud \<Rightarrow> 'st \<Rightarrow> (error + request_status) \<times> cloud \<times> 'st" where
  "refresh_request_status env request_id d st =
     (case scalar_one (filter (\<lambda>r. pr_id r = request_id) (requests d)) of
        Inl e \<Rightarrow> (Inl e, d, st)
      | Inr request \<Rightarrow>
         (let ts = request_tasks d request_id;
              status = derived_status (set (map rt_status ts))
          in case refresh_artifact env request status ts st of
               (Inl e, st') \<Rightarrow> (Inl e, d, st')
             | (Inr artifact, st') \<Rightarrow>
                 (let d1 = d\<lparr>requests := upd_where (\<lambda>r. pr_id r = request_id)
                              (refreshed env request status artifact) (requests d)\<rparr>
                  in if became_terminal status (pr_status request)
                     then (case announce_terminal env request status ts d1 of
                             Inl e \<Rightarrow> (Inl e, d, st')
                           | Inr d2 \<Rightarrow> (Inr status, d2, st'))
                     else (Inr status, d1, st'))))"

section \<open>Running a task\<close>

definition orm_set :: "'a \<Rightarrow> 'a \<Rightarrow> 'a \<Rightarrow> 'a" where
  "orm_set loaded assigned current = (if assigned = loaded then current else assigned)"

definition load_task :: "cloud \<Rightarrow> string \<Rightarrow> string \<Rightarrow> error + request_task option" where
  "load_task d task_id worker_id =
     scalar_one_or_none (filter (\<lambda>t. rt_id t = task_id \<and> rt_status t = T_RUNNING \<and>
       rt_lease_owner t = Some worker_id) (tasks d))"

definition verifying :: "'st env \<Rightarrow> privacy_request \<Rightarrow> cloud \<Rightarrow> cloud" where
  "verifying env request d =
     (if pr_status request = VERIFYING then d
      else d\<lparr>requests := upd_where (\<lambda>r. pr_id r = pr_id request)
               (\<lambda>r. r\<lparr>pr_status := VERIFYING, pr_updated_at := e_now env\<rparr>) (requests d)\<rparr>)"

definition source_op :: "request_task \<Rightarrow> privacy_request \<Rightarrow> source_operation" where
  "source_op task request =
     \<lparr>op_task_id = rt_id task, op_tenant_id = rt_tenant_id task, op_source = rt_source task,
      op_subject_key_hash = pr_subject_key_hash request, op_kind = kind_value (pr_kind request)\<rparr>"

text \<open>The try block: the receipt's payload, or the exception the except clause catches.\<close>

definition run_source ::
    "'st env \<Rightarrow> executor option \<Rightarrow> request_task \<Rightarrow> privacy_request \<Rightarrow> cloud \<Rightarrow> (error + json) \<times> cloud" where
  "run_source env source_executor task request d =
     (case source_executor of
        Some execute \<Rightarrow>
          (let d1 = (if pr_kind request = DELETE then verifying env request d else d) in
           case execute (source_op task request) of
             Inl e \<Rightarrow> (Inl e, d1)
           | Inr receipt \<Rightarrow>
               (if \<not> rc_succeeded receipt
                then Inl (RuntimeError (''regional source returned HTTP '' @ str_of_int (rc_status_code receipt)))
                else Inr (rc_payload receipt), d1))
      | None \<Rightarrow>
          (if pr_kind request = ACCESS then (Inr (execute_access d task request), d)
           else execute_delete env (verifying env request d) task request))"

definition failed_status :: "'st env \<Rightarrow> executor option \<Rightarrow> request_task \<Rightarrow> task_status" where
  "failed_status env source_executor task =
     (if source_executor \<noteq> None \<and> rt_attempt task < max_task_attempts (e_settings env)
      then T_PENDING else T_FAILED)"

text \<open>What the row holds after the try statement, given what was loaded and what is there.\<close>

definition settle_task ::
    "'st env \<Rightarrow> executor option \<Rightarrow> request_task \<Rightarrow> error + json \<Rightarrow> request_task \<Rightarrow> request_task" where
  "settle_task env source_executor task outcome row =
     row\<lparr>rt_status := (case outcome of Inr _ \<Rightarrow> T_SUCCEEDED
                        | Inl _ \<Rightarrow> failed_status env source_executor task),
         rt_result_summary := (case outcome of
              Inr result \<Rightarrow> orm_set (rt_result_summary task) result (rt_result_summary row)
            | Inl _ \<Rightarrow> rt_result_summary row),
         rt_error := (case outcome of
              Inr _ \<Rightarrow> orm_set (rt_error task) None (rt_error row)
            | Inl e \<Rightarrow> orm_set (rt_error task) (Some (take 2000 (exn_text e))) (rt_error row)),
         rt_lease_owner := None, rt_lease_expires_at := None, rt_updated_at := e_now env\<rparr>"

definition task_action :: "task_status \<Rightarrow> string" where
  "task_action s =
     (if s = T_PENDING then ''task.retry_scheduled'' else ''task.'' @ task_status_value s)"

definition audit_payload :: "request_task \<Rightarrow> request_task \<Rightarrow> json" where
  "audit_payload task settled =
     JObj [(''source'', JStr (rt_source task)), (''attempt'', JInt (rt_attempt task)),
           (''error'', case rt_error settled of None \<Rightarrow> JNull | Some m \<Rightarrow> JStr m)]"

text \<open>
  \<open>execute_task\<close> from the moment the task is loaded: the try statement, the commit of its
  outcome, and the refresh of the parent. When the audit append fails the session is rolled back;
  the rows that other transactions added meanwhile stay.
\<close>

definition finish_task ::
    "'st env \<Rightarrow> executor option \<Rightarrow> request_task \<Rightarrow> privacy_request \<Rightarrow> cloud \<Rightarrow> 'st
       \<Rightarrow> (error + bool) \<times> cloud \<times> 'st" where
  "finish_task env source_executor task request d st =
     (let (outcome, d1) = run_source env source_executor task request d;
          settled = settle_task env source_executor task outcome task;
          d2 = d1\<lparr>tasks := upd_where (\<lambda>t. rt_id t = rt_id task)
                     (settle_task env source_executor task outcome) (tasks d1)\<rparr>;
          observed = (\<lambda>x. x\<lparr>m_task_duration := m_task_duration d @ [(rt_source task, pr_kind request)]\<rparr>)
      in case append_audit (e_sha256 env) (e_uuid env) (e_now env) (rt_tenant_id task)
                (rt_request_id task) (task_action (rt_status settled))
                (Some (audit_payload task settled)) (observed d2) of
           Inl e \<Rightarrow> (Inl e, observed (d\<lparr>records := records d @ drop (length (records d)) (records d1)\<rparr>), st)
         | Inr d3 \<Rightarrow>
             (case refresh_request_status env (rt_request_id task) d3 st of
                (Inl e, d4, st') \<Rightarrow> (Inl e, d4, st')
              | (Inr _, d4, st') \<Rightarrow> (Inr (rt_status settled = T_SUCCEEDED), d4, st')))"

text \<open>
  \<open>selectinload(RequestTask.request)\<close> leaves a task without its parent with \<open>None\<close>, and the
  first attribute access fails.
\<close>

definition execute_task ::
    "'st env \<Rightarrow> executor option \<Rightarrow> string \<Rightarrow> string \<Rightarrow> cloud \<Rightarrow> 'st \<Rightarrow> (error + bool) \<times> cloud \<times> 'st" where
  "execute_task env source_executor task_id worker_id d st =
     (case load_task d task_id worker_id of
        Inl e \<Rightarrow> (Inl e, d, st)
      | Inr None \<Rightarrow> (Inr False, d, st)
      | Inr (Some task) \<Rightarrow>
          (case find (\<lambda>r. pr_id r = rt_request_id task) (requests d) of
             None \<Rightarrow> (Inl (AttributeError ''kind''), d, st)
           | Some request \<Rightarrow> finish_task env source_executor task request d st))"

text \<open>
  One session runs the claimed tasks in turn; time passes and other transactions commit between
  them, so the k-th step of a pass has an environment of its own, the first one for the claim.
\<close>

fun execute_all ::
    "(nat \<Rightarrow> 'st env) \<Rightarrow> string \<Rightarrow> string list \<Rightarrow> nat \<Rightarrow> nat \<Rightarrow> cloud \<Rightarrow> 'st
       \<Rightarrow> (error + nat) \<times> cloud \<times> 'st" where
  "execute_all envs worker_id [] k succeeded d st = (Inr succeeded, d, st)"
| "execute_all envs worker_id (task_id # ids) k succeeded d st =
     (case execute_task (envs k) None task_id worker_id d st of
        (Inl e, d', st') \<Rightarrow> (Inl e, d', st')
      | (Inr ok, d', st') \<Rightarrow>
          execute_all envs worker_id ids (k + 1) (succeeded + (if ok then 1 else 0)) d' st')"

record pass_result =
  p_claimed :: nat
  p_succeeded :: nat
  p_failed :: nat

definition process_once ::
    "dialect \<Rightarrow> (string \<Rightarrow> bool) \<Rightarrow> (nat \<Rightarrow> 'st env) \<Rightarrow> string \<Rightarrow> string option \<Rightarrow> nat option \<Rightarrow> cloud \<Rightarrow> 'st
       \<Rightarrow> (error + pass_result) \<times> cloud \<times> 'st" where
  "process_once dialect locked envs worker_id tenant_id batch_size d st =
     (let (ids, d1) = claim_tasks dialect locked (envs 0) worker_id tenant_id batch_size None d in
      case execute_all envs worker_id ids 1 0 d1 st of
        (Inl e, d2, st') \<Rightarrow> (Inl e, d2, st')
      | (Inr succeeded, d2, st') \<Rightarrow>
          (Inr \<lparr>p_claimed = length ids, p_succeeded = succeeded, p_failed = length ids - succeeded\<rparr>,
           d2, st'))"

end
