(* ===== verification/Worker_Lemmas.thy ===== *)
theory Worker_Lemmas
  imports Worker
begin

text \<open>
  What the operations of \<open>Worker\<close> do to each table: which tasks a claim leases, what a deletion
  leaves active, how the parent's state follows from the tasks, and what a finished task changes.
\<close>

section \<open>Claims\<close>

lemma claim_candidates_sound:
  assumes "i \<in> set (claim_candidates now tn n locked d)"
  obtains t where "t \<in> set (tasks d)" "rt_id t = i" "claimable now t" "\<not> locked i"
    "\<And>u. tn = Some u \<Longrightarrow> rt_tenant_id t = u"
  using assms by (auto simp: claim_candidates_def dest!: in_set_takeD split: option.splits)

lemma length_claim_candidates: "length (claim_candidates now tn n locked d) \<le> n"
  by (simp add: claim_candidates_def)

lemma distinct_claim_candidates:
  assumes "distinct (map rt_id (tasks d))"
  shows "distinct (claim_candidates now tn n locked d)"
proof -
  let ?f = "filter (\<lambda>t. claimable now t \<and> (case tn of None \<Rightarrow> True | Some u \<Rightarrow> rt_tenant_id t = u)
                    \<and> \<not> locked (rt_id t)) (tasks d)"
  have "distinct (map rt_id ?f)" using assms by (rule distinct_map_filter)
  then have "distinct (map rt_id (sort_key rt_created_at ?f))"
    by (simp add: distinct_map)
  then show ?thesis by (simp add: claim_candidates_def take_map [symmetric])
qed

lemma claim_ids_sound:
  assumes "i \<in> set (claim_ids dialect locked env tn batch d)"
  obtains t where "t \<in> set (tasks d)" "rt_id t = i" "claimable (e_now env) t"
    "dialect = PostgreSQL \<Longrightarrow> \<not> locked i" "\<And>u. tn = Some u \<Longrightarrow> rt_tenant_id t = u"
  using assms unfolding claim_ids_def
  by (elim claim_candidates_sound) (auto split: dialect.splits)

lemma claim_ids_claimable:
  assumes "keys_ok d" and "t \<in> set (tasks d)" and "rt_id t \<in> set (claim_ids dialect locked env tn batch d)"
  shows "claimable (e_now env) t" and "\<And>u. tn = Some u \<Longrightarrow> rt_tenant_id t = u"
proof -
  from assms(3) obtain s where s: "s \<in> set (tasks d)" "rt_id s = rt_id t" "claimable (e_now env) s"
    "\<And>u. tn = Some u \<Longrightarrow> rt_tenant_id s = u"
    by (rule claim_ids_sound) blast
  then have "s = t" using assms(1,2) by (auto simp: keys_ok_def intro: key_inj)
  with s show "claimable (e_now env) t" and "\<And>u. tn = Some u \<Longrightarrow> rt_tenant_id t = u" by auto
qed

lemma set_claimed_rows:
  "set (map rt_id (filter (\<lambda>t. rt_id t \<in> set (claim_ids dialect locked env tn batch d)) (tasks d)))
     = set (claim_ids dialect locked env tn batch d)" (is "_ = set ?ids")
proof
  show "set ?ids \<subseteq> set (map rt_id (filter (\<lambda>t. rt_id t \<in> set ?ids) (tasks d)))"
  proof
    fix i assume i: "i \<in> set ?ids"
    then obtain t where "t \<in> set (tasks d)" "rt_id t = i" by (rule claim_ids_sound)
    with i show "i \<in> set (map rt_id (filter (\<lambda>t. rt_id t \<in> set ?ids) (tasks d)))" by auto
  qed
qed auto

lemma claim_tasks_fst:
  "set (fst (claim_tasks dialect locked env w tn batch secs d)) =
     set (claim_ids dialect locked env tn batch d)"
  using set_claimed_rows [of dialect locked env tn batch d]
  by (cases dialect) (simp_all add: claim_tasks_def Let_def)

lemma claim_tasks_tasks [simp]:
  "tasks (snd (claim_tasks dialect locked env w tn batch secs d)) =
     upd_where (\<lambda>t. rt_id t \<in> set (claim_ids dialect locked env tn batch d))
       (lease_task w (e_now env)
          (lease_until (e_now env) (or_default_int secs (lease_seconds (e_settings env))))) (tasks d)"
  by (simp add: claim_tasks_def Let_def start_requests_def)

lemma claim_tasks_frame [simp, frame_simps]:
  "outbox (snd (claim_tasks dialect locked env w tn batch secs d)) = outbox d"
  "audit (snd (claim_tasks dialect locked env w tn batch secs d)) = audit d"
  "records (snd (claim_tasks dialect locked env w tn batch secs d)) = records d"
  "fresh (snd (claim_tasks dialect locked env w tn batch secs d)) = fresh d"
  by (simp_all add: claim_tasks_def Let_def start_requests_def)

lemma lease_task_keys [simp]:
  "rt_id (lease_task w now until t) = rt_id t"
  "rt_request_id (lease_task w now until t) = rt_request_id t"
  "rt_tenant_id (lease_task w now until t) = rt_tenant_id t"
  "rt_source (lease_task w now until t) = rt_source t"
  "request_source (lease_task w now until t) = request_source t"
  "rt_status (lease_task w now until t) = T_RUNNING"
  "rt_lease_owner (lease_task w now until t) = Some w"
  "rt_lease_expires_at (lease_task w now until t) = Some until"
  "rt_attempt (lease_task w now until t) = rt_attempt t + 1"
  by (simp_all add: lease_task_def request_source_def)

lemma claim_tasks_requests:
  "requests (snd (claim_tasks dialect locked env w tn batch secs d)) =
     upd_where (\<lambda>r. pr_id r \<in> set (map rt_request_id (filter (\<lambda>t. rt_id t \<in>
         set (claim_ids dialect locked env tn batch d)) (tasks d))) \<and> pr_status r = QUEUED)
       (\<lambda>r. r\<lparr>pr_status := RUNNING, pr_updated_at := e_now env\<rparr>) (requests d)"
  by (auto simp: claim_tasks_def Let_def start_requests_def intro!: upd_where_none [symmetric])

lemma claim_tasks_keys:
  "keys_ok d \<Longrightarrow> keys_ok (snd (claim_tasks dialect locked env w tn batch secs d))"
  by (simp add: keys_ok_def claim_tasks_requests map_upd_where idem_key_def)

lemma claim_length:
  assumes "keys_ok d"
  shows "length (fst (claim_tasks dialect locked env w tn batch secs d))
           = length (claim_ids dialect locked env tn batch d)"
proof -
  let ?ids = "claim_ids dialect locked env tn batch d"
  have d1: "distinct ?ids"
    using assms by (simp add: claim_ids_def distinct_claim_candidates keys_ok_def)
  have d2: "distinct (map rt_id (filter (\<lambda>t. rt_id t \<in> set ?ids) (tasks d)))"
    using assms by (simp add: keys_ok_def distinct_map_filter)
  have "length (map rt_id (filter (\<lambda>t. rt_id t \<in> set ?ids) (tasks d))) = length ?ids"
    using distinct_card [OF d1] distinct_card [OF d2] set_claimed_rows [of dialect locked env tn batch d]
    by simp
  then show ?thesis by (cases dialect) (simp_all add: claim_tasks_def Let_def)
qed

lemma claim_length_le:
  "keys_ok d \<Longrightarrow> length (fst (claim_tasks dialect locked env w tn batch secs d))
     \<le> or_default_nat batch (worker_batch_size (e_settings env))"
  by (simp add: claim_length) (simp add: claim_ids_def length_claim_candidates)

section \<open>Deletion\<close>

lemma active_record_marked [simp]:
  "\<not> active_record task request (r\<lparr>dr_deleted_at := Some x\<rparr>)"
  by (simp add: active_record_def)

lemma filter_active_marked:
  "filter (active_record task request)
     (upd_where (\<lambda>r. dr_id r \<in> set (map dr_id (active_records d task request)))
        (\<lambda>r. r\<lparr>dr_deleted_at := Some now\<rparr>) (records d)) = []"
  by (auto simp: filter_empty_conv active_records_def elim!: upd_where_elim)

lemma execute_delete_result:
  "fst (execute_delete env d task request) =
     (if filter (active_record task request) (e_late_records env) = []
      then Inr (JObj [(''deleted_count'', JInt (int (length (active_records d task request)))),
             (''remaining_count'', JInt 0), (''verified'', JBool True)])
      else Inl (RuntimeError (''reverse verification found '' @
             str_of_nat (length (filter (active_record task request) (e_late_records env))) @
             '' active records'')))"
  by (simp add: execute_delete_def Let_def filter_active_marked [simplified])

lemma execute_delete_state:
  "snd (execute_delete env d task request) =
     d\<lparr>records := upd_where (\<lambda>r. dr_id r \<in> set (map dr_id (active_records d task request)))
          (\<lambda>r. r\<lparr>dr_deleted_at := Some (e_now env)\<rparr>) (records d) @ e_late_records env\<rparr>"
  by (simp add: execute_delete_def Let_def)

text \<open>The rows of other tenants, subjects and sources are not touched.\<close>

lemma execute_delete_scope:
  assumes "keys_ok d" and "r \<in> set (records d)"
    and "\<not> (dr_tenant_id r = rt_tenant_id task \<and> dr_subject_key_hash r = pr_subject_key_hash request
            \<and> dr_source r = rt_source task)"
  shows "r \<in> set (records (snd (execute_delete env d task request)))"
proof -
  have "dr_id r \<notin> set (map dr_id (active_records d task request))"
  proof
    assume "dr_id r \<in> set (map dr_id (active_records d task request))"
    then obtain s where "s \<in> set (records d)" "dr_id s = dr_id r" "active_record task request s"
      by (auto simp: active_records_def)
    moreover from this assms(1,2) have "s = r" by (auto simp: keys_ok_def intro: key_inj)
    ultimately show False using assms(3) by (auto simp: active_record_def)
  qed
  with assms(2) show ?thesis by (auto simp: execute_delete_state in_upd_where)
qed

section \<open>Refreshing the parent\<close>

lemma announce_terminal_spec:
  assumes "announce_terminal env r status ts d = Inr d'"
  shows "\<exists>e a n. d' = d\<lparr>outbox := outbox d @ [e], audit := audit d @ [a], fresh := n,
       m_request_completed := m_request_completed d @ [(pr_kind r, status)]\<rparr> \<and>
     ob_event_type e = ''privacy_request.'' @ status_value status \<and> ob_aggregate_id e = pr_id r \<and>
     ob_tenant_id e = pr_tenant_id r \<and> ob_payload e = terminal_summary status ts \<and>
     ob_published_at e = None \<and> ob_created_at e = e_now env \<and>
     au_action a = ''request.'' @ status_value status \<and> au_request_id a = pr_id r \<and>
     au_tenant_id a = pr_tenant_id r"
    and "keys_ok d \<Longrightarrow> keys_ok d'"
    and "verify_audit_chain (e_sha256 env) d u \<Longrightarrow> verify_audit_chain (e_sha256 env) d' u"
proof -
  from assms obtain d1 d2 where
    1: "enqueue_outbox (e_uuid env) (e_now env) (pr_tenant_id r) (pr_id r)
        (''privacy_request.'' @ status_value status) (Some (terminal_summary status ts)) d = Inr d1" and
    2: "append_audit (e_sha256 env) (e_uuid env) (e_now env) (pr_tenant_id r) (pr_id r)
        (''request.'' @ status_value status) (Some (terminal_summary status ts)) d1 = Inr d2" and
    3: "d' = d2\<lparr>m_request_completed := m_request_completed d2 @ [(pr_kind r, status)]\<rparr>"
    by (auto simp: announce_terminal_def split: sum.splits)
  note e = enqueue_outbox_spec [OF 1] and a = append_audit_eq [OF 2]
  show "\<exists>e a n. d' = d\<lparr>outbox := outbox d @ [e], audit := audit d @ [a], fresh := n,
       m_request_completed := m_request_completed d @ [(pr_kind r, status)]\<rparr> \<and>
     ob_event_type e = ''privacy_request.'' @ status_value status \<and> ob_aggregate_id e = pr_id r \<and>
     ob_tenant_id e = pr_tenant_id r \<and> ob_payload e = terminal_summary status ts \<and>
     ob_published_at e = None \<and> ob_created_at e = e_now env \<and>
     au_action a = ''request.'' @ status_value status \<and> au_request_id a = pr_id r \<and>
     au_tenant_id a = pr_tenant_id r"
    by (intro exI [of _ "\<lparr>ob_id = e_uuid env (fresh d), ob_tenant_id = pr_tenant_id r,
          ob_aggregate_id = pr_id r, ob_event_type = ''privacy_request.'' @ status_value status,
          ob_payload = terminal_summary status ts, ob_created_at = e_now env, ob_published_at = None\<rparr>"]
        exI [of _ "audit_row (e_sha256 env) (e_uuid env) (e_now env) (pr_tenant_id r) (pr_id r)
          (''request.'' @ status_value status) (Some (terminal_summary status ts)) d1"]
        exI [of _ "fresh d + 2"])
       (simp add: 3 a e(1) or_empty_def)
  show "keys_ok d \<Longrightarrow> keys_ok d'"
    using e(2) append_audit_keys [OF 2] by (simp add: 3 keys_ok_def)
  have "verify_audit_chain (e_sha256 env) d1 u = verify_audit_chain (e_sha256 env) d u" for u
    by (simp add: e(1) verify_audit_chain_def tenant_events_def)
  then show "verify_audit_chain (e_sha256 env) d u \<Longrightarrow> verify_audit_chain (e_sha256 env) d' u"
    using append_audit_verified [OF 2, of u]
    by (simp add: 3 verify_audit_chain_def tenant_events_def)
qed

lemma announce_terminal_error:
  "announce_terminal env r status ts d = Inl e \<Longrightarrow> e = IntegrityError"
  by (auto simp: announce_terminal_def split: sum.splits dest: enqueue_outbox_error append_audit_error(1))

lemma scalar_one_request:
  "keys_ok d \<Longrightarrow> r \<in> set (requests d) \<Longrightarrow>
   scalar_one (filter (\<lambda>s. pr_id s = pr_id r) (requests d)) = Inr r"
  by (simp add: keys_ok_def filter_key_singleton)

text \<open>The ways a refresh can end.\<close>

lemma refresh_cases:
  assumes "keys_ok d" and "r \<in> set (requests d)"
    and "refresh_request_status env (pr_id r) d st = (res, d', st')"
    and "status = derived_status (set (map rt_status (request_tasks d (pr_id r))))"
    and "d1 = (\<lambda>artifact. d\<lparr>requests := upd_where (\<lambda>s. pr_id s = pr_id r)
           (refreshed env r status artifact) (requests d)\<rparr>)"
  obtains (store_error) e where "refresh_artifact env r status (request_tasks d (pr_id r)) st = (Inl e, st')"
            "res = Inl e" "d' = d"
        | (refused) artifact where
            "refresh_artifact env r status (request_tasks d (pr_id r)) st = (Inr artifact, st')"
            "became_terminal status (pr_status r)" "res = Inl IntegrityError" "d' = d"
        | (terminal) artifact where
            "refresh_artifact env r status (request_tasks d (pr_id r)) st = (Inr artifact, st')"
            "became_terminal status (pr_status r)" "res = Inr status"
            "announce_terminal env r status (request_tasks d (pr_id r)) (d1 artifact) = Inr d'"
        | (plain) artifact where
            "refresh_artifact env r status (request_tasks d (pr_id r)) st = (Inr artifact, st')"
            "\<not> became_terminal status (pr_status r)" "res = Inr status" "d' = d1 artifact"
  using assms
  by (auto simp: refresh_request_status_def scalar_one_request Let_def
           split: prod.splits sum.splits if_splits dest: announce_terminal_error)

lemma refreshed_keys [simp]:
  "pr_id (refreshed env r status artifact s) = pr_id s"
  "pr_tenant_id (refreshed env r status artifact s) = pr_tenant_id s"
  "idem_key (refreshed env r status artifact s) = idem_key s"
  "pr_status (refreshed env r status artifact s) = status"
  "pr_kind (refreshed env r status artifact s) = pr_kind s"
  "pr_artifact_path (refreshed env r status artifact s) = artifact"
  "pr_requested_sources (refreshed env r status artifact s) = pr_requested_sources s"
  by (simp_all add: refreshed_def idem_key_def)

lemma refreshed_id:
  "refreshed env r (pr_status r) (pr_artifact_path r) r = r"
  if "\<not> needs_access_artifact r (pr_status r)"
  using that by (simp add: refreshed_def)

end
