(* ===== verification/Invariant.thy ===== *)
theory Invariant
  imports Worker_Lemmas
begin

text \<open>
  The invariant of the tables, and that every transaction of the intake and of the workers keeps
  it. \<open>core_ok\<close> is kept by every interleaving of transactions; \<open>status_ok\<close>, the agreement of a
  request's status with its tasks, is kept when no lease is taken over between the moment a worker
  reads a task and the moment it commits the outcome.
\<close>

section \<open>The invariant\<close>

text \<open>A running task, and only it, has a lease; whatever has run has been attempted.\<close>

definition task_ok :: "request_task \<Rightarrow> bool" where
  "task_ok t \<longleftrightarrow>
     (rt_status t = T_RUNNING \<longleftrightarrow> rt_lease_owner t \<noteq> None) \<and>
     (rt_lease_owner t = None \<longleftrightarrow> rt_lease_expires_at t = None) \<and>
     0 \<le> rt_attempt t \<and> (rt_status t \<noteq> T_PENDING \<longrightarrow> 1 \<le> rt_attempt t)"

text \<open>What never changes in a task and in a request.\<close>

definition task_frame :: "request_task \<Rightarrow> string \<times> string \<times> string \<times> string" where
  "task_frame t = (rt_id t, rt_request_id t, rt_tenant_id t, rt_source t)"

definition request_frame ::
    "privacy_request \<Rightarrow> string \<times> string \<times> string \<times> string \<times> request_kind \<times> string list" where
  "request_frame r = (pr_id r, pr_tenant_id r, pr_idempotency_key r, pr_subject_key_hash r, pr_kind r,
     pr_requested_sources r)"

text \<open>Every task belongs to a request of its tenant, and a request has one task per source.\<close>

definition parents_ok :: "cloud \<Rightarrow> bool" where
  "parents_ok d \<longleftrightarrow>
     (\<forall>t \<in> set (tasks d). \<exists>r \<in> set (requests d). pr_id r = rt_request_id t \<and> pr_tenant_id r = rt_tenant_id t) \<and>
     (\<forall>r \<in> set (requests d). map rt_source (request_tasks d (pr_id r)) = pr_requested_sources r)"

text \<open>Every task has been announced in the outbox.\<close>

definition ready_ok :: "cloud \<Rightarrow> bool" where
  "ready_ok d \<longleftrightarrow>
     (\<forall>t \<in> set (tasks d). \<exists>e \<in> set (outbox d). ob_event_type e = ''privacy_task.ready'' \<and>
        ob_aggregate_id e = rt_id t \<and> ob_tenant_id e = rt_tenant_id t)"

definition chains_ok :: "digest_fn \<Rightarrow> cloud \<Rightarrow> bool" where
  "chains_ok sha256 d \<longleftrightarrow> (\<forall>u. verify_audit_chain sha256 d u)"

definition core_ok :: "digest_fn \<Rightarrow> cloud \<Rightarrow> bool" where
  "core_ok sha256 d \<longleftrightarrow>
     keys_ok d \<and> list_all task_ok (tasks d) \<and> parents_ok d \<and> ready_ok d \<and> chains_ok sha256 d"

text \<open>The status of a request agrees with its tasks.\<close>

definition statuses :: "cloud \<Rightarrow> string \<Rightarrow> task_status set" where
  "statuses d i = set (map rt_status (request_tasks d i))"

definition status_agrees :: "cloud \<Rightarrow> privacy_request \<Rightarrow> bool" where
  "status_agrees d r \<longleftrightarrow>
     (terminal_status (pr_status r) \<longrightarrow> pr_status r = derived_status (statuses d (pr_id r))) \<and>
     (pr_status r = QUEUED \<longrightarrow> statuses d (pr_id r) \<subseteq> {T_PENDING})"

definition status_ok :: "cloud \<Rightarrow> bool" where
  "status_ok d \<longleftrightarrow> list_all (status_agrees d) (requests d)"

definition cloud_ok :: "digest_fn \<Rightarrow> cloud \<Rightarrow> bool" where
  "cloud_ok sha256 d \<longleftrightarrow> core_ok sha256 d \<and> status_ok d"

lemma core_ok_keys: "core_ok sha256 d \<Longrightarrow> keys_ok d"
  by (simp add: core_ok_def)

lemma cloud_ok_empty: "cloud_ok sha256 empty_cloud"
  by (simp add: cloud_ok_def core_ok_def keys_ok_empty parents_ok_def ready_ok_def chains_ok_def
      status_ok_def verify_audit_chain_def tenant_events_def)
     (simp add: empty_cloud_def)

section \<open>Derived status\<close>

lemma derived_QUEUED: "derived_status S = QUEUED \<longleftrightarrow> S \<subseteq> {T_PENDING}"
  by (auto simp: derived_status_def)

lemma terminal_derived:
  "terminal_status (derived_status S) \<longleftrightarrow> S \<noteq> {} \<and> S \<subseteq> {T_SUCCEEDED, T_FAILED}"
proof -
  have "x \<in> {T_SUCCEEDED, T_FAILED} \<longleftrightarrow> x \<noteq> T_PENDING \<and> x \<noteq> T_RUNNING" for x
    by (cases x) simp_all
  then have "S \<subseteq> {T_SUCCEEDED, T_FAILED} \<longleftrightarrow> T_PENDING \<notin> S \<and> T_RUNNING \<notin> S"
    by (simp only: subset_iff) blast
  then show ?thesis
    by (auto simp: derived_status_def terminal_status_def)
qed

lemma derived_not_VERIFYING: "derived_status S \<noteq> VERIFYING"
  by (simp add: derived_status_def)

lemma status_agrees_derived:
  "pr_status r = derived_status (statuses d (pr_id r)) \<Longrightarrow> status_agrees d r"
  by (simp add: status_agrees_def derived_QUEUED)

section \<open>The frame\<close>

lemma parents_ok_frame:
  "parents_ok d \<longleftrightarrow>
     (\<forall>(i, ri, tn, s) \<in> set (map task_frame (tasks d)).
        \<exists>(rid, rtn, rest) \<in> set (map request_frame (requests d)). rid = ri \<and> rtn = tn) \<and>
     (\<forall>(rid, rtn, k, sh, kd, srcs) \<in> set (map request_frame (requests d)).
        map (\<lambda>(i, ri, tn, s). s) (filter (\<lambda>(i, ri, tn, s). ri = rid) (map task_frame (tasks d))) = srcs)"
  by (simp add: parents_ok_def task_frame_def request_frame_def request_tasks_def filter_map o_def)

lemma parents_ok_same_frame:
  assumes "parents_ok d" and "map task_frame (tasks d') = map task_frame (tasks d)"
    and "map request_frame (requests d') = map request_frame (requests d)"
  shows "parents_ok d'"
  using assms(1) unfolding parents_ok_frame assms(2,3) .

lemma ready_ok_frame:
  "ready_ok d \<longleftrightarrow>
     (\<forall>(i, ri, tn, s) \<in> set (map task_frame (tasks d)). \<exists>e \<in> set (outbox d).
        ob_event_type e = ''privacy_task.ready'' \<and> ob_aggregate_id e = i \<and> ob_tenant_id e = tn)"
  by (simp add: ready_ok_def task_frame_def)

lemma ready_ok_same_frame:
  assumes "ready_ok d" and "map task_frame (tasks d') = map task_frame (tasks d)"
    and "set (outbox d) \<subseteq> set (outbox d')"
  shows "ready_ok d'"
  using assms(1,3) unfolding ready_ok_frame assms(2) by fast

lemma keys_frame:
  "distinct (map rt_id (tasks d)) \<and> distinct (map request_source (tasks d)) \<longleftrightarrow>
     distinct (map fst (map task_frame (tasks d))) \<and>
     distinct (map (\<lambda>(i, ri, tn, s). (ri, s)) (map task_frame (tasks d)))"
  by (simp add: task_frame_def request_source_def[abs_def] o_def)

lemma chains_ok_audit: "audit d' = audit d \<Longrightarrow> chains_ok sha256 d' = chains_ok sha256 d"
  by (simp add: chains_ok_def verify_audit_chain_def tenant_events_def)

lemma chains_ok_append:
  "append_audit sha256 uuid now t r act pl d = Inr d' \<Longrightarrow> chains_ok sha256 d \<Longrightarrow> chains_ok sha256 d'"
  by (simp add: chains_ok_def append_audit_verified)

lemma chains_hashes:
  assumes "chains_ok sha256 d"
  shows "list_all (\<lambda>a. event_envelope_hash sha256 a = au_event_hash a) (audit d)"
  unfolding list_all_iff
proof
  fix a assume "a \<in> set (audit d)"
  then have m: "a \<in> set (sort_key au_sequence (tenant_events d (au_tenant_id a)))" by (simp add: tenant_events_def)
  have "verify_loop sha256 zero_hash 1 (sort_key au_sequence (tenant_events d (au_tenant_id a)))"
    using assms by (simp add: chains_ok_def verify_audit_chain_def)
  then show "event_envelope_hash sha256 a = au_event_hash a" using m by (rule verify_loop_hash)
qed

lemma parent_of:
  "parents_ok d \<Longrightarrow> t \<in> set (tasks d) \<Longrightarrow>
   \<exists>r \<in> set (requests d). pr_id r = rt_request_id t \<and> pr_tenant_id r = rt_tenant_id t"
  by (simp add: parents_ok_def)

lemma in_request_tasks: "t \<in> set (request_tasks d i) \<longleftrightarrow> t \<in> set (tasks d) \<and> rt_request_id t = i"
  by (simp add: request_tasks_def)

lemma statuses_member: "s \<in> statuses d i \<longleftrightarrow> (\<exists>t \<in> set (tasks d). rt_request_id t = i \<and> rt_status t = s)"
  by (auto simp: statuses_def request_tasks_def)


text \<open>A transaction that keeps the frame, extends the outbox and keeps the keys, the leases and the
  chains keeps the core of the invariant.\<close>

lemma core_ok_step:
  assumes "core_ok sha256 d" and "keys_ok d'" and "list_all task_ok (tasks d')"
    and "map task_frame (tasks d') = map task_frame (tasks d)"
    and "map request_frame (requests d') = map request_frame (requests d)"
    and "set (outbox d) \<subseteq> set (outbox d')" and "chains_ok sha256 d'"
  shows "core_ok sha256 d'"
  using assms parents_ok_same_frame [of d d'] ready_ok_same_frame [of d d']
  by (simp add: core_ok_def)

lemma keys_ok_same:
  assumes "keys_ok d" and "map task_frame (tasks d') = map task_frame (tasks d)"
    and "map request_frame (requests d') = map request_frame (requests d)"
    and "outbox d' = outbox d" and "audit d' = audit d" and "distinct (map dr_id (records d'))"
  shows "keys_ok d'"
proof -
  have p: "map pr_id (requests x) = map fst (map request_frame (requests x))"
    "map idem_key (requests x) = map (\<lambda>(i, tn, k, rest). (tn, k)) (map request_frame (requests x))" for x
    by (simp_all add: request_frame_def idem_key_def[abs_def])
  have t: "map rt_id (tasks x) = map fst (map task_frame (tasks x))"
    "map request_source (tasks x) = map (\<lambda>(i, ri, tn, s). (ri, s)) (map task_frame (tasks x))" for x
    by (simp_all add: task_frame_def request_source_def[abs_def])
  show ?thesis
    using assms(1,4,5,6) unfolding keys_ok_def p t assms(2,3) by simp
qed

lemma map_frame_upd_tasks:
  "(\<And>t. P t \<Longrightarrow> task_frame (f t) = task_frame t) \<Longrightarrow> map task_frame (upd_where P f ts) = map task_frame ts"
  by (rule map_upd_where)

lemma map_frame_upd_requests:
  "(\<And>r. P r \<Longrightarrow> request_frame (f r) = request_frame r) \<Longrightarrow>
   map request_frame (upd_where P f rs) = map request_frame rs"
  by (rule map_upd_where)

lemma frame_updates [simp, frame_simps]:
  "task_frame (lease_task w now until t) = task_frame t"
  "task_frame (settle_task env ex task outcome t) = task_frame t"
  "request_frame (refreshed env r status artifact s) = request_frame s"
  "request_frame (s\<lparr>pr_status := x, pr_updated_at := y\<rparr>) = request_frame s"
  by (simp_all add: task_frame_def settle_task_def request_frame_def refreshed_def)

section \<open>The intake keeps the invariant\<close>

lemma initial_task_ok: "initial_task now tn i t \<Longrightarrow> task_ok t"
  by (simp add: initial_task_def task_ok_def)

lemma create_rows_fresh_id:
  assumes "create_rows sha256 uuid now tn key c d = Inr d'"
  shows "uuid (fresh d) \<notin> pr_id ` set (requests d)"
  using assms
  by (auto simp: create_rows_def insert_request_def new_request_def Let_def image_iff
      split: if_splits sum.splits)

lemma create_rows_core:
  assumes made: "create_rows sha256 uuid now tn key c d = Inr d'" and ok: "core_ok sha256 d"
  shows "core_ok sha256 d'"
proof -
  let ?r = "new_request sha256 uuid now tn key c d"
  from create_rows_spec [OF made] obtain ts es a n where
    d': "d' = d\<lparr>requests := requests d @ [?r], tasks := tasks d @ ts, outbox := outbox d @ es,
       audit := audit d @ [a], fresh := n\<rparr>" and
    src: "map rt_source ts = c_sources c" and ini: "list_all (initial_task now tn (uuid (fresh d))) ts" and
    ev: "\<exists>e0 es'. es = e0 # es' \<and> list_all2 (ready_event now) ts es'" and
    ks: "keys_ok d \<longrightarrow> keys_ok d'" and
    vs: "\<forall>u. verify_audit_chain sha256 d u \<longrightarrow> verify_audit_chain sha256 d' u"
    by blast
  have r: "pr_id ?r = uuid (fresh d)" "pr_tenant_id ?r = tn" "pr_requested_sources ?r = c_sources c"
    by (simp_all add: new_request_def)
  have no_task: "filter (\<lambda>t. rt_request_id t = uuid (fresh d)) (tasks d) = []"
    using create_rows_fresh_id [OF made] ok
    by (fastforce simp: core_ok_def parents_ok_def filter_empty_conv image_iff)
  have own: "filter (\<lambda>t. rt_request_id t = uuid (fresh d)) ts = ts"
    using ini by (auto simp: list_all_iff initial_task_def)
  have none: "filter (\<lambda>t. rt_request_id t = i) ts = []" if "i \<noteq> uuid (fresh d)" for i
    using ini that by (auto simp: list_all_iff initial_task_def filter_empty_conv)
  have old: "pr_id q \<noteq> uuid (fresh d)" if "q \<in> set (requests d)" for q
    using create_rows_fresh_id [OF made] that by (auto simp: image_iff)
  have "map rt_source (request_tasks d' (pr_id q)) = pr_requested_sources q" if "q \<in> set (requests d')" for q
  proof (cases "q = ?r")
    case True
    then show ?thesis by (simp add: d' request_tasks_def r no_task own src)
  next
    case False
    with that have q: "q \<in> set (requests d)" by (simp add: d')
    with ok none [OF old] show ?thesis
      by (simp add: d' request_tasks_def core_ok_def parents_ok_def)
  qed
  then have "parents_ok d'"
    using ok ini r by (fastforce simp: d' core_ok_def parents_ok_def list_all_iff initial_task_def)
  moreover have "ready_ok d'"
  proof -
    from ev obtain e0 es' where es: "es = e0 # es'" "list_all2 (ready_event now) ts es'" by blast
    have "\<exists>e \<in> set es'. ob_event_type e = ''privacy_task.ready'' \<and> ob_aggregate_id e = rt_id t \<and>
        ob_tenant_id e = rt_tenant_id t" if "t \<in> set ts" for t
      using es(2) that by (induction rule: list_all2_induct) (auto simp: ready_event_def)
    then show ?thesis using ok es(1) by (fastforce simp: d' core_ok_def ready_ok_def)
  qed
  moreover have "list_all task_ok (tasks d')"
    using ok ini by (auto simp: d' core_ok_def list_all_iff initial_task_ok)
  ultimately show ?thesis
    using ok ks vs by (auto simp: core_ok_def chains_ok_def)
qed

lemma create_rows_status:
  assumes made: "create_rows sha256 uuid now tn key c d = Inr d'" and ok: "core_ok sha256 d" "status_ok d"
  shows "status_ok d'"
proof -
  let ?r = "new_request sha256 uuid now tn key c d"
  from create_rows_spec [OF made] obtain ts es a n where
    d': "d' = d\<lparr>requests := requests d @ [?r], tasks := tasks d @ ts, outbox := outbox d @ es,
       audit := audit d @ [a], fresh := n\<rparr>" and
    ini: "list_all (initial_task now tn (uuid (fresh d))) ts"
    by blast
  have st: "statuses d' i = statuses d i \<union> (if i = uuid (fresh d) then rt_status ` set ts else {})" for i
    using ini by (auto simp: statuses_def d' request_tasks_def list_all_iff initial_task_def)
  have ts: "rt_status ` set ts \<subseteq> {T_PENDING}"
    using ini by (auto simp: list_all_iff initial_task_def)
  have old: "pr_id q \<noteq> uuid (fresh d)" if "q \<in> set (requests d)" for q
    using create_rows_fresh_id [OF made] that by (auto simp: image_iff)
  have "statuses d (uuid (fresh d)) = {}"
    using create_rows_fresh_id [OF made] ok(1)
    by (fastforce simp: core_ok_def parents_ok_def statuses_def request_tasks_def image_iff)
  with st ts have "status_agrees d' ?r"
    by (simp add: status_agrees_def new_request_def terminal_status_def)
  moreover have "status_agrees d' q" if "q \<in> set (requests d)" for q
    using ok(2) that old [OF that] st by (auto simp: status_ok_def list_all_iff status_agrees_def)
  ultimately show ?thesis by (simp add: status_ok_def list_all_iff d')
qed

text \<open>The invariant does not look at the metrics nor at the counter of identifiers.\<close>

lemma core_ok_metrics [simp]:
  "core_ok sha256 (d\<lparr>m_request_created := x\<rparr>) = core_ok sha256 d"
  "core_ok sha256 (d\<lparr>m_request_completed := y\<rparr>) = core_ok sha256 d"
  "core_ok sha256 (d\<lparr>m_task_duration := z\<rparr>) = core_ok sha256 d"
  by (simp_all add: core_ok_def keys_ok_def parents_ok_def ready_ok_def chains_ok_def
      verify_audit_chain_def tenant_events_def request_tasks_def)

lemma status_ok_metrics [simp]:
  "status_ok (d\<lparr>m_request_created := x\<rparr>) = status_ok d"
  "status_ok (d\<lparr>m_request_completed := y\<rparr>) = status_ok d"
  "status_ok (d\<lparr>m_task_duration := z\<rparr>) = status_ok d"
  by (simp_all add: status_ok_def status_agrees_def[abs_def] statuses_def request_tasks_def)

lemma create_core:
  assumes "keys_ok d0" and "core_ok sha256 d"
    and "create_privacy_request_racing sha256 uuid now tn key c d0 d = (res, d')"
  shows "core_ok sha256 d'"
  by (rule create_cases [OF assms(1) core_ok_keys [OF assms(2)] assms(3)])
     (use assms(2) create_rows_core in auto)

lemma create_status:
  assumes "keys_ok d0" and "core_ok sha256 d" and "status_ok d"
    and "create_privacy_request_racing sha256 uuid now tn key c d0 d = (res, d')"
  shows "status_ok d'"
  by (rule create_cases [OF assms(1) core_ok_keys [OF assms(2)] assms(4)])
     (use assms(2,3) create_rows_status in auto)

end
