(* ===== verification/Worker_Invariant.thy ===== *)
theory Worker_Invariant
  imports Invariant
begin

text \<open>
  The transactions of \<open>services/worker.py\<close> and of \<open>services/records.py\<close> keep the invariant:
  claiming tasks, committing an outcome, refreshing a request, a whole pass, seeding and clearing.
\<close>

section \<open>Claims\<close>

lemma lease_task_ok: "task_ok t \<Longrightarrow> task_ok (lease_task w now until t)"
  by (auto simp: task_ok_def)

lemma claim_frames:
  "map task_frame (tasks (snd (claim_tasks dialect locked env w tn batch secs d))) = map task_frame (tasks d)"
  "map request_frame (requests (snd (claim_tasks dialect locked env w tn batch secs d))) =
     map request_frame (requests d)"
  by (simp_all add: claim_tasks_requests map_frame_upd_tasks map_frame_upd_requests)

lemma claim_core:
  assumes "core_ok sha256 d"
  shows "core_ok sha256 (snd (claim_tasks dialect locked env w tn batch secs d))"
proof (rule core_ok_step [OF assms])
  let ?d = "snd (claim_tasks dialect locked env w tn batch secs d)"
  show "keys_ok ?d" using assms by (simp add: core_ok_def claim_tasks_keys)
  show "list_all task_ok (tasks ?d)"
    using assms by (auto simp: core_ok_def list_all_iff in_upd_where lease_task_ok)
  show "chains_ok sha256 ?d"
    using assms chains_ok_audit [of ?d d] by (simp add: core_ok_def)
qed (rule claim_frames, rule claim_frames, simp)

lemma statuses_upd_tasks:
  assumes "\<And>t. t \<in> set (tasks d) \<Longrightarrow> P t \<Longrightarrow> rt_request_id t \<noteq> i"
    and "\<And>t. P t \<Longrightarrow> rt_request_id (f t) = rt_request_id t"
    and "tasks d' = upd_where P f (tasks d)"
  shows "statuses d' i = statuses d i"
proof -
  have "filter (\<lambda>t. rt_request_id t = i) (upd_where P f ts) = filter (\<lambda>t. rt_request_id t = i) ts"
    if "set ts \<subseteq> set (tasks d)" for ts
    using that assms(1,2) by (induction ts) auto
  then show ?thesis by (simp add: statuses_def request_tasks_def assms(3))
qed

lemma terminal_not_claimable:
  assumes "status_agrees d r" and "terminal_status (pr_status r)"
    and "t \<in> set (tasks d)" and "rt_request_id t = pr_id r"
  shows "rt_status t \<in> {T_SUCCEEDED, T_FAILED}"
proof -
  have "terminal_status (derived_status (statuses d (pr_id r)))"
    using assms(1,2) by (simp add: status_agrees_def)
  then have "statuses d (pr_id r) \<subseteq> {T_SUCCEEDED, T_FAILED}" by (simp add: terminal_derived)
  moreover have "rt_status t \<in> statuses d (pr_id r)" using assms(3,4) by (auto simp: statuses_member)
  ultimately show ?thesis by blast
qed

lemma claim_status:
  assumes core: "core_ok sha256 d" and ok: "status_ok d"
  shows "status_ok (snd (claim_tasks dialect locked env w tn batch secs d))" (is "status_ok ?d")
proof -
  let ?ids = "set (claim_ids dialect locked env tn batch d)"
  have keep: "status_agrees ?d r" if r: "status_agrees d r"
    and none: "\<And>t. t \<in> set (tasks d) \<Longrightarrow> rt_id t \<in> ?ids \<Longrightarrow> rt_request_id t \<noteq> pr_id r" for r
  proof -
    have "statuses ?d (pr_id r) = statuses d (pr_id r)"
      by (rule statuses_upd_tasks [OF _ _ claim_tasks_tasks]) (use none in simp_all)
    with r show ?thesis by (simp add: status_agrees_def)
  qed
  show ?thesis
    unfolding status_ok_def list_all_iff
  proof
    fix q assume "q \<in> set (requests ?d)"
    then show "status_agrees ?d q"
      unfolding claim_tasks_requests
    proof (cases rule: upd_where_elim)
      case (changed r)
      then show ?thesis by (simp add: status_agrees_def terminal_status_def)
    next
      case kept
      have q: "status_agrees d q" using ok kept(1) by (simp add: status_ok_def list_all_iff)
      consider (terminal) "terminal_status (pr_status q)" | (queued) "pr_status q = QUEUED"
        | (other) "\<not> terminal_status (pr_status q)" "pr_status q \<noteq> QUEUED" by blast
      then show ?thesis
      proof cases
        case terminal
        show ?thesis
        proof (rule keep [OF q])
          fix t assume t: "t \<in> set (tasks d)" "rt_id t \<in> ?ids"
          then have "claimable (e_now env) t"
            using core claim_ids_claimable(1) by (auto simp: core_ok_def)
          then show "rt_request_id t \<noteq> pr_id q"
            using terminal_not_claimable [OF q terminal t(1)] by (auto simp: claimable_def)
        qed
      next
        case queued
        with kept(2) show ?thesis by (intro keep [OF q]) (auto simp: image_iff)
      next
        case other
        then show ?thesis by (simp add: status_agrees_def)
      qed
    qed
  qed
qed

section \<open>Refreshing a request\<close>

lemma refresh_frame:
  assumes "keys_ok d" and "refresh_request_status env i d st = (res, d', st')"
  shows "tasks d' = tasks d \<and> records d' = records d \<and> set (outbox d) \<subseteq> set (outbox d') \<and>
     map request_frame (requests d') = map request_frame (requests d) \<and> keys_ok d' \<and>
     m_request_created d' = m_request_created d \<and>
     (\<forall>u. verify_audit_chain (e_sha256 env) d u \<longrightarrow> verify_audit_chain (e_sha256 env) d' u)"
proof (cases "\<exists>r \<in> set (requests d). pr_id r = i")
  case False
  then have "filter (\<lambda>r. pr_id r = i) (requests d) = []" by (auto simp: filter_empty_conv)
  with assms show ?thesis by (simp add: refresh_request_status_def)
next
  case True
  then obtain r where r: "r \<in> set (requests d)" "pr_id r = i" by blast
  let ?s = "derived_status (set (map rt_status (request_tasks d (pr_id r))))"
  let ?d1 = "\<lambda>artifact. d\<lparr>requests := upd_where (\<lambda>s. pr_id s = pr_id r)
           (refreshed env r ?s artifact) (requests d)\<rparr>"
  have k1: "keys_ok (?d1 art)" for art using assms(1) by (intro keys_ok_upd_requests) simp_all
  have f1: "map request_frame (requests (?d1 art)) = map request_frame (requests d)" for art
    by (simp add: map_frame_upd_requests)
  have v1: "verify_audit_chain (e_sha256 env) (?d1 art) u = verify_audit_chain (e_sha256 env) d u" for art u
    by (simp add: verify_audit_chain_def tenant_events_def)
  have call: "refresh_request_status env (pr_id r) d st = (res, d', st')" using assms(2) r(2) by simp
  show ?thesis
  proof (rule refresh_cases [OF assms(1) r(1) call refl refl], goal_cases store_error refused terminal plain)
    case (terminal art)
    from announce_terminal_spec(1) [OF terminal(4)] announce_terminal_spec(2,3) [OF terminal(4)] k1 v1 f1
    show ?thesis by auto
  next
    case (plain art)
    then show ?thesis using k1 f1 v1 by auto
  qed (use assms(1) in simp_all)
qed

lemma refresh_audit:
  assumes "keys_ok d" and "refresh_request_status env i d st = (res, d', st')"
  shows "\<exists>as. audit d' = audit d @ as"
proof (cases "\<exists>r \<in> set (requests d). pr_id r = i")
  case False
  then have "filter (\<lambda>r. pr_id r = i) (requests d) = []" by (auto simp: filter_empty_conv)
  with assms show ?thesis by (simp add: refresh_request_status_def)
next
  case True
  then obtain r where r: "r \<in> set (requests d)" "pr_id r = i" by blast
  have call: "refresh_request_status env (pr_id r) d st = (res, d', st')" using assms(2) r(2) by simp
  show ?thesis
  proof (rule refresh_cases [OF assms(1) r(1) call refl refl], goal_cases store_error refused terminal plain)
    case (terminal art)
    from announce_terminal_spec(1) [OF terminal(4)] show ?thesis by auto
  qed simp_all
qed

lemma refresh_core:
  assumes "core_ok (e_sha256 env) d" and "refresh_request_status env i d st = (res, d', st')"
  shows "core_ok (e_sha256 env) d'"
  using refresh_frame [OF core_ok_keys [OF assms(1)] assms(2)] assms(1)
  by (intro core_ok_step [OF assms(1)]) (auto simp: core_ok_def chains_ok_def)

text \<open>A successful refresh repairs the agreement of its request, whatever it was.\<close>

lemma refresh_requests:
  assumes "keys_ok d" and "refresh_request_status env i d st = (Inr status, d', st')"
  shows "status = derived_status (statuses d i) \<and>
    (\<exists>r art. r \<in> set (requests d) \<and> pr_id r = i \<and>
       requests d' = upd_where (\<lambda>s. pr_id s = i) (refreshed env r status art) (requests d))"
proof (cases "\<exists>r \<in> set (requests d). pr_id r = i")
  case False
  then have "filter (\<lambda>r. pr_id r = i) (requests d) = []" by (auto simp: filter_empty_conv)
  with assms show ?thesis by (simp add: refresh_request_status_def)
next
  case True
  then obtain r where r: "r \<in> set (requests d)" "pr_id r = i" by blast
  have call: "refresh_request_status env (pr_id r) d st = (Inr status, d', st')" using assms(2) r(2) by simp
  show ?thesis
  proof (rule refresh_cases [OF assms(1) r(1) call refl refl], goal_cases store_error refused terminal plain)
    case (terminal art)
    have "requests d' = upd_where (\<lambda>s. pr_id s = i) (refreshed env r status art) (requests d)"
      using announce_terminal_spec(1) [OF terminal(4)] terminal(3) r(2) by auto
    with terminal(3) r show ?thesis unfolding statuses_def by blast
  next
    case (plain art)
    then have "requests d' = upd_where (\<lambda>s. pr_id s = i) (refreshed env r status art) (requests d)"
      using r(2) by simp
    with plain(3) r show ?thesis unfolding statuses_def by blast
  qed simp_all
qed

lemma statuses_same_tasks: "tasks d' = tasks d \<Longrightarrow> statuses d' i = statuses d i"
  by (simp add: statuses_def request_tasks_def)

lemma refresh_repairs:
  assumes "keys_ok d" and "refresh_request_status env i d st = (Inr status, d', st')"
    and "\<And>r. r \<in> set (requests d) \<Longrightarrow> pr_id r \<noteq> i \<Longrightarrow> status_agrees d r"
  shows "status_ok d'"
proof -
  have same: "statuses d' j = statuses d j" for j
    by (rule statuses_same_tasks) (use refresh_frame [OF assms(1,2)] in blast)
  from refresh_requests [OF assms(1,2)] obtain r art where
    s: "status = derived_status (statuses d i)" and
    req: "requests d' = upd_where (\<lambda>s. pr_id s = i) (refreshed env r status art) (requests d)"
    by blast
  show ?thesis
    unfolding status_ok_def list_all_iff
  proof
    fix q assume "q \<in> set (requests d')"
    then show "status_agrees d' q"
      unfolding req
    proof (cases rule: upd_where_elim)
      case (changed p)
      then show ?thesis by (intro status_agrees_derived) (simp add: same s)
    next
      case kept
      then show ?thesis using assms(3) [of q] by (simp add: status_agrees_def same)
    qed
  qed
qed

section \<open>Committing an outcome\<close>

text \<open>The rows other transactions add while a deletion is verified have keys of their own.\<close>

definition late_ok :: "'st env \<Rightarrow> cloud \<Rightarrow> bool" where
  "late_ok env d \<longleftrightarrow> distinct (map dr_id (records d @ e_late_records env))"

lemma verifying_frame [simp]:
  "tasks (verifying env r d) = tasks d" "outbox (verifying env r d) = outbox d"
  "audit (verifying env r d) = audit d" "records (verifying env r d) = records d"
  "fresh (verifying env r d) = fresh d" "m_task_duration (verifying env r d) = m_task_duration d"
  "map request_frame (requests (verifying env r d)) = map request_frame (requests d)"
  by (simp_all add: verifying_def map_frame_upd_requests)

lemma run_source_requests:
  assumes "run_source env ex task request d = (outcome, d1)"
  shows "requests d1 = requests d \<or> requests d1 = requests (verifying env request d)"
proof -
  have "requests (snd (execute_delete env (verifying env request d) task request)) =
      requests (verifying env request d)"
    by (simp add: execute_delete_state)
  then show ?thesis
    using assms by (auto simp: run_source_def Let_def split: option.splits sum.splits if_splits)
qed

lemma run_source_records:
  assumes "run_source env ex task request d = (outcome, d1)"
  shows "\<exists>late. (late = [] \<or> late = e_late_records env) \<and>
    map dr_id (records d1) = map dr_id (records d) @ map dr_id late \<and>
    drop (length (records d)) (records d1) = late"
proof (cases "ex = None \<and> pr_kind request \<noteq> ACCESS")
  case True
  then have "d1 = snd (execute_delete env (verifying env request d) task request)"
    using assms by (simp add: run_source_def)
  then show ?thesis
    by (intro exI [of _ "e_late_records env"]) (simp add: execute_delete_state map_upd_where)
next
  case False
  then have "records d1 = records d"
    using assms by (auto simp: run_source_def Let_def split: option.splits sum.splits if_splits)
  then show ?thesis by (intro exI [of _ "[]"]) simp
qed

lemma run_source_frame:
  assumes "run_source env ex task request d = (outcome, d1)"
  shows "tasks d1 = tasks d" and "outbox d1 = outbox d" and "audit d1 = audit d"
    and "map request_frame (requests d1) = map request_frame (requests d)"
    and "late_ok env d \<Longrightarrow> distinct (map dr_id (records d1))"
proof -
  have del: "tasks (snd (execute_delete env x task request)) = tasks x"
    "outbox (snd (execute_delete env x task request)) = outbox x"
    "audit (snd (execute_delete env x task request)) = audit x" for x
    by (simp_all add: execute_delete_state)
  show "tasks d1 = tasks d" and "outbox d1 = outbox d" and "audit d1 = audit d"
    using assms del [of "verifying env request d"]
    by (auto simp: run_source_def Let_def split: option.splits sum.splits if_splits)
  show "map request_frame (requests d1) = map request_frame (requests d)"
    using run_source_requests [OF assms] by auto
  show "distinct (map dr_id (records d1))" if "late_ok env d"
    using run_source_records [OF assms] that by (auto simp: late_ok_def)
qed

lemma settle_task_simps [simp]:
  "rt_id (settle_task env ex task outcome t) = rt_id t"
  "rt_request_id (settle_task env ex task outcome t) = rt_request_id t"
  "rt_attempt (settle_task env ex task outcome t) = rt_attempt t"
  "rt_lease_owner (settle_task env ex task outcome t) = None"
  "rt_lease_expires_at (settle_task env ex task outcome t) = None"
  by (simp_all add: settle_task_def)

lemma settle_task_not_running: "rt_status (settle_task env ex task outcome t) \<noteq> T_RUNNING"
  by (simp add: settle_task_def failed_status_def split: sum.split)

text \<open>The state between the commit of the outcome and the refresh of the request.\<close>

lemma finish_task_cases:
  assumes "finish_task env ex task request d st = (res, d', st')"
  obtains (refused) outcome d1 where "run_source env ex task request d = (outcome, d1)"
      "res = Inl IntegrityError" "st' = st"
      "d' = d\<lparr>records := records d @ drop (length (records d)) (records d1),
              m_task_duration := m_task_duration d @ [(rt_source task, pr_kind request)]\<rparr>"
    | (committed) outcome d1 d2 d3 r where "run_source env ex task request d = (outcome, d1)"
      "d2 = d1\<lparr>tasks := upd_where (\<lambda>t. rt_id t = rt_id task) (settle_task env ex task outcome) (tasks d1),
               m_task_duration := m_task_duration d @ [(rt_source task, pr_kind request)]\<rparr>"
      "append_audit (e_sha256 env) (e_uuid env) (e_now env) (rt_tenant_id task) (rt_request_id task)
         (task_action (rt_status (settle_task env ex task outcome task)))
         (Some (audit_payload task (settle_task env ex task outcome task))) d2 = Inr d3"
      "refresh_request_status env (rt_request_id task) d3 st = (r, d', st')"
      "res = (case r of Inl e \<Rightarrow> Inl e
                | Inr _ \<Rightarrow> Inr (rt_status (settle_task env ex task outcome task) = T_SUCCEEDED))"
  using assms
  by (auto simp: finish_task_def Let_def split: prod.splits sum.splits dest: append_audit_error(1))

text \<open>
  A worker that finishes late, after its lease was taken over, still keeps the core of the
  invariant: its snapshot of the task has at most the attempts of the row.
\<close>

definition snapshot_ok :: "cloud \<Rightarrow> request_task \<Rightarrow> bool" where
  "snapshot_ok d task \<longleftrightarrow> 1 \<le> rt_attempt task \<and>
     (\<forall>t \<in> set (tasks d). rt_id t = rt_id task \<longrightarrow> rt_attempt task \<le> rt_attempt t)"

lemma committed_core:
  assumes core: "core_ok (e_sha256 env) d" and snap: "snapshot_ok d task" and late: "late_ok env d"
    and run: "run_source env ex task request d = (outcome, d1)"
    and d2: "d2 = d1\<lparr>tasks := upd_where (\<lambda>t. rt_id t = rt_id task) (settle_task env ex task outcome) (tasks d1),
               m_task_duration := m\<rparr>"
  shows "core_ok (e_sha256 env) d2"
proof -
  note f = run_source_frame [OF run]
  have tf: "map task_frame (tasks d2) = map task_frame (tasks d)"
    by (simp add: d2 f(1) map_frame_upd_tasks)
  have rf: "map request_frame (requests d2) = map request_frame (requests d)"
    using f(4) by (simp add: d2)
  have ks: "keys_ok d2"
    by (rule keys_ok_same [OF core_ok_keys [OF core] tf rf]) (use f late in \<open>simp_all add: d2\<close>)
  have "task_ok (settle_task env ex task outcome t)" if "t \<in> set (tasks d)" "rt_id t = rt_id task" for t
    using snap that settle_task_not_running [of env ex task outcome t]
    by (auto simp: snapshot_ok_def task_ok_def)
  then have "list_all task_ok (tasks d2)"
    using core by (auto simp: d2 f(1) core_ok_def list_all_iff in_upd_where)
  moreover have "chains_ok (e_sha256 env) d2"
    using core chains_ok_audit [of d2 d] f(3) by (simp add: d2 core_ok_def)
  ultimately show ?thesis
    using core_ok_step [OF core ks _ tf rf] f(2) by (simp add: d2)
qed

lemma append_audit_core:
  assumes "append_audit sha256 uuid now t r act pl d = Inr d'" and "core_ok sha256 d"
  shows "core_ok sha256 d'"
proof (rule core_ok_step [OF assms(2)])
  show "keys_ok d'" using append_audit_keys [OF assms(1)] assms(2) by (simp add: core_ok_def)
  show "chains_ok sha256 d'" using chains_ok_append [OF assms(1)] assms(2) by (simp add: core_ok_def)
qed (use append_audit_eq [OF assms(1)] assms(2) in \<open>simp_all add: core_ok_def\<close>)

lemma late_records_core:
  assumes "core_ok sha256 d" and "distinct (map dr_id rs)"
  shows "core_ok sha256 (d\<lparr>records := rs\<rparr>)"
  using assms
  by (simp add: core_ok_def keys_ok_def parents_ok_def ready_ok_def chains_ok_def
      verify_audit_chain_def tenant_events_def request_tasks_def)

lemma finish_core:
  assumes core: "core_ok (e_sha256 env) d" and snap: "snapshot_ok d task" and late: "late_ok env d"
    and fin: "finish_task env ex task request d st = (res, d', st')"
  shows "core_ok (e_sha256 env) d'"
  using fin
proof (cases rule: finish_task_cases)
  case (refused outcome d1)
  have "distinct (map dr_id (records d @ drop (length (records d)) (records d1)))"
    using run_source_records [OF refused(1)] late core by (auto simp: late_ok_def core_ok_def keys_ok_def)
  with late_records_core [OF core this] refused show ?thesis by simp
next
  case (committed outcome d1 d2 d3 r)
  show ?thesis
    using refresh_core [OF append_audit_core [OF committed(3) committed_core [OF core snap late committed(1,2)]]]
      committed(4) by blast
qed

lemma refresh_error: "refresh_request_status env i d st = (Inl e, d', st') \<Longrightarrow> d' = d"
  by (auto simp: refresh_request_status_def Let_def split: sum.splits prod.splits if_splits)

text \<open>The parent of a running task is neither queued nor terminal.\<close>

lemma running_parent:
  assumes "status_agrees d r" and "t \<in> set (tasks d)" and "rt_request_id t = pr_id r"
    and "rt_status t = T_RUNNING"
  shows "\<not> terminal_status (pr_status r) \<and> pr_status r \<noteq> QUEUED"
proof -
  have "T_RUNNING \<in> statuses d (pr_id r)" using assms(2-4) by (auto simp: statuses_member)
  moreover have "pr_status r = QUEUED \<longrightarrow> statuses d (pr_id r) \<subseteq> {T_PENDING}"
    using assms(1) by (simp add: status_agrees_def)
  ultimately show ?thesis using terminal_not_claimable [OF assms(1) _ assms(2,3)] assms(4) by auto
qed

lemma status_ok_records [simp]: "status_ok (d\<lparr>records := x\<rparr>) = status_ok d"
  by (simp add: status_ok_def status_agrees_def[abs_def] statuses_def request_tasks_def)

lemma verifying_elim:
  assumes "q \<in> set (requests (verifying env request d))"
  obtains "q \<in> set (requests d)" | "pr_id q = pr_id request" "pr_status q = VERIFYING"
  using assms by (auto simp: verifying_def in_upd_where split: if_splits)

lemma finish_status:
  assumes core: "core_ok (e_sha256 env) d" and ok: "status_ok d" and late: "late_ok env d"
    and row: "row \<in> set (tasks d)" "rt_id row = rt_id task" "rt_request_id row = rt_request_id task"
      "rt_status row = T_RUNNING"
    and snap: "snapshot_ok d task" and req: "pr_id request = rt_request_id task"
    and fin: "finish_task env ex task request d st = (res, d', st')"
  shows "status_ok d'"
  using fin
proof (cases rule: finish_task_cases)
  case (refused outcome d1)
  with ok show ?thesis by simp
next
  case (committed outcome d1 d2 d3 r)
  have agrees: "status_agrees d q" if "q \<in> set (requests d)" for q
    using ok that by (simp add: status_ok_def list_all_iff)
  have k3: "keys_ok d3"
    using append_audit_core [OF committed(3) committed_core [OF core snap late committed(1,2)]]
    by (rule core_ok_keys)
  have d3: "tasks d3 = upd_where (\<lambda>t. rt_id t = rt_id task) (settle_task env ex task outcome) (tasks d)"
    "requests d3 = requests d1"
    using append_audit_eq [OF committed(3)] committed(2) run_source_frame(1) [OF committed(1)] by simp_all
  have only: "t = row" if "t \<in> set (tasks d)" "rt_id t = rt_id task" for t
    using core key_inj [of rt_id "tasks d", OF _ that(1) row(1)] that(2) row(2) by (simp add: core_ok_def keys_ok_def)
  have same: "statuses d3 i = statuses d i" if "i \<noteq> rt_request_id task" for i
  proof (rule statuses_upd_tasks [OF _ _ d3(1)])
    fix t assume "t \<in> set (tasks d)" and "rt_id t = rt_id task"
    then have "t = row" by (rule only)
    with row(3) that show "rt_request_id t \<noteq> i" by simp
  qed simp
  have request_row: "q \<in> set (requests d) \<or> pr_id q = rt_request_id task \<and> pr_status q = VERIFYING"
    if "q \<in> set (requests d3)" for q
    using run_source_requests [OF committed(1)] that d3(2) req verifying_elim [of q env request d]
    by metis
  have others: "status_agrees d3 q" if "q \<in> set (requests d3)" "pr_id q \<noteq> rt_request_id task" for q
    using agrees [of q] request_row [OF that(1)] that(2) same by (auto simp: status_agrees_def)
  show ?thesis
  proof (cases r)
    case (Inr status)
    with committed(4) have "refresh_request_status env (rt_request_id task) d3 st = (Inr status, d', st')" by simp
    from refresh_repairs [OF k3 this] others show ?thesis by blast
  next
    case (Inl e)
    have "status_agrees d3 q" if q: "q \<in> set (requests d3)" for q
    proof (cases "pr_id q = rt_request_id task")
      case True
      with request_row [OF q] running_parent [OF agrees row(1) _ row(4)] row(3)
      have "\<not> terminal_status (pr_status q) \<and> pr_status q \<noteq> QUEUED"
        by (auto simp: terminal_status_def)
      then show ?thesis by (simp add: status_agrees_def)
    qed (use others q in blast)
    moreover have "d' = d3" using committed(4) Inl by (auto dest: refresh_error)
    ultimately show ?thesis by (simp add: status_ok_def list_all_iff)
  qed
qed

lemma refresh_ok:
  assumes "cloud_ok (e_sha256 env) d" and "refresh_request_status env i d st = (res, d', st')"
  shows "cloud_ok (e_sha256 env) d'"
proof (cases res)
  case (Inl e)
  with assms show ?thesis by (auto dest: refresh_error)
next
  case (Inr status)
  have k: "keys_ok d" using assms(1) by (auto simp: cloud_ok_def intro: core_ok_keys)
  from refresh_repairs [OF k, of env i st status d' st'] assms Inr have "status_ok d'"
    by (auto simp: cloud_ok_def status_ok_def list_all_iff)
  with refresh_core assms show ?thesis by (auto simp: cloud_ok_def)
qed

section \<open>Whole tasks and whole passes\<close>

lemma load_task_Some:
  "load_task d i w = Inr (Some t) \<Longrightarrow>
     t \<in> set (tasks d) \<and> rt_id t = i \<and> rt_status t = T_RUNNING \<and> rt_lease_owner t = Some w"
  unfolding load_task_def scalar_one_or_none_Inr by (drule arg_cong [of _ _ set]) auto

lemma execute_task_cases:
  assumes "execute_task env ex i w d st = (res, d', st')"
  obtains (skipped) "d' = d" "st' = st" "res \<noteq> Inr True"
    | (ran) task request where "task \<in> set (tasks d)" "rt_id task = i" "rt_status task = T_RUNNING"
        "rt_lease_owner task = Some w" "request \<in> set (requests d)" "pr_id request = rt_request_id task"
        "finish_task env ex task request d st = (res, d', st')"
proof (cases "load_task d i w")
  case (Inl e)
  with assms skipped show ?thesis by (auto simp: execute_task_def)
next
  case (Inr t)
  show ?thesis
  proof (cases t)
    case None
    with Inr assms skipped show ?thesis by (auto simp: execute_task_def)
  next
    case (Some task)
    note l = load_task_Some [of d i w task]
    show ?thesis
    proof (cases "find (\<lambda>r. pr_id r = rt_request_id task) (requests d)")
      case None
      with Inr Some assms skipped show ?thesis by (auto simp: execute_task_def)
    next
      case (Some request)
      then have "request \<in> set (requests d)" "pr_id request = rt_request_id task"
        by (auto simp: find_Some_iff)
      moreover from Some Inr \<open>t = Some task\<close> assms have "finish_task env ex task request d st = (res, d', st')"
        by (simp add: execute_task_def)
      ultimately show ?thesis using l Inr \<open>t = Some task\<close> ran by blast
    qed
  qed
qed

lemma live_snapshot:
  assumes "core_ok sha256 d" and "task \<in> set (tasks d)" and "rt_status task = T_RUNNING"
  shows "snapshot_ok d task"
  using assms by (auto simp: snapshot_ok_def core_ok_def list_all_iff task_ok_def keys_ok_def dest: key_inj)

lemma execute_task_ok:
  assumes "cloud_ok (e_sha256 env) d" and "late_ok env d" and "execute_task env ex i w d st = (res, d', st')"
  shows "cloud_ok (e_sha256 env) d'"
  using assms(3)
proof (cases rule: execute_task_cases)
  case skipped
  with assms show ?thesis by simp
next
  case (ran task request)
  then show ?thesis
    using assms finish_core [OF _ live_snapshot assms(2) ran(7)] finish_status [OF _ _ assms(2) ran(1) refl refl ran(3) _ ran(6) ran(7)] live_snapshot [OF _ ran(1,3)]
    by (auto simp: cloud_ok_def)
qed

lemma execute_all_ok:
  assumes "execute_all envs w ids k n d st = (res, d', st')" and "cloud_ok sha256 d"
    and "\<And>k. e_sha256 (envs k) = sha256" and "\<And>k. e_late_records (envs k) = []"
  shows "cloud_ok sha256 d'"
  using assms(1,2)
proof (induction ids arbitrary: k n d st)
  case Nil
  then show ?case by simp
next
  case (Cons i ids)
  obtain r d1 st1 where run: "execute_task (envs k) None i w d st = (r, d1, st1)"
    by (metis prod_cases3)
  have "late_ok (envs k) d"
    using Cons.prems(2) by (simp add: late_ok_def assms(4) cloud_ok_def core_ok_def keys_ok_def)
  then have "cloud_ok sha256 d1"
    using execute_task_ok [OF _ _ run] Cons.prems(2) assms(3) by simp
  with Cons run show ?case by (auto split: sum.splits)
qed

lemma execute_all_count:
  "execute_all envs w ids k n d st = (Inr m, d', st') \<Longrightarrow> n \<le> m \<and> m \<le> n + length ids"
  by (induction ids arbitrary: k n d st) (fastforce split: prod.splits sum.splits if_splits)+

section \<open>Seeding\<close>

lemma clear_seed_core: "core_ok sha256 d \<Longrightarrow> core_ok sha256 (snd (clear_seed_records tn d))"
  using late_records_core [of sha256 d "filter (\<lambda>r. dr_tenant_id r \<noteq> tn) (records d)"]
    core_ok_keys [of sha256 d]
  by (simp add: clear_seed_records_def keys_ok_def distinct_map_filter)

lemma clear_seed_status: "status_ok (snd (clear_seed_records tn d)) = status_ok d"
  by (simp add: clear_seed_records_def)

lemma core_ok_fresh [simp]: "core_ok sha256 (d\<lparr>fresh := n\<rparr>) = core_ok sha256 d"
  by (simp add: core_ok_def keys_ok_def parents_ok_def ready_ok_def chains_ok_def
      verify_audit_chain_def tenant_events_def request_tasks_def)

lemma status_ok_fresh [simp]: "status_ok (d\<lparr>fresh := n\<rparr>) = status_ok d"
  by (simp add: status_ok_def status_agrees_def[abs_def] statuses_def request_tasks_def)

lemma seed_state:
  assumes "seed_records sha256 uuid now tn c d = (res, d')"
  shows "\<exists>rs n. d' = d\<lparr>records := records d @ rs, fresh := n\<rparr> \<and> (keys_ok d \<longrightarrow> keys_ok d')"
proof (cases "insert_seed_rows uuid now tn (hash_subject sha256 (s_subject_key c))
    (seed_plan (s_records_per_source c)) d")
  case (Inl e)
  with assms show ?thesis by (intro exI [of _ "[]"] exI [of _ "fresh d"]) (simp add: seed_records_def)
next
  case (Inr d1)
  with assms have "d' = d1" by (simp add: seed_records_def Let_def)
  with insert_seed_rows_spec [OF Inr] show ?thesis by blast
qed

lemma seed_core:
  assumes "core_ok sha256 d" and "seed_records sha256 uuid now tn c d = (res, d')"
  shows "core_ok sha256 d'"
proof -
  from seed_state [OF assms(2)] obtain rs n where
    d': "d' = d\<lparr>records := records d @ rs, fresh := n\<rparr>" and k: "keys_ok d \<longrightarrow> keys_ok d'" by blast
  then have "distinct (map dr_id (records d @ rs))"
    using core_ok_keys [OF assms(1)] by (simp add: keys_ok_def)
  from late_records_core [OF assms(1) this] show ?thesis by (simp only: d' core_ok_fresh)
qed

lemma seed_tasks: "seed_records sha256 uuid now tn c d = (res, d') \<Longrightarrow> tasks d' = tasks d"
  by (drule seed_state) auto

lemma seed_status:
  assumes "status_ok d" and "seed_records sha256 uuid now tn c d = (res, d')"
  shows "status_ok d'"
proof -
  from seed_state [OF assms(2)] obtain rs n where d': "d' = d\<lparr>records := records d @ rs, fresh := n\<rparr>" by blast
  with assms(1) show ?thesis by (simp only: d' status_ok_fresh status_ok_records)
qed

end
