(* ===== verification/Intake.thy ===== *)
theory Intake
  imports Requests "HOL-Library.Multiset"
begin

text \<open>
  The properties of the intake and of its parts: the normal form of a subject, the validation of
  sources, replay and conflict of an idempotency key, the race of two clients, the rows that an
  intake adds, when it must succeed, and the tenant-scoped reads.
\<close>

section \<open>When the inserts succeed\<close>

text \<open>
  The identifiers that will be drawn are distinct and not in any table. \<open>uuid4\<close> gives this with
  overwhelming probability; the model never needs it for safety, only for success.
\<close>

definition ids_unused :: "uuid_stream \<Rightarrow> cloud \<Rightarrow> bool" where
  "ids_unused uuid d \<longleftrightarrow> inj uuid \<and>
     (\<forall>n \<ge> fresh d. uuid n \<notin> set (map pr_id (requests d)) \<and> uuid n \<notin> set (map rt_id (tasks d)) \<and>
        uuid n \<notin> set (map ob_id (outbox d)) \<and> uuid n \<notin> set (map au_id (audit d)) \<and>
        uuid n \<notin> set (map rt_request_id (tasks d)))"

lemma enqueue_outbox_total:
  assumes "ids_unused uuid d"
  shows "\<exists>d'. enqueue_outbox uuid now tn agg ty pl d = Inr d' \<and> ids_unused uuid d' \<and>
    fresh d' = fresh d + 1 \<and> audit d' = audit d \<and> tasks d' = tasks d"
proof -
  have "uuid n \<noteq> uuid (fresh d)" if "fresh d < n" for n
    using assms that by (auto simp: ids_unused_def dest: injD)
  with assms show ?thesis
    by (auto simp: enqueue_outbox_def insert_outbox_def ids_unused_def)
qed

lemma insert_tasks_total:
  assumes "ids_unused uuid d" and "distinct srcs" and "\<forall>n \<ge> fresh d. uuid n \<noteq> rid"
    and "\<forall>s \<in> set srcs. (rid, s) \<notin> request_source ` set (tasks d)"
  shows "\<exists>d'. insert_tasks uuid now tn rid srcs d = Inr d' \<and> ids_unused uuid d' \<and> audit d' = audit d"
  using assms
proof (induction srcs arbitrary: d)
  case Nil
  then show ?case by simp
next
  case (Cons s srcs)
  let ?t = "new_task uuid now tn rid s d"
  let ?d = "d\<lparr>tasks := tasks d @ [?t], fresh := fresh d + 1\<rparr>"
  have neq: "uuid n \<noteq> uuid (fresh d)" if "fresh d < n" for n
    using Cons.prems(1) that by (auto simp: ids_unused_def dest: injD)
  have ins: "insert_task ?t (d\<lparr>fresh := fresh d + 1\<rparr>) = Inr ?d"
    using Cons.prems(1,4) by (auto simp: insert_task_def ids_unused_def new_task_def request_source_def image_iff)
  have "ids_unused uuid ?d"
    using Cons.prems(1,3) neq by (auto simp: ids_unused_def new_task_def)
  moreover have "\<forall>q \<in> set srcs. (rid, q) \<notin> request_source ` set (tasks ?d)"
    using Cons.prems(2,4) by (auto simp: new_task_def request_source_def)
  ultimately show ?case
    using Cons.IH [of ?d] Cons.prems(2,3) ins by auto
qed

lemma enqueue_ready_total:
  assumes "ids_unused uuid d"
  shows "\<exists>d'. enqueue_ready uuid now tn rid ts d = Inr d' \<and> ids_unused uuid d' \<and> audit d' = audit d"
  using assms
proof (induction ts arbitrary: d)
  case Nil
  then show ?case by simp
next
  case (Cons t ts)
  from enqueue_outbox_total [OF Cons.prems, of now tn "rt_id t" "''privacy_task.ready''"
      "Some (JObj [(''task_id'', JStr (rt_id t)), (''request_id'', JStr rid), (''source'', JStr (rt_source t))])"]
  obtain d1 where "enqueue_outbox uuid now tn (rt_id t) ''privacy_task.ready''
      (Some (JObj [(''task_id'', JStr (rt_id t)), (''request_id'', JStr rid), (''source'', JStr (rt_source t))])) d
      = Inr d1" "ids_unused uuid d1" "audit d1 = audit d" by blast
  with Cons.IH [of d1] show ?case by auto
qed

lemma hashes_ok_append:
  assumes "\<not> collision sha256" and "ids_unused uuid d"
    and "list_all (\<lambda>a. event_envelope_hash sha256 a = au_event_hash a) (audit d)"
  shows "\<exists>d'. append_audit sha256 uuid now t r act pl d = Inr d'"
  using append_audit_succeeds [OF assms(1) _ assms(3)] assms(2) by (auto simp: ids_unused_def)

lemma create_rows_total:
  assumes "ids_unused uuid d" and "distinct (c_sources c)" and "\<not> collision sha256"
    and "list_all (\<lambda>a. event_envelope_hash sha256 a = au_event_hash a) (audit d)"
    and "(tn, key) \<notin> idem_key ` set (requests d)"
  shows "\<exists>d'. create_rows sha256 uuid now tn key c d = Inr d'"
proof -
  let ?r = "new_request sha256 uuid now tn key c d" and ?id = "uuid (fresh d)"
  let ?d1 = "d\<lparr>fresh := fresh d + 1, requests := requests d @ [?r]\<rparr>"
  have rid: "pr_id ?r = ?id" by (simp add: new_request_def)
  have neq: "uuid n \<noteq> ?id" if "fresh d < n" for n
    using assms(1) that by (auto simp: ids_unused_def dest: injD)
  have 1: "insert_request ?r (d\<lparr>fresh := fresh d + 1\<rparr>) = Inr ?d1"
    using assms(1,5) by (auto simp: insert_request_def ids_unused_def new_request_def idem_key_def)
  have u1: "ids_unused uuid ?d1" using assms(1) neq by (auto simp: ids_unused_def new_request_def)
  have "\<forall>s \<in> set (c_sources c). (?id, s) \<notin> request_source ` set (tasks ?d1)"
    using assms(1) by (auto simp: ids_unused_def request_source_def image_iff)
  with insert_tasks_total [OF u1 assms(2), of ?id] neq obtain d2 where
    2: "insert_tasks uuid now tn ?id (c_sources c) ?d1 = Inr d2" "ids_unused uuid d2" "audit d2 = audit d"
    by fastforce
  from enqueue_outbox_total [OF 2(2)] obtain d3 where
    3: "enqueue_outbox uuid now tn ?id ''privacy_request.created'' (Some (created_payload ?r)) d2 = Inr d3"
      "ids_unused uuid d3" "audit d3 = audit d2" by blast
  from enqueue_ready_total [OF 3(2)] obtain d4 where
    4: "enqueue_ready uuid now tn ?id (drop (length (tasks ?d1)) (tasks d2)) d3 = Inr d4"
      "ids_unused uuid d4" "audit d4 = audit d3" by blast
  from hashes_ok_append [OF assms(3) 4(2)] assms(4) 2(3) 3(3) 4(3) obtain d5 where
    "append_audit sha256 uuid now tn ?id ''request.created'' (Some (created_payload ?r)) d4 = Inr d5"
    by fastforce
  with 1 2(1) 3(1) 4(1) show ?thesis by (simp add: create_rows_def Let_def rid)
qed

section \<open>Sources and pages\<close>

lemma remdups_snoc: "remdups (xs @ [x]) = filter (\<lambda>y. y \<noteq> x) (remdups xs) @ [x]"
  by (induction xs) auto

lemma dict_fromkeys_first: "dict_fromkeys xs = rev (remdups (rev xs))"
  by (induction xs) (simp_all add: remdups_snoc rev_filter)

lemma list_privacy_requests_pages:
  "concat (map (\<lambda>k. list_privacy_requests d tn st n (k * n)) [0..<m]) = list_privacy_requests d tn st (m * n) 0"
proof (induction m)
  case 0
  then show ?case by (simp add: list_privacy_requests_def)
next
  case (Suc m)
  then show ?case
    using list_privacy_requests_page [of d tn st "m * n" 0 n] by (simp add: add.commute)
qed

lemma list_privacy_requests_sorted: "sorted (map (\<lambda>r. - pr_created_at r) (list_privacy_requests d tn st n 0))"
  using sorted_sort_key [of "\<lambda>r. - pr_created_at r"]
  by (simp add: list_privacy_requests_def sorted_wrt_take take_map [symmetric])

lemma list_privacy_requests_all:
  assumes "length (requests d) \<le> n"
  shows "mset (list_privacy_requests d tn st n 0) =
    mset (filter (\<lambda>r. pr_tenant_id r = tn \<and> (case st of None \<Rightarrow> True | Some s \<Rightarrow> pr_status r = s)) (requests d))"
    (is "_ = mset ?rs")
proof -
  have "length ?rs \<le> n" using assms length_filter_le le_trans by blast
  then show ?thesis by (simp add: list_privacy_requests_def)
qed

section \<open>Sample intake\<close>

definition sample_cloud :: cloud where
  "sample_cloud = snd (create_privacy_request sample_digest sample_uuid 0 ''acme'' ''k1'' sample_delete empty_cloud)"

definition sample_request :: privacy_request where
  "sample_request = new_request sample_digest sample_uuid 0 ''acme'' ''k1'' sample_delete empty_cloud"

lemma empty_ids_unused: "ids_unused sample_uuid empty_cloud"
  by (auto simp: ids_unused_def empty_cloud_def inj_def)

lemma sample_intake:
  "create_privacy_request sample_digest sample_uuid 0 ''acme'' ''k1'' sample_delete empty_cloud =
     (Inr (Some sample_request, True), sample_cloud)"
  "keys_ok sample_cloud" "requests sample_cloud = [sample_request]"
proof -
  let ?call = "create_privacy_request sample_digest sample_uuid 0 ''acme'' ''k1'' sample_delete empty_cloud"
  obtain d where made: "create_rows sample_digest sample_uuid 0 ''acme'' ''k1'' sample_delete empty_cloud = Inr d"
    using create_rows_total [OF empty_ids_unused _ sample_digest_injective, of sample_delete "''acme''" "''k1''" 0]
    by (auto simp: sample_delete_def empty_cloud_def)
  have "find_by_idempotency empty_cloud ''acme'' ''k1'' = Inr None"
    by (simp add: find_by_idempotency_def empty_cloud_def)
  from create_fresh [OF keys_ok_empty this made]
  have call: "?call = (Inr (Some sample_request, True), d\<lparr>m_request_created := m_request_created d @ [DELETE]\<rparr>)"
    by (simp add: create_privacy_request_def sample_request_def sample_delete_def)
  with call create_rows_spec [OF made] keys_ok_empty
  show "?call = (Inr (Some sample_request, True), sample_cloud)" "keys_ok sample_cloud"
    "requests sample_cloud = [sample_request]"
    by (auto simp: sample_cloud_def sample_request_def keys_ok_def) (simp_all add: empty_cloud_def)
qed

text \<open>The tables after the sample intake.\<close>

definition sample_task :: "nat \<Rightarrow> string \<Rightarrow> request_task" where
  "sample_task n src = \<lparr>rt_id = sample_uuid n, rt_request_id = sample_uuid 0, rt_tenant_id = ''acme'',
     rt_source = src, rt_status = T_PENDING, rt_attempt = 0, rt_lease_owner = None,
     rt_lease_expires_at = None, rt_result_summary = JObj [], rt_error = None,
     rt_created_at = 0, rt_updated_at = 0\<rparr>"

lemma sample_shape:
  "tasks sample_cloud = [sample_task 1 ''jobs'', sample_task 2 ''devices'']"
  "map ob_id (outbox sample_cloud) = [sample_uuid 3, sample_uuid 4, sample_uuid 5]"
  "map au_id (audit sample_cloud) = [sample_uuid 6]" "fresh sample_cloud = 7" "records sample_cloud = []"
  by (simp_all add: sample_cloud_def create_privacy_request_def create_privacy_request_racing_def
      find_by_idempotency_def create_rows_def insert_request_def insert_task_def insert_outbox_def
      append_audit_def insert_audit_def enqueue_outbox_def new_request_def new_task_def Let_def
      sample_delete_def empty_cloud_def request_source_def or_empty_def get_privacy_request_def
      sample_task_def audit_row_def)

section \<open>Properties\<close>

text \<open>
  C3. A repeated idempotency key never creates anything: a command under a key the tenant has used
  returns the stored request when it asks for the same subject, kind and set of sources, is refused
  with the conflict error otherwise, and leaves every table as it was.
\<close>

theorem idempotency_key_replay:
  assumes "keys_ok d" and "r \<in> set (requests d)"
  shows "create_privacy_request sha256 uuid now (pr_tenant_id r) (pr_idempotency_key r) c d =
    ((if hash_subject sha256 (c_subject_key c) = pr_subject_key_hash r \<and> c_kind c = pr_kind r \<and>
         sort (c_sources c) = sort (pr_requested_sources r)
      then Inr (Some r, False) else Inl (IdempotencyConflict conflict_message)), d)"
  using create_replay [OF assms refl refl, of sha256 uuid now c d]
  by (auto simp: create_privacy_request_def existing_result_def same_command_def)

theorem idempotency_key_replay_witness:
  "create_privacy_request sample_digest sample_uuid 9 ''acme'' ''k1'' sample_access sample_cloud =
     (Inl (IdempotencyConflict conflict_message), sample_cloud) \<and>
   create_privacy_request sample_digest sample_uuid 9 ''acme'' ''k1'' sample_delete sample_cloud =
     (Inr (Some sample_request, False), sample_cloud)"
proof -
  have k: "pr_tenant_id sample_request = ''acme''" "pr_idempotency_key sample_request = ''k1''"
    "pr_kind sample_request = DELETE" "pr_requested_sources sample_request = c_sources sample_delete"
    "pr_subject_key_hash sample_request = hash_subject sample_digest (c_subject_key sample_delete)"
    by (simp_all add: sample_request_def new_request_def sample_delete_def)
  have "sample_request \<in> set (requests sample_cloud)" by (simp add: sample_intake)
  note * = idempotency_key_replay [OF sample_intake(2) this, of sample_digest sample_uuid 9, unfolded k]
  have "c_kind sample_delete = DELETE" "c_kind sample_access = ACCESS"
    by (simp_all add: sample_delete_def sample_access_def)
  then show ?thesis by (simp add: *)
qed

text \<open>
  C10. Two clients race on a fresh key: both find it unused in the state \<open>d0\<close>, and one of them
  commits first. The unique constraint refuses the second insert, and the loser answers with the
  winner's request or, for another command, with the conflict; it changes nothing, so one request
  exists under the key.
\<close>

theorem idempotency_race:
  assumes "keys_ok d" and "find_by_idempotency d0 tn key = Inr None"
    and "create_privacy_request_racing sha256 uuid now tn key c1 d0 d = (Inr (Some r, True), d1)"
  shows "create_privacy_request_racing sha256 uuid' now' tn key c2 d0 d1 = (existing_result sha256 r c2, d1) \<and>
    filter (\<lambda>q. idem_key q = (tn, key)) (requests d1) = [r]"
proof -
  have "\<not> isl (create_rows sha256 uuid now tn key c1 d)"
    using assms by (auto simp: create_privacy_request_racing_def existing_result_def
        split: sum.splits option.splits if_splits error.splits)
  then obtain d' where made: "create_rows sha256 uuid now tn key c1 d = Inr d'"
    by (cases "create_rows sha256 uuid now tn key c1 d") auto
  let ?r = "new_request sha256 uuid now tn key c1 d"
  have r: "r = ?r" "d1 = d'\<lparr>m_request_created := m_request_created d' @ [c_kind c1]\<rparr>"
    using create_fresh [OF assms(1,2) made] assms(3) by simp_all
  from create_rows_spec [OF made] assms(1) have "keys_ok d'" "requests d' = requests d @ [?r]" by fastforce+
  then have k: "keys_ok d1" and m: "r \<in> set (requests d1)" by (simp_all add: r keys_ok_def)
  have key: "pr_tenant_id r = tn" "pr_idempotency_key r = key" by (simp_all add: r new_request_def)
  then have "filter (\<lambda>q. idem_key q = (tn, key)) (requests d1) = [r]"
    using filter_key_singleton [of idem_key "requests d1" r] k m by (simp add: keys_ok_def idem_key_def)
  with create_raced [OF k assms(2) m key] show ?thesis by simp
qed

theorem idempotency_race_witness:
  "create_privacy_request_racing sample_digest sample_uuid 5 ''acme'' ''k1'' sample_access empty_cloud sample_cloud =
     (Inl (IdempotencyConflict conflict_message), sample_cloud)"
proof -
  have "find_by_idempotency empty_cloud ''acme'' ''k1'' = Inr None"
    by (simp add: find_by_idempotency_def empty_cloud_def)
  from idempotency_race [OF keys_ok_empty this sample_intake(1) [unfolded create_privacy_request_def]]
  have "create_privacy_request_racing sample_digest sample_uuid 5 ''acme'' ''k1'' sample_access empty_cloud sample_cloud
     = (existing_result sample_digest sample_request sample_access, sample_cloud)" by blast
  then show ?thesis
    by (simp add: existing_result_def same_command_def sample_request_def new_request_def sample_delete_def
        sample_access_def)
qed

text \<open>
  C26. What an accepted intake writes, in one transaction: one queued request with the normalised
  subject hash, one unleased pending task per source in the order of the command, one
  \<open>privacy_request.created\<close> event followed by one \<open>privacy_task.ready\<close> event per task, and one audit
  event; the rows that were there stay.
\<close>

theorem accepted_intake_rows:
  assumes "keys_ok d" and "create_privacy_request sha256 uuid now tn key c d = (Inr (Some r, True), d')"
  shows "requests d' = requests d @ [r] \<and> pr_status r = QUEUED \<and> pr_tenant_id r = tn \<and>
    pr_idempotency_key r = key \<and> pr_subject_key_hash r = hash_subject sha256 (c_subject_key c) \<and>
    pr_kind r = c_kind c \<and> pr_requested_sources r = c_sources c \<and> records d' = records d \<and>
    (\<exists>ts e0 es a. tasks d' = tasks d @ ts \<and> map rt_source ts = c_sources c \<and>
       list_all (initial_task now tn (pr_id r)) ts \<and>
       outbox d' = outbox d @ e0 # es \<and> ob_event_type e0 = ''privacy_request.created'' \<and>
       ob_aggregate_id e0 = pr_id r \<and> list_all2 (ready_event now) ts es \<and>
       audit d' = audit d @ [a] \<and> au_action a = ''request.created'' \<and> au_request_id a = pr_id r)"
proof -
  have "\<not> (\<exists>q. existing_result sha256 q c = Inr (Some r, True))"
    by (simp add: existing_result_def)
  with create_cases [OF assms(1,1) assms(2) [unfolded create_privacy_request_def]]
  obtain d1 where made: "create_rows sha256 uuid now tn key c d = Inr d1"
    and d': "d' = d1\<lparr>m_request_created := m_request_created d1 @ [c_kind c]\<rparr>"
    and r: "r = new_request sha256 uuid now tn key c d"
    by (metis Inl_Inr_False Inr_inject option.inject prod.inject)
  from create_rows_spec [OF made] obtain ts es a n where
    "d1 = d\<lparr>requests := requests d @ [r], tasks := tasks d @ ts, outbox := outbox d @ es,
       audit := audit d @ [a], fresh := n\<rparr>" "map rt_source ts = c_sources c"
    "list_all (initial_task now tn (uuid (fresh d))) ts"
    "\<exists>e0 es'. es = e0 # es' \<and> ob_event_type e0 = ''privacy_request.created'' \<and>
        ob_aggregate_id e0 = uuid (fresh d) \<and> list_all2 (ready_event now) ts es'"
    "au_request_id a = uuid (fresh d)" "au_action a = ''request.created''"
    unfolding r by blast
  then show ?thesis by (auto simp: d' r new_request_def)
qed

theorem accepted_intake_rows_witness:
  "requests sample_cloud = requests empty_cloud @ [sample_request] \<and>
   (\<exists>ts. tasks sample_cloud = tasks empty_cloud @ ts \<and> map rt_source ts = [''jobs'', ''devices''])"
  using accepted_intake_rows [OF keys_ok_empty sample_intake(1)] by (auto simp: sample_delete_def)

text \<open>
  The intake is atomic: whenever it answers with an error, or with a request it did not create,
  all tables, the audit chain, the outbox and the metrics are exactly as before.
\<close>

theorem intake_atomic:
  assumes "keys_ok d0" and "keys_ok d"
    and "create_privacy_request_racing sha256 uuid now tn key c d0 d = (res, d')"
    and "\<forall>r. res \<noteq> Inr (r, True)"
  shows "d' = d"
  by (rule create_cases [OF assms(1-3)]) (use assms(4) in auto)

theorem intake_atomic_witness:
  "snd (create_privacy_request_racing sample_digest sample_uuid 5 ''acme'' ''k1'' sample_delete sample_cloud
     sample_cloud) = sample_cloud"
proof (rule intake_atomic [OF sample_intake(2) sample_intake(2), of sample_digest sample_uuid 5])
  have "pr_tenant_id sample_request = ''acme''" "pr_idempotency_key sample_request = ''k1''"
    by (simp_all add: sample_request_def new_request_def)
  then have *: "create_privacy_request_racing sample_digest sample_uuid 5 ''acme'' ''k1'' sample_delete sample_cloud
      sample_cloud = (existing_result sample_digest sample_request sample_delete, sample_cloud)"
    using create_replay [OF sample_intake(2), of sample_request] by (simp add: sample_intake)
  show "create_privacy_request_racing sample_digest sample_uuid 5 ''acme'' ''k1'' sample_delete sample_cloud
      sample_cloud = (existing_result sample_digest sample_request sample_delete,
        snd (create_privacy_request_racing sample_digest sample_uuid 5 ''acme'' ''k1'' sample_delete sample_cloud
      sample_cloud))" by (simp add: *)
  show "\<forall>r. existing_result sample_digest sample_request sample_delete \<noteq> Inr (r, True)"
    by (simp add: existing_result_def)
qed



text \<open>
  Subjects are compared after normalisation: two spellings have the same hash exactly when they
  agree after stripping white space and lowering case, unless the digest has a collision.
\<close>

theorem hash_subject_normal_form:
  assumes "\<not> collision sha256"
  shows "hash_subject sha256 x = hash_subject sha256 y \<longleftrightarrow> py_lower (py_strip x) = py_lower (py_strip y)"
proof
  assume "hash_subject sha256 x = hash_subject sha256 y"
  then have "sha256 (utf8_encode (py_lower (py_strip x))) = sha256 (utf8_encode (py_lower (py_strip y)))"
    unfolding hash_subject_def Let_def by (rule hexdigest_inj)
  with assms have "utf8_encode (py_lower (py_strip x)) = utf8_encode (py_lower (py_strip y))"
    unfolding collision_def by blast
  then show "py_lower (py_strip x) = py_lower (py_strip y)" by (rule utf8_encode_inj)
qed (simp add: hash_subject_def)

theorem hash_subject_normal_form_witness:
  "hash_subject sample_digest '' Ada@Example.org '' = hash_subject sample_digest ''ada@example.org'' \<and>
   hash_subject sample_digest ''ada'' \<noteq> hash_subject sample_digest ''bob''"
proof -
  have 1: "py_lower (py_strip '' Ada@Example.org '') = py_lower (py_strip ''ada@example.org'')"
    and 2: "py_lower (py_strip ''ada'') \<noteq> py_lower (py_strip ''bob'')" by code_simp+
  then show ?thesis using hash_subject_normal_form [OF sample_digest_injective] by blast
qed

text \<open>
  The sources of a command: an unknown source is refused, and otherwise the command keeps the
  first occurrence of each source in the order given.
\<close>

theorem validate_sources_correct:
  "validate_sources value = (if set value \<subseteq> set allowed_sources then Inr (dict_fromkeys value)
     else Inl (ValueError (''unknown sources: '' @ py_repr (JArr (map JStr (sort (filter
       (\<lambda>s. s \<notin> set allowed_sources) (dict_fromkeys value)))))))) \<and>
   dict_fromkeys value = rev (remdups (rev value)) \<and> distinct (dict_fromkeys value) \<and>
   set (dict_fromkeys value) = set value"
  by (auto simp: validate_sources_def Let_def filter_empty_conv dict_fromkeys_first)

text \<open>
  C38. Reads are confined to the tenant: a request is found by the identifier only under its own
  tenant, and every listed request belongs to the tenant and has the status asked for.
\<close>

theorem reads_tenant_scoped:
  assumes "keys_ok d"
  shows "(get_privacy_request d tn i = Inr (Some r) \<longleftrightarrow> r \<in> set (requests d) \<and> pr_id r = i \<and> pr_tenant_id r = tn) \<and>
    (r \<in> set (list_privacy_requests d tn st limit offset) \<longrightarrow>
       r \<in> set (requests d) \<and> pr_tenant_id r = tn \<and> (\<forall>s. st = Some s \<longrightarrow> pr_status r = s))"
proof -
  have "get_privacy_request d tn i = Inr (Some r) \<Longrightarrow> r \<in> set (requests d) \<and> pr_id r = i \<and> pr_tenant_id r = tn"
    unfolding get_privacy_request_def scalar_one_or_none_Inr by (drule arg_cong [of _ _ set]) auto
  then show ?thesis
    using get_privacy_request_Some [OF assms] list_privacy_requests_tenant by blast
qed

theorem reads_tenant_scoped_witness:
  "get_privacy_request sample_cloud ''acme'' (sample_uuid 0) = Inr (Some sample_request) \<and>
   get_privacy_request sample_cloud ''other'' (sample_uuid 0) \<noteq> Inr (Some sample_request)"
proof -
  have "pr_tenant_id sample_request = ''acme''" "pr_id sample_request = sample_uuid 0"
    by (simp_all add: sample_request_def new_request_def) (simp_all add: empty_cloud_def)
  then show ?thesis
    using reads_tenant_scoped [OF sample_intake(2)] by (auto simp: sample_intake(3))
qed



end
