(* ===== verification/Json_Loads.thy ===== *)
theory Json_Loads
  imports Json
begin

text \<open>
  \<open>json.loads\<close> of the standard library, as the queue adapter uses it on a message body: the
  recursive scanner with its white space, literals, numbers, strings, arrays and objects. The
  recursion has fuel; twice the length of the text (plus two) is enough for every text the encoder
  writes, which is what the round trip at the end shows. A number with a fraction or an exponent is
  kept as its text. An escape for a code point above 255 is outside the model of text.
\<close>

section \<open>The scanner\<close>

definition json_space :: "char \<Rightarrow> bool" where
  "json_space c \<longleftrightarrow> (of_char c :: nat) \<in> {32, 9, 10, 13}"

definition skip_ws :: "string \<Rightarrow> string" where
  "skip_ws cs = dropWhile json_space cs"

definition digits_value :: "string \<Rightarrow> nat" where
  "digits_value s = nat_of_digits 0 s"

text \<open>The digits of an integer part: a zero alone, or a run that does not start with zero.\<close>

definition scan_digits :: "string \<Rightarrow> (string \<times> string) option" where
  "scan_digits cs =
     (case cs of
        [] \<Rightarrow> None
      | c # r \<Rightarrow>
          if c = CHR ''0'' then Some (''0'', r)
          else if is_digit c then Some (takeWhile is_digit cs, dropWhile is_digit cs)
          else None)"

definition scan_fraction :: "string \<Rightarrow> string \<times> string" where
  "scan_fraction cs =
     (case cs of
        c # d # r \<Rightarrow>
          if c = CHR ''.'' \<and> is_digit d then (c # takeWhile is_digit (d # r), dropWhile is_digit (d # r))
          else ([], cs)
      | _ \<Rightarrow> ([], cs))"

definition scan_exponent :: "string \<Rightarrow> string \<times> string" where
  "scan_exponent cs =
     (case cs of
        c # r \<Rightarrow>
          if c = CHR ''e'' \<or> c = CHR ''E'' then
            (let (sign, r1) = (case r of
                 s # r' \<Rightarrow> if s = CHR ''+'' \<or> s = CHR ''-'' then ([s], r') else ([], r)
               | [] \<Rightarrow> ([], r))
             in if takeWhile is_digit r1 = [] then ([], cs)
                else (c # sign @ takeWhile is_digit r1, dropWhile is_digit r1))
          else ([], cs)
      | [] \<Rightarrow> ([], cs))"

definition scan_number :: "string \<Rightarrow> (json \<times> string) option" where
  "scan_number cs =
     (let (neg, r0) = (case cs of c # r \<Rightarrow> if c = CHR ''-'' then (True, r) else (False, cs) | [] \<Rightarrow> (False, cs))
      in case scan_digits r0 of
           None \<Rightarrow> None
         | Some (ds, r1) \<Rightarrow>
             (let (frac, r2) = scan_fraction r1; (ex, r3) = scan_exponent r2 in
              if frac = [] \<and> ex = []
              then Some (JInt (if neg then - int (digits_value ds) else int (digits_value ds)), r3)
              else Some (JFloat ((if neg then ''-'' else []) @ ds @ frac @ ex), r3)))"

text \<open>\<open>dict(pairs)\<close>: a repeated key keeps its first place and takes the last value.\<close>

fun dict_put :: "string \<Rightarrow> json \<Rightarrow> (string \<times> json) list \<Rightarrow> (string \<times> json) list" where
  "dict_put k v [] = [(k, v)]"
| "dict_put k v ((k', v') # kvs) = (if k' = k then (k, v) # kvs else (k', v') # dict_put k v kvs)"

definition dict_of :: "(string \<times> json) list \<Rightarrow> (string \<times> json) list" where
  "dict_of pairs = foldl (\<lambda>d (k, v). dict_put k v d) [] pairs"

fun parse_value :: "nat \<Rightarrow> string \<Rightarrow> (json \<times> string) option"
  and parse_items :: "nat \<Rightarrow> string \<Rightarrow> (json list \<times> string) option"
  and parse_members :: "nat \<Rightarrow> string \<Rightarrow> ((string \<times> json) list \<times> string) option"
where
  "parse_value 0 cs = None"
| "parse_value (Suc n) cs =
     (if py_startswith cs [CHR 0x22] then map_option (\<lambda>(s, r). (JStr s, r)) (scan_string (tl cs))
      else if py_startswith cs ''{'' then
        (let r = skip_ws (tl cs) in
         if py_startswith r ''}'' then Some (JObj [], tl r)
         else map_option (\<lambda>(kvs, r'). (JObj (dict_of kvs), r')) (parse_members n r))
      else if py_startswith cs ''['' then
        (let r = skip_ws (tl cs) in
         if py_startswith r '']'' then Some (JArr [], tl r)
         else map_option (\<lambda>(vs, r'). (JArr vs, r')) (parse_items n r))
      else if py_startswith cs ''null'' then Some (JNull, drop 4 cs)
      else if py_startswith cs ''true'' then Some (JBool True, drop 4 cs)
      else if py_startswith cs ''false'' then Some (JBool False, drop 5 cs)
      else if py_startswith cs ''NaN'' then Some (JFloat ''nan'', drop 3 cs)
      else if py_startswith cs ''Infinity'' then Some (JFloat ''inf'', drop 8 cs)
      else if py_startswith cs ''-Infinity'' then Some (JFloat ''-inf'', drop 9 cs)
      else scan_number cs)"
| "parse_items 0 cs = None"
| "parse_items (Suc n) cs =
     (case parse_value n cs of
        None \<Rightarrow> None
      | Some (v, r) \<Rightarrow>
          (let r1 = skip_ws r in
           if py_startswith r1 '']'' then Some ([v], tl r1)
           else if py_startswith r1 '','' then
             map_option (\<lambda>(vs, r'). (v # vs, r')) (parse_items n (skip_ws (tl r1)))
           else None))"
| "parse_members 0 cs = None"
| "parse_members (Suc n) cs =
     (if \<not> py_startswith cs [CHR 0x22] then None
      else case scan_string (tl cs) of
        None \<Rightarrow> None
      | Some (k, r) \<Rightarrow>
          (let r1 = skip_ws r in
           if \<not> py_startswith r1 '':'' then None
           else case parse_value n (skip_ws (tl r1)) of
             None \<Rightarrow> None
           | Some (v, r2) \<Rightarrow>
               (let r3 = skip_ws r2 in
                if py_startswith r3 ''}'' then Some ([(k, v)], tl r3)
                else if py_startswith r3 '','' then
                  map_option (\<lambda>(kvs, r'). ((k, v) # kvs, r')) (parse_members n (skip_ws (tl r3)))
                else None)))"

definition json_loads :: "string \<Rightarrow> error + json" where
  "json_loads s =
     (case parse_value (2 * length s + 2) (skip_ws s) of
        None \<Rightarrow> Inl (ValueError ''JSONDecodeError'')
      | Some (v, r) \<Rightarrow> if skip_ws r = [] then Inr v else Inl (ValueError ''JSONDecodeError: Extra data''))"

section \<open>Round trip\<close>

text \<open>The value with the keys of its objects sorted, as \<open>sort_keys=True\<close> writes it.\<close>

fun sort_json :: "json \<Rightarrow> json" where
  "sort_json (JArr vs) = JArr (map sort_json vs)"
| "sort_json (JObj kvs) = JObj (sort_key fst (map (\<lambda>kv. (fst kv, sort_json (snd kv))) kvs))"
| "sort_json v = v"

text \<open>A value as Python holds it: the keys of an object are distinct. Floats are left out.\<close>

fun plain_json :: "json \<Rightarrow> bool" where
  "plain_json (JArr vs) = list_all plain_json vs"
| "plain_json (JObj kvs) = (distinct (map fst kvs) \<and> list_all (\<lambda>kv. plain_json (snd kv)) kvs)"
| "plain_json (JFloat r) = False"
| "plain_json v = True"

text \<open>What may follow a value: nothing that a number could swallow.\<close>

definition stops :: "string \<Rightarrow> bool" where
  "stops r \<longleftrightarrow> (case r of [] \<Rightarrow> True | c # _ \<Rightarrow> \<not> is_digit c \<and> c \<notin> {CHR ''.'', CHR ''e'', CHR ''E''})"

lemma stops_simps [simp]:
  "stops []" "stops (CHR '','' # r)" "stops (CHR '']'' # r)" "stops (CHR ''}'' # r)"
  by (simp_all add: stops_def is_digit_def)

lemma skip_ws_id: "cs \<noteq> [] \<Longrightarrow> \<not> json_space (hd cs) \<Longrightarrow> skip_ws cs = cs"
  by (cases cs) (simp_all add: skip_ws_def)

lemma py_startswith_char [simp]: "py_startswith (c # cs) [d] \<longleftrightarrow> c = d" "\<not> py_startswith [] [d]"
  by (auto simp: py_startswith_def)

lemma py_startswith_Cons: "py_startswith (c # cs) (d # p) \<longleftrightarrow> c = d \<and> py_startswith cs p"
  by (simp add: py_startswith_def)

lemma skip_ws_punct [simp]:
  "skip_ws (CHR '','' # r) = CHR '','' # r" "skip_ws (CHR '']'' # r) = CHR '']'' # r"
  "skip_ws (CHR ''}'' # r) = CHR ''}'' # r" "skip_ws (CHR '':'' # r) = CHR '':'' # r"
  "skip_ws (CHR 0x22 # r) = CHR 0x22 # r" "skip_ws [] = []"
  by (simp_all add: skip_ws_def json_space_def)

lemma takeWhile_digits_stops:
  assumes "list_all is_digit ds" and "stops r"
  shows "takeWhile is_digit (ds @ r) = ds" and "dropWhile is_digit (ds @ r) = r"
  using assms by (induction ds) (auto simp: stops_def split: list.splits)

lemma scan_fraction_stops: "stops r \<Longrightarrow> scan_fraction r = ([], r)"
  by (auto simp: scan_fraction_def stops_def split: list.splits)

lemma scan_exponent_stops: "stops r \<Longrightarrow> scan_exponent r = ([], r)"
  by (auto simp: scan_exponent_def stops_def split: list.splits)

lemma str_of_nat_Cons:
  obtains c cs where "str_of_nat n = c # cs" "is_digit c" "c = CHR ''0'' \<longleftrightarrow> n = 0" "n = 0 \<longrightarrow> cs = []"
proof (induction n arbitrary: thesis rule: str_of_nat.induct)
  case (1 n)
  show ?case
  proof (cases "n < 10")
    case True
    have "char_of (48 + n) = (CHR ''0'' :: char) \<longleftrightarrow> n = 0"
      using True by (auto simp: char_eq_iff of_char_char_of_nat)
    with True show ?thesis
      by (intro 1(2) [of "char_of (48 + n)" "[]"])
         (simp_all add: str_of_nat.simps [of n] is_digit_def of_char_char_of_nat)
  next
    case False
    from 1(1) [OF False] obtain c cs where
      "str_of_nat (n div 10) = c # cs" "is_digit c" "c = CHR ''0'' \<longleftrightarrow> n div 10 = 0" by blast
    with False show ?thesis
      by (intro 1(2) [of c "cs @ [char_of (48 + n mod 10)]"]) (simp_all add: str_of_nat.simps [of n])
  qed
qed

lemma scan_digits_str: "stops r \<Longrightarrow> scan_digits (str_of_nat n @ r) = Some (str_of_nat n, r)"
proof -
  assume r: "stops r"
  obtain c cs where *: "str_of_nat n = c # cs" "is_digit c" "c = CHR ''0'' \<longleftrightarrow> n = 0" "n = 0 \<longrightarrow> cs = []"
    by (rule str_of_nat_Cons)
  show ?thesis
  proof (cases "n = 0")
    case True
    with * show ?thesis by (simp add: scan_digits_def)
  next
    case False
    with * takeWhile_digits_stops [OF str_of_nat_digits r, of n] show ?thesis
      by (simp add: scan_digits_def)
  qed
qed

lemma scan_number_str: "stops r \<Longrightarrow> scan_number (str_of_int i @ r) = Some (JInt i, r)"
proof -
  assume r: "stops r"
  obtain c cs where "str_of_nat (nat i) = c # cs" "is_digit c" by (rule str_of_nat_Cons)
  then show ?thesis
    using scan_digits_str [OF r, of "nat i"] scan_digits_str [OF r, of "nat (- i)"]
      nat_of_digits_str_of_nat [of "nat i"]
    by (auto simp: scan_number_def str_of_int_def scan_fraction_stops [OF r] scan_exponent_stops [OF r]
        digits_value_def nat_of_digits_str_of_nat is_digit_def split: list.splits)
qed

lemma dict_put_new: "k \<notin> fst ` set d \<Longrightarrow> dict_put k v d = d @ [(k, v)]"
  by (induction k v d rule: dict_put.induct) auto

lemma dict_of_distinct: "distinct (map fst kvs) \<Longrightarrow> dict_of kvs = kvs"
proof -
  have "foldl (\<lambda>d (k, v). dict_put k v d) acc kvs = acc @ kvs"
    if "distinct (map fst (acc @ kvs))" for acc kvs
    using that
    by (induction kvs arbitrary: acc) (auto simp: dict_put_new)
  then show "distinct (map fst kvs) \<Longrightarrow> dict_of kvs = kvs" by (simp add: dict_of_def)
qed

text \<open>How the text of a value begins.\<close>

lemma json_string_Cons: "json_string ascii s = CHR 0x22 # concat (map (escape_char ascii) s) @ [CHR 0x22]"
  by (simp add: json_string_def)

lemma str_of_int_Cons:
  obtains c cs where "str_of_int i = c # cs" "is_digit c \<or> c = CHR ''-'' \<and> (\<exists>d r. cs = d # r \<and> is_digit d)"
proof (cases "i < 0")
  case True
  obtain c cs where "str_of_nat (nat (- i)) = c # cs" "is_digit c" by (rule str_of_nat_Cons)
  with True that show ?thesis by (simp add: str_of_int_def)
next
  case False
  obtain c cs where "str_of_nat (nat i) = c # cs" "is_digit c" by (rule str_of_nat_Cons)
  with False that show ?thesis by (simp add: str_of_int_def)
qed

lemma dumps_head:
  assumes "plain_json v"
  obtains c cs where "json_dumps ascii v = c # cs" "\<not> json_space c" "c \<noteq> CHR '']''" "c \<noteq> CHR ''}''"
proof (cases v)
  case (JInt i)
  obtain c cs where "str_of_int i = c # cs" "is_digit c \<or> c = CHR ''-''" by (rule str_of_int_Cons) blast
  moreover from this have "\<not> json_space c \<and> c \<noteq> CHR '']'' \<and> c \<noteq> CHR ''}''"
    by (auto simp: is_digit_def json_space_def)
  ultimately show ?thesis using JInt that by simp
next
  case (JBool b)
  with that show ?thesis by (cases b) (simp_all add: json_space_def)
qed (use assms that in \<open>auto simp: json_string_Cons json_object_def json_space_def split: if_splits\<close>)

lemma skip_ws_dumps: "plain_json v \<Longrightarrow> skip_ws (json_dumps ascii v @ r) = json_dumps ascii v @ r"
  by (erule dumps_head [of _ ascii]) (simp add: skip_ws_def)

lemma not_startswith_dumps:
  assumes "plain_json v"
  shows "\<not> py_startswith (json_dumps ascii v @ r) '']''" "\<not> py_startswith (json_dumps ascii v @ r) ''}''"
  using assms by (auto elim!: dumps_head [of _ ascii])

lemma parse_items_dumps:
  assumes "\<And>v n r. v \<in> set vs \<Longrightarrow> stops r \<Longrightarrow> 2 * length (json_dumps ascii v) \<le> n \<Longrightarrow>
      parse_value n (json_dumps ascii v @ r) = Some (sort_json v, r)"
    and "vs \<noteq> []" and "list_all plain_json vs"
    and "2 * length (join '','' (map (json_dumps ascii) vs)) + 1 \<le> n"
  shows "parse_items n (join '','' (map (json_dumps ascii) vs) @ CHR '']'' # r) = Some (map sort_json vs, r)"
  using assms
proof (induction vs arbitrary: n)
  case Nil
  then show ?case by simp
next
  case (Cons v vs)
  from Cons.prems(4) obtain m where n: "n = Suc m" by (cases n) auto
  show ?case
  proof (cases "vs = []")
    case True
    with Cons.prems(1) [of v "CHR '']'' # r" m] Cons.prems(4) n show ?thesis by simp
  next
    case False
    let ?rest = "join '','' (map (json_dumps ascii) vs)"
    have j: "join '','' (map (json_dumps ascii) (v # vs)) = json_dumps ascii v @ CHR '','' # ?rest"
      using False by (simp add: join_Cons)
    have v: "parse_value m (json_dumps ascii v @ CHR '','' # ?rest @ CHR '']'' # r) =
        Some (sort_json v, CHR '','' # ?rest @ CHR '']'' # r)"
      using Cons.prems(1) [of v _ m] Cons.prems(4) n j by simp
    have vs: "parse_items m (?rest @ CHR '']'' # r) = Some (map sort_json vs, r)"
      by (rule Cons.IH) (use Cons.prems False n j in \<open>simp_all\<close>)
    obtain w ws where w: "vs = w # ws" using False by (cases vs) auto
    then have "\<exists>q. ?rest = json_dumps ascii w @ q" by (cases ws) auto
    then have "skip_ws (?rest @ CHR '']'' # r) = ?rest @ CHR '']'' # r"
      using skip_ws_dumps [of w ascii] Cons.prems(3) w by auto
    with v vs n j show ?thesis by simp
  qed
qed

definition member_text :: "bool \<Rightarrow> string \<times> json \<Rightarrow> string" where
  "member_text ascii kv = json_string ascii (fst kv) @ '':'' @ json_dumps ascii (snd kv)"

lemma member_text_Cons:
  "member_text ascii kv @ r = CHR 0x22 # concat (map (escape_char ascii) (fst kv)) @ CHR 0x22 # CHR '':'' #
     json_dumps ascii (snd kv) @ r"
  by (simp add: member_text_def json_string_Cons)

lemma parse_members_dumps:
  assumes "\<And>kv n r. kv \<in> set kvs \<Longrightarrow> stops r \<Longrightarrow> 2 * length (json_dumps ascii (snd kv)) \<le> n \<Longrightarrow>
      parse_value n (json_dumps ascii (snd kv) @ r) = Some (sort_json (snd kv), r)"
    and "kvs \<noteq> []" and "list_all (\<lambda>kv. plain_json (snd kv)) kvs"
    and "2 * length (join '','' (map (member_text ascii) kvs)) + 1 \<le> n"
  shows "parse_members n (join '','' (map (member_text ascii) kvs) @ CHR ''}'' # r) =
    Some (map (\<lambda>kv. (fst kv, sort_json (snd kv))) kvs, r)"
  using assms
proof (induction kvs arbitrary: n)
  case Nil
  then show ?case by simp
next
  case (Cons kv kvs)
  from Cons.prems(4) obtain m where n: "n = Suc m" by (cases n) auto
  have sk: "skip_ws (json_dumps ascii (snd kv) @ q) = json_dumps ascii (snd kv) @ q" for q
    using Cons.prems(3) by (simp add: skip_ws_dumps)
  have key: "scan_string (concat (map (escape_char ascii) (fst kv)) @ CHR 0x22 # q) = Some (fst kv, q)" for q
    by (rule scan_string_concat)
  have len: "length (json_dumps ascii (snd kv)) \<le> length (member_text ascii kv)" by (simp add: member_text_def)
  show ?case
  proof (cases "kvs = []")
    case True
    then have "parse_value m (json_dumps ascii (snd kv) @ CHR ''}'' # r) = Some (sort_json (snd kv), CHR ''}'' # r)"
      using Cons.prems(1) [of kv _ m] Cons.prems(4) n len by simp
    with True show ?thesis by (simp add: n member_text_Cons key sk)
  next
    case False
    let ?rest = "join '','' (map (member_text ascii) kvs)"
    have j: "join '','' (map (member_text ascii) (kv # kvs)) = member_text ascii kv @ CHR '','' # ?rest"
      using False by (simp add: join_Cons)
    have v: "parse_value m (json_dumps ascii (snd kv) @ CHR '','' # ?rest @ CHR ''}'' # r) =
        Some (sort_json (snd kv), CHR '','' # ?rest @ CHR ''}'' # r)"
      using Cons.prems(1) [of kv _ m] Cons.prems(4) n j len by simp
    have vs: "parse_members m (?rest @ CHR ''}'' # r) = Some (map (\<lambda>kv. (fst kv, sort_json (snd kv))) kvs, r)"
      by (rule Cons.IH) (use Cons.prems False n j in \<open>simp_all\<close>)
    obtain w ws where w: "kvs = w # ws" using False by (cases kvs) auto
    then have "\<exists>q. ?rest = member_text ascii w @ q" by (cases ws) auto
    then have "skip_ws (?rest @ CHR ''}'' # r) = ?rest @ CHR ''}'' # r"
      by (auto simp: member_text_Cons)
    with v vs show ?thesis by (simp only: j append_assoc append_Cons member_text_Cons) (simp add: n key sk)
  qed
qed

lemma insort_key_map_snd:
  "insort_key fst (fst kv, f (snd kv)) (map (\<lambda>kv. (fst kv, f (snd kv))) kvs) =
   map (\<lambda>kv. (fst kv, f (snd kv))) (insort_key fst kv kvs)"
  by (induction kvs) auto

lemma sort_key_map_snd:
  "sort_key fst (map (\<lambda>kv. (fst kv, f (snd kv))) kvs) = map (\<lambda>kv. (fst kv, f (snd kv))) (sort_key fst kvs)"
  by (induction kvs) (simp_all add: insort_key_map_snd)

lemma json_dumps_object:
  "json_dumps ascii (JObj kvs) = ''{'' @ join '','' (map (member_text ascii) (sort_key fst kvs)) @ ''}''"
  by (simp add: json_object_def sort_key_map_snd [of "json_dumps ascii"] o_def member_text_def[abs_def])

text \<open>The scanner reads back what the encoder wrote, whatever follows.\<close>

lemma parse_value_int:
  assumes "stops r"
  shows "parse_value (Suc m) (str_of_int i @ r) = Some (JInt i, r)"
proof -
  obtain c cs where *: "str_of_int i = c # cs" "is_digit c \<or> c = CHR ''-'' \<and> (\<exists>d r. cs = d # r \<and> is_digit d)"
    by (rule str_of_int_Cons)
  have "c \<notin> set ''{[ntfNI'' \<and> c \<noteq> CHR 0x22" using *(2) by (auto simp: is_digit_def)
  moreover have "\<not> py_startswith (c # cs @ r) ''-Infinity''"
    using *(2) by (auto simp: py_startswith_def is_digit_def)
  ultimately have "parse_value (Suc m) (c # cs @ r) = scan_number (c # cs @ r)"
    by (auto simp: py_startswith_Cons)
  with * scan_number_str [OF assms, of i] show ?thesis by simp
qed

lemma parse_value_array:
  assumes "vs \<noteq> []" and "list_all plain_json vs"
    and "parse_items m (join '','' (map (json_dumps ascii) vs) @ CHR '']'' # r) = Some (map sort_json vs, r)"
  shows "parse_value (Suc m) (json_dumps ascii (JArr vs) @ r) = Some (sort_json (JArr vs), r)"
proof -
  let ?t = "join '','' (map (json_dumps ascii) vs) @ CHR '']'' # r"
  obtain w ws where w: "vs = w # ws" using assms(1) by (cases vs) auto
  then have "\<exists>q. ?t = json_dumps ascii w @ q" by (cases ws) auto
  moreover have "plain_json w" using assms(2) w by simp
  ultimately have "skip_ws ?t = ?t" "\<not> py_startswith ?t '']''"
    using skip_ws_dumps [of w ascii] not_startswith_dumps [of w ascii] by auto
  with assms(3) show ?thesis by (simp add: py_startswith_def [of "CHR ''['' # _"])
qed

lemma parse_value_object:
  assumes "kvs \<noteq> []" and "distinct (map fst kvs)"
    and "parse_members m (join '','' (map (member_text ascii) (sort_key fst kvs)) @ CHR ''}'' # r) =
      Some (map (\<lambda>kv. (fst kv, sort_json (snd kv))) (sort_key fst kvs), r)"
  shows "parse_value (Suc m) (json_dumps ascii (JObj kvs) @ r) = Some (sort_json (JObj kvs), r)"
proof -
  let ?kvs = "sort_key fst kvs"
  let ?t = "join '','' (map (member_text ascii) ?kvs) @ CHR ''}'' # r"
  have "?kvs \<noteq> []" using assms(1) by (metis set_empty set_sort)
  then obtain w ws where w: "?kvs = w # ws" by (cases ?kvs) auto
  then have "\<exists>q. ?t = member_text ascii w @ q" by (cases ws) auto
  then obtain q where q: "?t = CHR 0x22 # q" by (auto simp: member_text_Cons)
  have d: "dict_of (map (\<lambda>kv. (fst kv, sort_json (snd kv))) ?kvs) = map (\<lambda>kv. (fst kv, sort_json (snd kv))) ?kvs"
    using assms(2) by (intro dict_of_distinct) (simp add: o_def distinct_map)
  have "parse_value (Suc m) (CHR ''{'' # ?t) = Some (JObj (map (\<lambda>kv. (fst kv, sort_json (snd kv))) ?kvs), r)"
    using assms(3) d unfolding q by simp
  then show ?thesis
    by (simp add: json_dumps_object sort_key_map_snd del: json_dumps.simps)
qed

lemma parse_value_dumps:
  "plain_json v \<Longrightarrow> stops r \<Longrightarrow> 2 * length (json_dumps ascii v) \<le> n \<Longrightarrow>
   parse_value n (json_dumps ascii v @ r) = Some (sort_json v, r)"
proof (induction v arbitrary: n r)
  case JNull
  then obtain m where "n = Suc m" by (cases n) auto
  then show ?case by (simp add: py_startswith_def)
next
  case (JBool b)
  then obtain m where "n = Suc m" by (cases n) (auto split: if_splits)
  then show ?case by (simp add: py_startswith_def)
next
  case (JInt i)
  have "str_of_int i \<noteq> []" using str_of_int_Cons [of i] by (metis list.discI)
  with JInt.prems(3) obtain m where "n = Suc m" by (cases n) auto
  then show ?case using parse_value_int [OF JInt.prems(2)] by simp
next
  case (JFloat x)
  then show ?case by simp
next
  case (JStr s)
  then obtain m where "n = Suc m" by (cases n) (auto simp: json_string_Cons)
  then show ?case by (simp add: json_string_Cons scan_string_concat)
next
  case (JArr vs)
  then obtain m where n: "n = Suc m" by (cases n) auto
  show ?case
  proof (cases "vs = []")
    case False
    have "parse_items m (join '','' (map (json_dumps ascii) vs) @ CHR '']'' # r) = Some (map sort_json vs, r)"
      by (rule parse_items_dumps) (use JArr False n in \<open>auto simp: list_all_iff\<close>)
    from parse_value_array [OF False _ this] show ?thesis using JArr.prems(1) by (simp add: n list_all_iff)
  qed (simp add: n py_startswith_def)
next
  case (JObj kvs)
  then obtain m where n: "n = Suc m" by (cases n) (auto simp: json_dumps_object simp del: json_dumps.simps)
  show ?case
  proof (cases "kvs = []")
    case False
    let ?kvs = "sort_key fst kvs"
    have ne: "?kvs \<noteq> []" using False by (metis set_empty set_sort)
    have mem: "parse_members m (join '','' (map (member_text ascii) ?kvs) @ CHR ''}'' # r) =
        Some (map (\<lambda>kv. (fst kv, sort_json (snd kv))) ?kvs, r)"
    proof (rule parse_members_dumps)
      show "2 * length (join '','' (map (member_text ascii) ?kvs)) + 1 \<le> m"
        using JObj.prems(3) unfolding json_dumps_object n by simp
    qed (use JObj.IH JObj.prems(1) ne in \<open>auto simp: list_all_iff\<close>)
    show ?thesis unfolding n by (rule parse_value_object [OF False _ mem]) (use JObj.prems(1) in simp)
  qed (simp add: n py_startswith_def json_object_def)
qed

lemma json_loads_dumps: "plain_json v \<Longrightarrow> json_loads (json_dumps ascii v) = Inr (sort_json v)"
  using parse_value_dumps [of v "[]" ascii "2 * length (json_dumps ascii v) + 2"] skip_ws_dumps [of v ascii "[]"]
  by (simp add: json_loads_def)

end
