(* ===== verification/Queue.thy ===== *)
theory Queue
  imports Json_Loads Config
begin

text \<open>
  \<open>services/queue.py\<close>: the queue protocol as a record of operations on a queue state, the in-process
  adapter, the SQS adapter over a client that is an argument, and the consumer that extends the
  visibility of a message while its handler runs. \<open>task_queue_laws\<close> is what the relay and the
  workers rely on.
\<close>

section \<open>Messages and the protocol\<close>

record queue_message =
  message_id :: string
  receipt_handle :: string
  body :: json
  receive_count :: int

record 'q task_queue =
  publish :: "json \<Rightarrow> 'q \<Rightarrow> (error + string) \<times> 'q"
  receive :: "int \<Rightarrow> int \<Rightarrow> 'q \<Rightarrow> (error + queue_message list) \<times> 'q"
  heartbeat :: "string \<Rightarrow> int \<Rightarrow> 'q \<Rightarrow> (error + unit) \<times> 'q"
  ack :: "string \<Rightarrow> 'q \<Rightarrow> (error + unit) \<times> 'q"

text \<open>\<open>d[k]\<close> on a value: a missing key is an error, and so is a value that is not a dict.\<close>

fun json_index :: "json \<Rightarrow> string \<Rightarrow> error + json" where
  "json_index (JObj kvs) k = (case map_of kvs k of None \<Rightarrow> Inl (KeyError k) | Some v \<Rightarrow> Inr v)"
| "json_index v k = Inl (TypeError ''indices'')"

section \<open>The in-process queue\<close>

record local_queue =
  lq_messages :: "queue_message list"
  lq_acked :: "string list"
  lq_heartbeats :: "(string \<times> int) list"

definition empty_local_queue :: local_queue where
  "empty_local_queue = \<lparr>lq_messages = [], lq_acked = [], lq_heartbeats = []\<rparr>"

definition local_publish :: "json \<Rightarrow> local_queue \<Rightarrow> (error + string) \<times> local_queue" where
  "local_publish b q =
     (case json_index b ''event_id'' of
        Inl e \<Rightarrow> (Inl e, q)
      | Inr v \<Rightarrow>
          (let event_id = py_str v in
           (Inr event_id, q\<lparr>lq_messages := lq_messages q @
              [\<lparr>message_id = event_id, receipt_handle = event_id, body = b, receive_count = 1\<rparr>]\<rparr>)))"

definition local_receive :: "int \<Rightarrow> int \<Rightarrow> local_queue \<Rightarrow> (error + queue_message list) \<times> local_queue" where
  "local_receive max_messages wait_seconds q =
     (let n = nat (min max_messages (int (length (lq_messages q)))) in
      (Inr (take n (lq_messages q)), q\<lparr>lq_messages := drop n (lq_messages q)\<rparr>))"

definition local_heartbeat :: "string \<Rightarrow> int \<Rightarrow> local_queue \<Rightarrow> (error + unit) \<times> local_queue" where
  "local_heartbeat handle visibility_seconds q =
     (Inr (), q\<lparr>lq_heartbeats := lq_heartbeats q @ [(handle, visibility_seconds)]\<rparr>)"

definition local_ack :: "string \<Rightarrow> local_queue \<Rightarrow> (error + unit) \<times> local_queue" where
  "local_ack handle q = (Inr (), q\<lparr>lq_acked := lq_acked q @ [handle]\<rparr>)"

definition local_task_queue :: "local_queue task_queue" where
  "local_task_queue = \<lparr>publish = local_publish, receive = local_receive,
     heartbeat = local_heartbeat, ack = local_ack\<rparr>"

section \<open>The SQS queue\<close>

text \<open>The arguments and answers of the client, as the service documents them.\<close>

record sqs_send =
  snd_QueueUrl :: string
  snd_MessageBody :: string
  snd_MessageGroupId :: "string option"
  snd_MessageDeduplicationId :: "string option"

record sqs_raw_message =
  raw_MessageId :: "string option"
  raw_ReceiptHandle :: "string option"
  raw_Body :: "string option"
  raw_Attributes :: "(string \<times> string) list option"

record 's sqs_client =
  send_message :: "sqs_send \<Rightarrow> 's \<Rightarrow> (error + string option) \<times> 's"
  receive_message :: "string \<Rightarrow> int \<Rightarrow> int \<Rightarrow> int \<Rightarrow> 's \<Rightarrow> (error + sqs_raw_message list option) \<times> 's"
  change_message_visibility :: "string \<Rightarrow> string \<Rightarrow> int \<Rightarrow> 's \<Rightarrow> (error + unit) \<times> 's"
  delete_message :: "string \<Rightarrow> string \<Rightarrow> 's \<Rightarrow> (error + unit) \<times> 's"

record sqs_queue =
  sqs_url :: string
  sqs_visibility_seconds :: int
  sqs_fifo :: bool

definition make_sqs_queue :: "string \<Rightarrow> int \<Rightarrow> error + sqs_queue" where
  "make_sqs_queue queue_url visibility_seconds =
     (if queue_url = [] then Inl (ValueError ''SQS queue URL is required'')
      else Inr \<lparr>sqs_url = queue_url, sqs_visibility_seconds = visibility_seconds,
                 sqs_fifo = py_endswith queue_url ''.fifo''\<rparr>)"

definition sqs_arguments :: "sqs_queue \<Rightarrow> json \<Rightarrow> error + sqs_send" where
  "sqs_arguments self b =
     (case json_index b ''event_id'' of
        Inl e \<Rightarrow> Inl e
      | Inr v \<Rightarrow>
          (let plain = \<lparr>snd_QueueUrl = sqs_url self, snd_MessageBody = json_dumps True b,
                        snd_MessageGroupId = None, snd_MessageDeduplicationId = None\<rparr>
           in if sqs_fifo self
              then (case json_get b ''tenant_id'' of
                      Inl e \<Rightarrow> Inl e
                    | Inr tid \<Rightarrow> Inr (plain\<lparr>snd_MessageGroupId :=
                          Some (case tid of None \<Rightarrow> ''privacy-cloud'' | Some t \<Rightarrow> py_str t),
                        snd_MessageDeduplicationId := Some (py_str v)\<rparr>))
              else Inr plain))"

definition sqs_publish :: "'s sqs_client \<Rightarrow> sqs_queue \<Rightarrow> json \<Rightarrow> 's \<Rightarrow> (error + string) \<times> 's" where
  "sqs_publish client self b s =
     (case sqs_arguments self b of
        Inl e \<Rightarrow> (Inl e, s)
      | Inr arguments \<Rightarrow>
          (case send_message client arguments s of
             (Inl e, s') \<Rightarrow> (Inl e, s')
           | (Inr None, s') \<Rightarrow> (Inl (KeyError ''MessageId''), s')
           | (Inr (Some i), s') \<Rightarrow> (Inr i, s')))"

text \<open>
  \<open>int(s)\<close> of a text: an optional sign and digits, white space around, single underscores between
  digits, and at most 4300 digits. Text that is stored by programs has digits only
  (\<open>decimal_int\<close>).
\<close>

fun int_digits :: "string \<Rightarrow> string option" where
  "int_digits [] = None"
| "int_digits [c] = (if is_digit c then Some [c] else None)"
| "int_digits (c # d # s) =
     (if \<not> is_digit c then None
      else map_option (Cons c) (int_digits (if d = CHR ''_'' then s else d # s)))"

definition signed_text :: "string \<Rightarrow> bool \<times> string" where
  "signed_text s =
     (let t = py_strip s in
      case t of
        [] \<Rightarrow> (False, t)
      | c # r \<Rightarrow> if c = CHR ''-'' then (True, r) else if c = CHR ''+'' then (False, r) else (False, t))"

definition py_int :: "string \<Rightarrow> error + int" where
  "py_int s =
     (let (neg, text) = signed_text s in
      case int_digits text of
        None \<Rightarrow> Inl (ValueError ''invalid literal for int()'')
      | Some ds \<Rightarrow>
          if 4300 < length ds then Inl (ValueError ''Exceeds the limit for integer string conversion'')
          else Inr (if neg then - int (digits_value ds) else int (digits_value ds)))"

definition decimal_int :: "string \<Rightarrow> error + int" where
  "decimal_int s =
     (let (neg, ds) = signed_text s in
      if ds = [] \<or> \<not> list_all is_digit ds then Inl (ValueError ''not a decimal number'')
      else Inr (if neg then - int (digits_value ds) else int (digits_value ds)))"

lemma int_digits_plain: "ds \<noteq> [] \<Longrightarrow> list_all is_digit ds \<Longrightarrow> int_digits ds = Some ds"
proof (induction ds rule: int_digits.induct)
  case (3 c d s)
  then have "d \<noteq> CHR ''_''" by (auto simp: is_digit_def)
  with 3 show ?case by simp
qed simp_all

text \<open>The decimal text of a number is read back.\<close>

lemma signed_text_nat: "signed_text (str_of_nat n) = (False, str_of_nat n)"
proof -
  have sp: "\<not> py_isspace c" if "is_digit c" for c using that by (auto simp: is_digit_def py_isspace_def)
  have all: "list_all is_digit (str_of_nat n)" by (rule str_of_nat_digits)
  obtain c cs where c: "str_of_nat n = c # cs" "is_digit c" by (rule str_of_nat_Cons)
  have "py_lstrip (str_of_nat n) = str_of_nat n" using c sp by (simp add: py_lstrip_def)
  moreover have "py_rstrip (str_of_nat n) = str_of_nat n"
  proof -
    have "is_digit (last (str_of_nat n))" using all by (simp add: list_all_iff)
    then have "\<not> py_isspace (hd (rev (str_of_nat n)))" using sp by (simp add: hd_rev)
    then have "dropWhile py_isspace (rev (str_of_nat n)) = rev (str_of_nat n)"
      by (cases "rev (str_of_nat n)") auto
    then show ?thesis by (simp add: py_rstrip_def)
  qed
  moreover have "c \<noteq> CHR ''-''" "c \<noteq> CHR ''+''" using c(2) by (auto simp: is_digit_def)
  ultimately show ?thesis using c(1) by (simp add: signed_text_def py_strip_def)
qed

lemma py_int_str_of_nat: "length (str_of_nat n) \<le> 4300 \<Longrightarrow> py_int (str_of_nat n) = Inr (int n)"
  by (simp add: py_int_def signed_text_nat int_digits_plain str_of_nat_digits digits_value_def nat_of_digits_str_of_nat)

definition required :: "string \<Rightarrow> 'a option \<Rightarrow> error + 'a" where
  "required k x = (case x of None \<Rightarrow> Inl (KeyError k) | Some v \<Rightarrow> Inr v)"

definition sqs_parse :: "sqs_raw_message \<Rightarrow> error + queue_message" where
  "sqs_parse raw =
     (case required ''MessageId'' (raw_MessageId raw) of Inl e \<Rightarrow> Inl e | Inr mid \<Rightarrow>
      case required ''ReceiptHandle'' (raw_ReceiptHandle raw) of Inl e \<Rightarrow> Inl e | Inr handle \<Rightarrow>
      case required ''Body'' (raw_Body raw) of Inl e \<Rightarrow> Inl e | Inr text \<Rightarrow>
      case json_loads text of Inl e \<Rightarrow> Inl e | Inr b \<Rightarrow>
      case (case map_of (case raw_Attributes raw of None \<Rightarrow> [] | Some a \<Rightarrow> a) ''ApproximateReceiveCount'' of
              None \<Rightarrow> Inr 1 | Some n \<Rightarrow> py_int n) of
        Inl e \<Rightarrow> Inl e
      | Inr count \<Rightarrow>
          Inr \<lparr>message_id = mid, receipt_handle = handle, body = b, receive_count = count\<rparr>)"

fun sqs_parse_all :: "sqs_raw_message list \<Rightarrow> error + queue_message list" where
  "sqs_parse_all [] = Inr []"
| "sqs_parse_all (raw # raws) =
     (case sqs_parse raw of
        Inl e \<Rightarrow> Inl e
      | Inr m \<Rightarrow> (case sqs_parse_all raws of Inl e \<Rightarrow> Inl e | Inr ms \<Rightarrow> Inr (m # ms)))"

definition sqs_receive ::
    "'s sqs_client \<Rightarrow> sqs_queue \<Rightarrow> int \<Rightarrow> int \<Rightarrow> 's \<Rightarrow> (error + queue_message list) \<times> 's" where
  "sqs_receive client self max_messages wait_seconds s =
     (case receive_message client (sqs_url self) (min (max max_messages 1) 10)
             (min (max wait_seconds 0) 20) (sqs_visibility_seconds self) s of
        (Inl e, s') \<Rightarrow> (Inl e, s')
      | (Inr response, s') \<Rightarrow>
          (sqs_parse_all (case response of None \<Rightarrow> [] | Some raws \<Rightarrow> raws), s'))"

definition sqs_heartbeat ::
    "'s sqs_client \<Rightarrow> sqs_queue \<Rightarrow> string \<Rightarrow> int \<Rightarrow> 's \<Rightarrow> (error + unit) \<times> 's" where
  "sqs_heartbeat client self handle visibility_seconds s =
     change_message_visibility client (sqs_url self) handle visibility_seconds s"

definition sqs_ack :: "'s sqs_client \<Rightarrow> sqs_queue \<Rightarrow> string \<Rightarrow> 's \<Rightarrow> (error + unit) \<times> 's" where
  "sqs_ack client self handle s = delete_message client (sqs_url self) handle s"

definition sqs_task_queue :: "'s sqs_client \<Rightarrow> sqs_queue \<Rightarrow> 's task_queue" where
  "sqs_task_queue client self = \<lparr>publish = sqs_publish client self, receive = sqs_receive client self,
     heartbeat = sqs_heartbeat client self, ack = sqs_ack client self\<rparr>"

section \<open>The configured queue\<close>

datatype queue_kind = LocalQueue | SqsQueue sqs_queue

definition build_task_queue :: "settings \<Rightarrow> error + queue_kind" where
  "build_task_queue cfg =
     (if queue_backend cfg = ''local'' then Inr LocalQueue
      else if queue_backend cfg \<noteq> ''sqs''
      then Inl (ValueError (''unsupported queue backend: '' @ queue_backend cfg))
      else case make_sqs_queue (sqs_queue_url cfg) (sqs_visibility_timeout_seconds cfg) of
             Inl e \<Rightarrow> Inl e | Inr self \<Rightarrow> Inr (SqsQueue self))"

section \<open>Consuming with a heartbeat\<close>

text \<open>
  \<open>maintain_visibility\<close> runs beside the handler. A run of the program fixes how many heartbeat
  periods end before the handler's work takes effect and how many end between that and the end of
  the acknowledgement; the state \<open>'w\<close> is what the handler and the hook share. A heartbeat that
  raises ends the loop, and its exception is raised when the consumer awaits the loop at the end.
\<close>

fun maintain_visibility ::
    "'q task_queue \<Rightarrow> queue_message \<Rightarrow> int \<Rightarrow> ('w \<Rightarrow> (error + unit) \<times> 'w) option \<Rightarrow> nat \<Rightarrow> error option
       \<Rightarrow> 'w \<Rightarrow> 'q \<Rightarrow> error option \<times> 'w \<times> 'q" where
  "maintain_visibility Q m vis hook n (Some e) w q = (Some e, w, q)"
| "maintain_visibility Q m vis hook 0 None w q = (None, w, q)"
| "maintain_visibility Q m vis hook (Suc n) None w q =
     (case heartbeat Q (receipt_handle m) vis q of
        (Inl e, q') \<Rightarrow> (Some e, w, q')
      | (Inr _, q') \<Rightarrow>
          (case hook of
             None \<Rightarrow> maintain_visibility Q m vis hook n None w q'
           | Some f \<Rightarrow>
               (case f w of
                  (Inl e, w') \<Rightarrow> (Some e, w', q')
                | (Inr _, w') \<Rightarrow> maintain_visibility Q m vis hook n None w' q')))"

definition consume_with_heartbeat ::
    "'q task_queue \<Rightarrow> queue_message \<Rightarrow> (json \<Rightarrow> 'w \<Rightarrow> (error + bool) \<times> 'w) \<Rightarrow> int
       \<Rightarrow> ('w \<Rightarrow> (error + unit) \<times> 'w) option \<Rightarrow> nat \<times> nat \<Rightarrow> 'w \<Rightarrow> 'q \<Rightarrow> (error + bool) \<times> 'w \<times> 'q" where
  "consume_with_heartbeat Q m handler vis hook ticks w q =
     (let (failed, w1, q1) = maintain_visibility Q m vis hook (fst ticks) None w q;
          (handled, w2) = handler (body m) w1;
          (result, q2) = (case handled of
              Inl e \<Rightarrow> (Inl e, q1)
            | Inr succeeded \<Rightarrow>
                (if succeeded
                 then (case ack Q (receipt_handle m) q1 of
                         (Inl e, q') \<Rightarrow> (Inl e, q') | (Inr _, q') \<Rightarrow> (Inr succeeded, q'))
                 else (Inr succeeded, q1)));
          (failed', w3, q3) = maintain_visibility Q m vis hook (snd ticks) failed w2 q2
      in (case failed' of Some e \<Rightarrow> Inl e | None \<Rightarrow> result, w3, q3))"

section \<open>What the clients of a queue rely on\<close>

text \<open>\<open>waiting q\<close> are the bodies that a receive can still deliver, in order.\<close>

locale task_queue_laws =
  fixes Q :: "'q task_queue" and waiting :: "'q \<Rightarrow> json list"
  assumes publish_adds: "publish Q b q = (Inr i, q') \<Longrightarrow> waiting q' = waiting q @ [b]"
    and publish_refuses: "publish Q b q = (Inl e, q') \<Longrightarrow> waiting q' = waiting q"
    and receive_takes: "receive Q n w q = (Inr ms, q') \<Longrightarrow> waiting q = map body ms @ waiting q'"
    and receive_bound: "receive Q n w q = (Inr ms, q') \<Longrightarrow> int (length ms) \<le> max n 0"
    and heartbeat_keeps: "heartbeat Q h vis q = (hb, q') \<Longrightarrow> waiting q' = waiting q"
    and ack_keeps: "ack Q h q = (a, q') \<Longrightarrow> waiting q' = waiting q"
begin

lemma maintain_keeps:
  "maintain_visibility Q m vis hook n f w q = (f', w', q') \<Longrightarrow> waiting q' = waiting q"
proof (induction n arbitrary: f w q)
  case 0
  then show ?case by (cases f) simp_all
next
  case (Suc n)
  show ?case
  proof (cases f)
    case None
    obtain r q1 where hb: "heartbeat Q (receipt_handle m) vis q = (r, q1)" by (cases "heartbeat Q (receipt_handle m) vis q")
    then have "waiting q1 = waiting q" by (rule heartbeat_keeps)
    with Suc None hb show ?thesis by (auto split: prod.splits sum.splits option.splits)
  qed (use Suc in simp)
qed

text \<open>Consuming a message neither loses nor adds a waiting one.\<close>

lemma consume_keeps:
  assumes "consume_with_heartbeat Q m handler vis hook ticks w q = (res, w', q')"
  shows "waiting q' = waiting q"
  using assms
  by (auto simp: consume_with_heartbeat_def Let_def split: prod.splits sum.splits if_splits option.splits
      dest!: maintain_keeps ack_keeps)

end

interpretation local_queue: task_queue_laws local_task_queue "\<lambda>q. map body (lq_messages q)"
proof
  fix b i e n w ms h vis hb a and q q' :: local_queue
  show "publish local_task_queue b q = (Inr i, q') \<Longrightarrow> map body (lq_messages q') = map body (lq_messages q) @ [b]"
    and "publish local_task_queue b q = (Inl e, q') \<Longrightarrow> map body (lq_messages q') = map body (lq_messages q)"
    by (auto simp: local_task_queue_def local_publish_def Let_def split: sum.splits)
  show "receive local_task_queue n w q = (Inr ms, q') \<Longrightarrow>
      map body (lq_messages q) = map body ms @ map body (lq_messages q')"
    by (auto simp: local_task_queue_def local_receive_def Let_def simp flip: map_append)
  show "receive local_task_queue n w q = (Inr ms, q') \<Longrightarrow> int (length ms) \<le> max n 0"
    by (auto simp: local_task_queue_def local_receive_def Let_def)
  show "heartbeat local_task_queue h vis q = (hb, q') \<Longrightarrow> map body (lq_messages q') = map body (lq_messages q)"
    and "ack local_task_queue h q = (a, q') \<Longrightarrow> map body (lq_messages q') = map body (lq_messages q)"
    by (auto simp: local_task_queue_def local_heartbeat_def local_ack_def)
qed

end
