(* ===== verification/Outbox.thy ===== *)
theory Outbox
  imports Intake Queue Py_Time
begin

text \<open>
  \<open>services/outbox.py\<close>: the relay that publishes committed outbox rows and marks the ones the queue
  confirmed. The clock gives the reading at the k-th confirmation. The lemmas inside
  \<open>task_queue_laws\<close> hold for every lawful queue; the properties use them for the in-process queue.
\<close>

section \<open>Operations\<close>

definition event_envelope :: "outbox_event \<Rightarrow> json" where
  "event_envelope event =
     JObj [(''event_id'', JStr (ob_id event)), (''tenant_id'', JStr (ob_tenant_id event)),
           (''aggregate_id'', JStr (ob_aggregate_id event)), (''event_type'', JStr (ob_event_type event)),
           (''payload'', ob_payload event), (''created_at'', JStr (isoformat (ob_created_at event)))]"

definition relay_candidates :: "dialect \<Rightarrow> (string \<Rightarrow> bool) \<Rightarrow> nat \<Rightarrow> cloud \<Rightarrow> outbox_event list" where
  "relay_candidates dialect locked batch_size d =
     take batch_size (sort_key ob_created_at
       (filter (\<lambda>e. ob_published_at e = None \<and> \<not> (dialect = PostgreSQL \<and> locked (ob_id e))) (outbox d)))"

text \<open>The loop: the confirmed identifiers with the time of their confirmation.\<close>

fun relay_loop ::
    "'q task_queue \<Rightarrow> (nat \<Rightarrow> time) \<Rightarrow> outbox_event list \<Rightarrow> (string \<times> time) list \<Rightarrow> 'q
       \<Rightarrow> (string \<times> time) list \<times> 'q" where
  "relay_loop Q clock [] published q = (published, q)"
| "relay_loop Q clock (event # events) published q =
     (case publish Q (event_envelope event) q of
        (Inl e, q') \<Rightarrow> relay_loop Q clock events published q'
      | (Inr _, q') \<Rightarrow>
          relay_loop Q clock events (published @ [(ob_id event, clock (length published))]) q')"

record relay_result =
  r_claimed :: nat
  r_published :: nat
  r_failed :: nat

definition mark_published :: "(string \<times> time) list \<Rightarrow> cloud \<Rightarrow> cloud" where
  "mark_published published d =
     d\<lparr>outbox := upd_where (\<lambda>e. ob_id e \<in> fst ` set published)
         (\<lambda>e. e\<lparr>ob_published_at := map_of published (ob_id e)\<rparr>) (outbox d)\<rparr>"

definition relay_outbox_once ::
    "'q task_queue \<Rightarrow> dialect \<Rightarrow> (string \<Rightarrow> bool) \<Rightarrow> (nat \<Rightarrow> time) \<Rightarrow> nat \<Rightarrow> cloud \<Rightarrow> 'q
       \<Rightarrow> relay_result \<times> cloud \<times> 'q" where
  "relay_outbox_once Q dialect locked clock batch_size d q =
     (let events = relay_candidates dialect locked batch_size d;
          (published, q') = relay_loop Q clock events [] q
      in (\<lparr>r_claimed = length events, r_published = length published,
           r_failed = length events - length published\<rparr>,
          mark_published published d, q'))"

section \<open>The loop\<close>

lemma relay_loop_published:
  assumes "relay_loop Q clock events published q = (out, q')"
  shows "\<exists>new. map fst out = map fst published @ map ob_id new \<and> subseq new events"
  using assms
proof (induction events arbitrary: published q)
  case Nil
  then show ?case by (intro exI [of _ "[]"]) simp
next
  case (Cons e events)
  obtain r q1 where pub: "publish Q (event_envelope e) q = (r, q1)" by (cases "publish Q (event_envelope e) q")
  show ?case
  proof (cases r)
    case (Inl x)
    with Cons pub obtain new where "map fst out = map fst published @ map ob_id new" "subseq new events"
      by fastforce
    then show ?thesis by (intro exI [of _ new]) (auto intro: list_emb_Cons)
  next
    case (Inr i)
    with Cons.prems pub have "relay_loop Q clock events (published @ [(ob_id e, clock (length published))]) q1 = (out, q')"
      by simp
    from Cons.IH [OF this] obtain new where
      "map fst out = map fst published @ ob_id e # map ob_id new" "subseq new events" by auto
    then show ?thesis by (intro exI [of _ "e # new"]) auto
  qed
qed

lemma subseq_keeps_members: "subseq xs ys \<Longrightarrow> set xs \<subseteq> set ys"
  by (auto dest: list_emb_set)

lemma subseq_keeps_distinct: "subseq xs ys \<Longrightarrow> distinct ys \<Longrightarrow> distinct xs"
  by (induction rule: list_emb.induct) (auto dest: subseq_keeps_members)

lemma relay_candidates_set:
  "e \<in> set (relay_candidates dialect locked n d) \<Longrightarrow> e \<in> set (outbox d) \<and> ob_published_at e = None"
  by (auto simp: relay_candidates_def dest!: in_set_takeD)

lemma distinct_relay_candidates:
  assumes "keys_ok d"
  shows "distinct (map ob_id (relay_candidates dialect locked n d))"
proof -
  let ?f = "filter (\<lambda>e. ob_published_at e = None \<and> \<not> (dialect = PostgreSQL \<and> locked (ob_id e))) (outbox d)"
  have "distinct (map ob_id ?f)" using assms by (simp add: keys_ok_def distinct_map_filter)
  then have "distinct (map ob_id (sort_key ob_created_at ?f))" by (simp add: distinct_map)
  then show ?thesis by (simp add: relay_candidates_def take_map [symmetric])
qed

text \<open>Marking rows reduces the unpublished ones by as many as are marked.\<close>

lemma length_filter_split:
  "length (filter P xs) = length (filter (\<lambda>x. P x \<and> Q x) xs) + length (filter (\<lambda>x. P x \<and> \<not> Q x) xs)"
  by (induction xs) auto

lemma unpublished_after:
  assumes "keys_ok d" and "distinct (map ob_id new)" and "map fst published = map ob_id new"
    and "\<And>e. e \<in> set new \<Longrightarrow> e \<in> set (outbox d) \<and> ob_published_at e = None"
  shows "unpublished_outbox_count (mark_published published d) + length new = unpublished_outbox_count d"
proof -
  let ?in = "\<lambda>e. ob_id e \<in> ob_id ` set new"
  have ids: "fst ` set published = ob_id ` set new" using assms(3) by (metis set_map)
  have some: "map_of published i \<noteq> None" if "i \<in> ob_id ` set new" for i
    using that ids by (simp add: map_of_eq_None_iff)
  have "filter (\<lambda>e. ob_published_at e = None) (upd_where ?in (\<lambda>e. e\<lparr>ob_published_at := map_of published (ob_id e)\<rparr>) es)
      = filter (\<lambda>e. ob_published_at e = None \<and> \<not> ?in e) es" for es :: "outbox_event list"
    using some by (induction es) auto
  then have after: "unpublished_outbox_count (mark_published published d) =
      length (filter (\<lambda>e. ob_published_at e = None \<and> \<not> ?in e) (outbox d))"
    by (simp add: unpublished_outbox_count_def mark_published_def ids)
  have "set (filter (\<lambda>e. ob_published_at e = None \<and> ?in e) (outbox d)) = set new"
  proof -
    have "x = y" if "x \<in> set (outbox d)" "y \<in> set new" "ob_id x = ob_id y" for x y
      using assms(1,4) that key_inj [of ob_id "outbox d" x y] by (simp add: keys_ok_def)
    then show ?thesis using assms(4) by auto
  qed
  moreover have "distinct (filter (\<lambda>e. ob_published_at e = None \<and> ?in e) (outbox d))" "distinct new"
    using assms(1,2) by (auto simp: keys_ok_def distinct_map)
  ultimately have "length (filter (\<lambda>e. ob_published_at e = None \<and> ?in e) (outbox d)) = length new"
    by (metis distinct_card)
  with after show ?thesis
    using length_filter_split [of "\<lambda>e. ob_published_at e = None" "outbox d" ?in]
    by (simp add: unpublished_outbox_count_def)
qed

section \<open>On a lawful queue\<close>

context task_queue_laws
begin

lemma relay_loop_waiting:
  assumes "relay_loop Q clock events published q = (out, q')"
  shows "\<exists>new. map fst out = map fst published @ map ob_id new \<and> subseq new events \<and>
    waiting q' = waiting q @ map event_envelope new"
  using assms
proof (induction events arbitrary: published q)
  case Nil
  then show ?case by (intro exI [of _ "[]"]) simp
next
  case (Cons e events)
  obtain r q1 where pub: "publish Q (event_envelope e) q = (r, q1)" by (cases "publish Q (event_envelope e) q")
  show ?case
  proof (cases r)
    case (Inl x)
    with Cons pub obtain new where new: "map fst out = map fst published @ map ob_id new" "subseq new events"
      "waiting q' = waiting q1 @ map event_envelope new" by fastforce
    moreover have "waiting q1 = waiting q" using pub Inl by (simp add: publish_refuses)
    ultimately show ?thesis by (intro exI [of _ new]) (auto intro: list_emb_Cons)
  next
    case (Inr i)
    with Cons.prems pub have "relay_loop Q clock events (published @ [(ob_id e, clock (length published))]) q1 = (out, q')"
      by simp
    from Cons.IH [OF this] obtain new where
      "map fst out = map fst published @ ob_id e # map ob_id new" "subseq new events"
      "waiting q' = waiting q1 @ map event_envelope new" by auto
    moreover have "waiting q1 = waiting q @ [event_envelope e]" using pub Inr by (simp add: publish_adds)
    ultimately show ?thesis by (intro exI [of _ "e # new"]) auto
  qed
qed

text \<open>
  The transactional outbox: what the relay marks is in the queue, in the order of creation, and what
  it could not publish stays unpublished.
\<close>

lemma relay_spec:
  assumes "keys_ok d" and "relay_outbox_once Q dialect locked clock n d q = (res, d', q')"
  shows "\<exists>new. subseq new (relay_candidates dialect locked n d) \<and>
    waiting q' = waiting q @ map event_envelope new \<and> r_published res = length new \<and>
    r_claimed res = length (relay_candidates dialect locked n d) \<and>
    r_published res + r_failed res = r_claimed res \<and>
    unpublished_outbox_count d' + length new = unpublished_outbox_count d \<and>
    (\<forall>e \<in> set (outbox d'). ob_id e \<in> ob_id ` set new \<or> e \<in> set (outbox d))"
proof -
  let ?c = "relay_candidates dialect locked n d"
  obtain out where loop: "relay_loop Q clock ?c [] q = (out, q')" and res: "r_claimed res = length ?c"
    "r_published res = length out" "r_failed res = length ?c - length out" and d': "d' = mark_published out d"
    using assms(2) by (auto simp: relay_outbox_once_def Let_def split: prod.splits)
  from relay_loop_waiting [OF loop] obtain new where
    new: "map fst out = map ob_id new" "subseq new ?c" "waiting q' = waiting q @ map event_envelope new" by auto
  have len: "length out = length new" using new(1) by (metis length_map)
  have "length new \<le> length ?c" using new(2) by (rule list_emb_length)
  moreover have "distinct (map ob_id new)"
    using new(2) distinct_relay_candidates [OF assms(1)] by (metis subseq_keeps_distinct subseq_map)
  moreover have "e \<in> set (outbox d) \<and> ob_published_at e = None" if "e \<in> set new" for e
    using that new(2) relay_candidates_set [of e] by (meson subseq_keeps_members subsetD)
  ultimately have "unpublished_outbox_count d' + length new = unpublished_outbox_count d"
    using unpublished_after [OF assms(1) _ new(1)] d' by blast
  moreover have "fst ` set out = ob_id ` set new" using new(1) by (metis set_map)
  ultimately show ?thesis
    using new(2,3) res len \<open>length new \<le> length ?c\<close>
    by (intro exI [of _ new]) (auto simp: d' mark_published_def in_upd_where split: if_splits)
qed

end

end
