(* ===== verification/Float64.thy ===== *)
theory Float64
  imports Complex_Main
begin

text \<open>
  Double-precision arithmetic as far as the concurrency controller uses it. A float is the rational
  number it stands for, and an operation is the exact one followed by \<open>fl\<close>, rounding to 53
  significant bits, ties to even. Overflow, subnormal numbers and the special values are left out:
  the program multiplies window sizes, sample counts and ratios.
\<close>

section \<open>Rounding\<close>

fun log2_nat :: "nat \<Rightarrow> nat" where
  "log2_nat n = (if n < 2 then 0 else log2_nat (n div 2) + 1)"

declare log2_nat.simps [simp del]

text \<open>The exponent of the leading bit of a positive number.\<close>

definition floor_log2 :: "rat \<Rightarrow> int" where
  "floor_log2 x =
     (if 1 \<le> x then int (log2_nat (nat \<lfloor>x\<rfloor>))
      else let c = nat \<lceil>1 / x\<rceil>; k = log2_nat c in - int (if 2 ^ k = c then k else k + 1))"

definition round_half_even :: "rat \<Rightarrow> int" where
  "round_half_even y =
     (let n = \<lfloor>y\<rfloor>; f = y - of_int n in
      if f < 1 / 2 then n else if 1 / 2 < f then n + 1 else if even n then n else n + 1)"

definition two_to :: "int \<Rightarrow> rat" where
  "two_to e = (if 0 \<le> e then 2 ^ nat e else 1 / 2 ^ nat (- e))"

definition fl :: "rat \<Rightarrow> rat" where
  "fl x =
     (if x = 0 then 0
      else let e = floor_log2 \<bar>x\<bar> - 52 in of_int (round_half_even (x / two_to e)) * two_to e)"

section \<open>Lemmas\<close>

lemma log2_nat_bounds: "0 < n \<Longrightarrow> 2 ^ log2_nat n \<le> n \<and> n < 2 ^ (log2_nat n + 1)"
proof (induction n rule: log2_nat.induct)
  case (1 n)
  show ?case
  proof (cases "n < 2")
    case True
    with 1 show ?thesis by (simp add: log2_nat.simps)
  next
    case False
    with 1 have "2 ^ log2_nat (n div 2) \<le> n div 2 \<and> n div 2 < 2 ^ (log2_nat (n div 2) + 1)" by simp
    with False show ?thesis by (auto simp: log2_nat.simps [of n])
  qed
qed

lemma round_half_even_le: "y \<le> of_int k \<Longrightarrow> round_half_even y \<le> k"
proof -
  assume y: "y \<le> of_int k"
  show ?thesis
  proof (cases "\<lfloor>y\<rfloor> < k")
    case True
    then show ?thesis by (simp add: round_half_even_def Let_def)
  next
    case False
    with y have "y = of_int k" by (metis floor_less_iff linorder_not_less order_antisym)
    then show ?thesis by (simp add: round_half_even_def)
  qed
qed

lemma round_half_even_ge: "of_int k \<le> y \<Longrightarrow> k \<le> round_half_even y"
  by (auto simp: round_half_even_def Let_def le_floor_iff [symmetric] dest: le_floor_iff [THEN iffD2])

lemma two_to_pos [simp]: "0 < two_to e"
  by (simp add: two_to_def)

lemma floor_log2_small:
  assumes "0 < x" and "x < 2 ^ 53"
  shows "floor_log2 x \<le> 52"
proof (cases "1 \<le> x")
  case True
  let ?n = "nat \<lfloor>x\<rfloor>"
  have "1 \<le> \<lfloor>x\<rfloor>" using True by simp
  then have "0 < ?n" by linarith
  then have "2 ^ log2_nat ?n \<le> ?n" using log2_nat_bounds by blast
  moreover have "\<lfloor>x\<rfloor> < 2 ^ 53" using assms(2) by (simp add: floor_less_iff)
  then have "?n < 2 ^ 53" using \<open>1 \<le> \<lfloor>x\<rfloor>\<close> by (simp add: nat_less_iff)
  ultimately have "(2 :: nat) ^ log2_nat ?n < 2 ^ 53" by linarith
  then have "log2_nat ?n < 53" by (rule power_less_imp_less_exp [rotated]) simp
  with True show ?thesis by (simp add: floor_log2_def)
next
  case False
  then show ?thesis by (simp add: floor_log2_def Let_def)
qed

text \<open>Rounding does not carry a number past an integer that fits in 53 bits.\<close>

lemma scaled_int: "e \<le> 0 \<Longrightarrow> of_int n / two_to e = (of_int (n * 2 ^ nat (- e)) :: rat)"
  by (cases "e = 0") (simp_all add: two_to_def)

lemma fl_le_int:
  assumes "0 \<le> x" and "x \<le> of_int n" and "n < 2 ^ 53"
  shows "fl x \<le> of_int n"
proof (cases "x = 0")
  case True
  with assms show ?thesis by (simp add: fl_def)
next
  case False
  with assms(1) have x: "0 < x" by simp
  have "(of_int n :: rat) < 2 ^ 53" using assms(3) by (metis of_int_less_iff of_int_numeral of_int_power)
  with assms(2) x have e: "floor_log2 \<bar>x\<bar> - 52 \<le> 0" using floor_log2_small [of x] by simp
  let ?e = "floor_log2 \<bar>x\<bar> - 52"
  have "x / two_to ?e \<le> of_int (n * 2 ^ nat (- ?e))"
    unfolding scaled_int [OF e, symmetric] using assms(2) by (intro divide_right_mono) (simp_all add: less_imp_le)
  then have "round_half_even (x / two_to ?e) \<le> n * 2 ^ nat (- ?e)" by (rule round_half_even_le)
  then have "(of_int (round_half_even (x / two_to ?e)) :: rat) \<le> of_int n / two_to ?e"
    by (simp only: scaled_int [OF e] of_int_le_iff)
  then show ?thesis using False by (simp add: fl_def Let_def pos_le_divide_eq)
qed

lemma fl_ge_int:
  assumes "0 \<le> n" and "of_int n \<le> x" and "x < 2 ^ 53"
  shows "of_int n \<le> fl x"
proof (cases "x = 0")
  case True
  with assms show ?thesis by (simp add: fl_def)
next
  case False
  have n0: "(0 :: rat) \<le> of_int n" using assms(1) by simp
  with assms(2) False have x: "0 < x" by linarith
  with assms(3) have e: "floor_log2 \<bar>x\<bar> - 52 \<le> 0" using floor_log2_small [of x] by simp
  let ?e = "floor_log2 \<bar>x\<bar> - 52"
  have "of_int (n * 2 ^ nat (- ?e)) \<le> x / two_to ?e"
    unfolding scaled_int [OF e, symmetric] using assms(2) by (intro divide_right_mono) (simp_all add: less_imp_le)
  then have "n * 2 ^ nat (- ?e) \<le> round_half_even (x / two_to ?e)" by (rule round_half_even_ge)
  then have "of_int n / two_to ?e \<le> (of_int (round_half_even (x / two_to ?e)) :: rat)"
    by (simp only: scaled_int [OF e] of_int_le_iff)
  then show ?thesis using False by (simp add: fl_def Let_def pos_divide_le_eq)
qed

lemma fl_int: "0 \<le> n \<Longrightarrow> n < 2 ^ 53 \<Longrightarrow> fl (of_int n) = of_int n"
proof -
  assume n: "0 \<le> n" "n < 2 ^ 53"
  have "(of_int n :: rat) < 2 ^ 53" using n(2) by (metis of_int_less_iff of_int_numeral of_int_power)
  with n show ?thesis by (intro antisym fl_le_int fl_ge_int) simp_all
qed

lemma fl_nonneg: "0 \<le> x \<Longrightarrow> 0 \<le> fl x"
proof (cases "x = 0")
  case False
  assume "0 \<le> x"
  then have "0 \<le> round_half_even (x / two_to (floor_log2 \<bar>x\<bar> - 52))"
    by (intro round_half_even_ge) (simp add: less_imp_le)
  with False show ?thesis by (simp add: fl_def Let_def less_imp_le)
qed (simp add: fl_def)

end
