(* ===== verification/Aimd.thy ===== *)
theory Aimd
  imports Float64 Queue "HOL-Library.AList"
begin

text \<open>
  \<open>services/adaptive_concurrency.py\<close>: the percentile, the local controller, the two Lua scripts and
  the shared state on Redis. Redis is an argument: a record of the commands that the scripts and the
  class call, on a state of its own. What the properties need of the commands is the predicate
  \<open>redis_ok\<close>, which states their documented effect on the string keys and on the sorted sets.
\<close>

section \<open>The local controller\<close>

definition percentile :: "rat list \<Rightarrow> rat \<Rightarrow> rat" where
  "percentile values fraction =
     (if values = [] then 0
      else let ordered = sort values;
               n = int (length ordered);
               index = min (\<lceil>fl (of_int n * fraction)\<rceil> - 1) (n - 1)
           in ordered ! nat (max index 0))"

record controller =
  limit :: int
  minimum :: int
  maximum :: int
  target_p95_seconds :: rat
  additive_step :: int
  decrease_ratio :: rat
  latencies :: "rat list"
  failures :: int

definition default_controller :: controller where
  "default_controller = \<lparr>limit = 4, minimum = 1, maximum = 64, target_p95_seconds = fl (4 / 5),
     additive_step = 1, decrease_ratio = fl (13 / 20), latencies = [], failures = 0\<rparr>"

definition observe :: "rat \<Rightarrow> bool \<Rightarrow> controller \<Rightarrow> controller" where
  "observe latency succeeded c =
     c\<lparr>latencies := latencies c @ [latency], failures := failures c + (if succeeded then 0 else 1)\<rparr>"

record decision =
  previous_limit :: int
  next_limit :: int
  samples :: nat
  p95_seconds :: rat
  failure_rate :: rat

definition decrease :: "int \<Rightarrow> rat \<Rightarrow> int \<Rightarrow> int" where
  "decrease low ratio current = max low \<lfloor>fl (fl (of_int current) * ratio)\<rfloor>"

definition adjust :: "controller \<Rightarrow> decision \<times> controller" where
  "adjust c =
     (let n = length (latencies c);
          p95 = percentile (latencies c) (fl (19 / 20));
          rate = (if n = 0 then 0 else fl (of_int (failures c) / of_nat n));
          next = (if n \<noteq> 0 \<and> (0 < rate \<or> target_p95_seconds c < p95)
                  then decrease (minimum c) (decrease_ratio c) (limit c)
                  else if n \<noteq> 0 then min (maximum c) (limit c + additive_step c)
                  else limit c)
      in (\<lparr>previous_limit = limit c, next_limit = next, samples = n, p95_seconds = p95,
           failure_rate = rate\<rparr>,
          c\<lparr>limit := next, latencies := [], failures := 0\<rparr>))"

section \<open>The scripts\<close>

record 's redis =
  cmd_get :: "string \<Rightarrow> 's \<Rightarrow> string option"
  cmd_set_ex :: "string \<Rightarrow> string \<Rightarrow> int \<Rightarrow> 's \<Rightarrow> 's"
  cmd_zremrangebyscore :: "string \<Rightarrow> int \<Rightarrow> 's \<Rightarrow> 's"
  cmd_zcard :: "string \<Rightarrow> 's \<Rightarrow> nat"
  cmd_zadd :: "string \<Rightarrow> int \<Rightarrow> string \<Rightarrow> 's \<Rightarrow> 's"
  cmd_expire :: "string \<Rightarrow> int \<Rightarrow> 's \<Rightarrow> 's"
  cmd_zrem :: "string \<Rightarrow> string \<Rightarrow> 's \<Rightarrow> 's"

text \<open>
  \<open>tonumber\<close> of the text of an integer, and its text again. The window keys hold integers only, as
  the script writes them; any other text makes the script fail when it computes with nil.
\<close>

definition tonumber :: "string \<Rightarrow> error + int" where
  "tonumber s = (case decimal_int s of Inl _ \<Rightarrow> Inl (ClientError ''attempt to compute with a nil value'') | Inr i \<Rightarrow> Inr i)"

definition window :: "'s redis \<Rightarrow> string \<Rightarrow> int \<Rightarrow> 's \<Rightarrow> error + int" where
  "window R key default_limit s =
     (case cmd_get R key s of None \<Rightarrow> Inr default_limit | Some v \<Rightarrow> tonumber v)"

definition redis_aimd_lua ::
    "'s redis \<Rightarrow> string \<Rightarrow> int \<Rightarrow> rat \<Rightarrow> rat \<Rightarrow> rat \<Rightarrow> int \<Rightarrow> int \<Rightarrow> int \<Rightarrow> rat \<Rightarrow> int \<Rightarrow> 's
       \<Rightarrow> (error + int \<times> int) \<times> 's" where
  "redis_aimd_lua R key default_limit p95 rate target low high step ratio ttl s =
     (case window R key default_limit s of
        Inl e \<Rightarrow> (Inl e, s)
      | Inr current \<Rightarrow>
          (let next = (if 0 < rate \<or> target < p95 then decrease low ratio current
                       else min high (current + step))
           in (Inr (current, next), cmd_set_ex R key (str_of_int next) ttl s)))"

definition redis_admission_lua ::
    "'s redis \<Rightarrow> string \<Rightarrow> string \<Rightarrow> int \<Rightarrow> int \<Rightarrow> string \<Rightarrow> int \<Rightarrow> int \<Rightarrow> 's \<Rightarrow> (error + bool \<times> int) \<times> 's" where
  "redis_admission_lua R window_key inflight now_ms expires_ms holder default_limit ttl s =
     (case window R window_key default_limit s of
        Inl e \<Rightarrow> (Inl e, s)
      | Inr cap \<Rightarrow>
          (let s1 = cmd_zremrangebyscore R inflight now_ms s in
           if cap \<le> int (cmd_zcard R inflight s1) then (Inr (False, cap), s1)
           else (Inr (True, cap),
                 cmd_expire R inflight ttl (cmd_zadd R inflight expires_ms holder s1))))"

section \<open>The shared state\<close>

record aimd_state =
  aimd_prefix :: string
  ttl_seconds :: int

definition make_aimd_state :: "string \<Rightarrow> int \<Rightarrow> aimd_state" where
  "make_aimd_state p ttl = \<lparr>aimd_prefix = rstrip_char CHR '':'' p, ttl_seconds = ttl\<rparr>"

text \<open>\<open>from_url\<close>: the prefix is the default one; the connection is the client's.\<close>

definition aimd_from_url :: "int option \<Rightarrow> aimd_state" where
  "aimd_from_url ttl = make_aimd_state ''privacy:aimd'' (case ttl of None \<Rightarrow> 900 | Some t \<Rightarrow> t)"

definition aimd_key :: "aimd_state \<Rightarrow> string \<Rightarrow> string \<Rightarrow> string" where
  "aimd_key self tenant_id source = aimd_prefix self @ '':'' @ tenant_id @ '':'' @ source"

definition inflight_key :: "aimd_state \<Rightarrow> string \<Rightarrow> string \<Rightarrow> string" where
  "inflight_key self tenant_id source = aimd_key self tenant_id source @ '':inflight''"

definition get_limit :: "'s redis \<Rightarrow> aimd_state \<Rightarrow> string \<Rightarrow> string \<Rightarrow> int \<Rightarrow> 's \<Rightarrow> error + int" where
  "get_limit R self tenant_id source default_limit s =
     (case cmd_get R (aimd_key self tenant_id source) s of None \<Rightarrow> Inr default_limit | Some v \<Rightarrow> py_int v)"

definition shared_adjust ::
    "'s redis \<Rightarrow> aimd_state \<Rightarrow> string \<Rightarrow> string \<Rightarrow> decision \<Rightarrow> controller \<Rightarrow> 's \<Rightarrow> (error + int \<times> int) \<times> 's" where
  "shared_adjust R self tenant_id source dec c s =
     redis_aimd_lua R (aimd_key self tenant_id source) (previous_limit dec) (p95_seconds dec)
       (failure_rate dec) (target_p95_seconds c) (minimum c) (maximum c) (additive_step c)
       (decrease_ratio c) (ttl_seconds self) s"

definition acquire ::
    "'s redis \<Rightarrow> aimd_state \<Rightarrow> string \<Rightarrow> string \<Rightarrow> string \<Rightarrow> int \<Rightarrow> int \<Rightarrow> int \<Rightarrow> 's \<Rightarrow> (error + bool \<times> int) \<times> 's" where
  "acquire R self tenant_id source holder default_limit lease_ms now_ms s =
     redis_admission_lua R (aimd_key self tenant_id source) (inflight_key self tenant_id source) now_ms
       (now_ms + lease_ms) holder default_limit (ttl_seconds self) s"

definition release :: "'s redis \<Rightarrow> aimd_state \<Rightarrow> string \<Rightarrow> string \<Rightarrow> string \<Rightarrow> 's \<Rightarrow> 's" where
  "release R self tenant_id source holder s = cmd_zrem R (inflight_key self tenant_id source) holder s"

section \<open>What the commands do\<close>

text \<open>
  The documented effect of the commands, through the members of a sorted set with their scores.
  Expiry of whole keys is a separate event of the server and not part of a command's effect.
\<close>

definition redis_ok :: "'s redis \<Rightarrow> (string \<Rightarrow> 's \<Rightarrow> string \<rightharpoonup> int) \<Rightarrow> bool" where
  "redis_ok R members \<longleftrightarrow>
     (\<forall>k s. finite (dom (members k s)) \<and> cmd_zcard R k s = card (dom (members k s))) \<and>
     (\<forall>k m s. members k (cmd_zremrangebyscore R k m s) =
        (\<lambda>h. case members k s h of None \<Rightarrow> None | Some sc \<Rightarrow> if sc \<le> m then None else Some sc)) \<and>
     (\<forall>k sc h s. members k (cmd_zadd R k sc h s) = (members k s)(h \<mapsto> sc)) \<and>
     (\<forall>k h s. members k (cmd_zrem R k h s) = (members k s)(h := None)) \<and>
     (\<forall>k t s. members k (cmd_expire R k t s) = members k s) \<and>
     (\<forall>k v t s. cmd_get R k (cmd_set_ex R k v t s) = Some v) \<and>
     (\<forall>k k' v t s. k \<noteq> k' \<longrightarrow> cmd_get R k' (cmd_set_ex R k v t s) = cmd_get R k' s)"

section \<open>Lemmas\<close>

lemma decrease_le:
  assumes "low \<le> current" and "0 \<le> current" and "current < 2 ^ 53" and "0 \<le> ratio" and "ratio \<le> 1"
  shows "decrease low ratio current \<le> current"
proof -
  have "of_int current * ratio \<le> (of_int current :: rat)"
    using assms(2,5) mult_left_le [of ratio "of_int current"] by simp
  then have "fl (of_int current * ratio) \<le> of_int current"
    using assms by (intro fl_le_int) simp_all
  then have "\<lfloor>fl (fl (of_int current) * ratio)\<rfloor> \<le> current"
    using assms(2,3) by (simp add: fl_int floor_le_iff)
  with assms(1) show ?thesis by (simp add: decrease_def)
qed

lemma decrease_ge: "low \<le> decrease low ratio current"
  by (simp add: decrease_def)

text \<open>A controller whose window is within its bounds.\<close>

definition controller_ok :: "controller \<Rightarrow> bool" where
  "controller_ok c \<longleftrightarrow> 0 \<le> minimum c \<and> minimum c \<le> limit c \<and> limit c \<le> maximum c \<and> maximum c < 2 ^ 53 \<and>
     0 \<le> additive_step c \<and> 0 \<le> decrease_ratio c \<and> decrease_ratio c \<le> 1"

lemma controller_ok_next:
  "controller_ok c \<Longrightarrow> minimum c \<le> decrease (minimum c) (decrease_ratio c) (limit c) \<and>
     decrease (minimum c) (decrease_ratio c) (limit c) \<le> limit c"
  using decrease_le [of "minimum c" "limit c" "decrease_ratio c"] decrease_ge
  by (auto simp: controller_ok_def)

lemma length_filter_le_nth:
  assumes "sorted xs" and "i < length xs"
  shows "i + 1 \<le> length (filter (\<lambda>x. x \<le> xs ! i) xs)"
proof -
  have "filter (\<lambda>x. x \<le> xs ! i) (take (Suc i) xs) = take (Suc i) xs"
    using assms by (auto simp: filter_id_conv in_set_conv_nth less_Suc_eq_le intro!: sorted_nth_mono)
  then have "length (filter (\<lambda>x. x \<le> xs ! i) (take (Suc i) xs)) = i + 1" using assms(2) by simp
  moreover have "xs = take (Suc i) xs @ drop (Suc i) xs" by simp
  then have "length (filter (\<lambda>x. x \<le> xs ! i) xs) = length (filter (\<lambda>x. x \<le> xs ! i) (take (Suc i) xs)) +
      length (filter (\<lambda>x. x \<le> xs ! i) (drop (Suc i) xs))"
    by (metis filter_append length_append)
  ultimately show ?thesis by simp
qed

lemma length_filter_less_nth:
  assumes "sorted xs" and "i < length xs"
  shows "length (filter (\<lambda>x. x < xs ! i) xs) \<le> i"
proof -
  have "\<not> xs ! (i + j) < xs ! i" if "i + j < length xs" for j
    using sorted_nth_mono [OF assms(1), of i "i + j"] that by auto
  then have "filter (\<lambda>x. x < xs ! i) (drop i xs) = []"
    by (auto simp: filter_empty_conv in_set_conv_nth)
  moreover have "filter P xs = filter P (take i xs) @ filter P (drop i xs)" for P
    by (metis append_take_drop_id filter_append)
  ultimately have "length (filter (\<lambda>x. x < xs ! i) xs) = length (filter (\<lambda>x. x < xs ! i) (take i xs))" by simp
  also have "\<dots> \<le> length (take i xs)" by (rule length_filter_le)
  finally show ?thesis by simp
qed

lemma last_separator:
  assumes "a @ c # s = b @ c # t" and "c \<notin> set s" and "c \<notin> set t"
  shows "a = b \<and> s = t"
proof -
  have tw: "takeWhile (\<lambda>x. x \<noteq> c) (rev (a @ c # s)) = rev s" if "c \<notin> set s" for a s
    using that takeWhile_append2 [of "rev s" "\<lambda>x. x \<noteq> c" "c # rev a"] by auto
  have "rev s = rev t" using tw [OF assms(2), of a] tw [OF assms(3), of b] assms(1) by simp
  then show ?thesis using assms(1) by simp
qed

section \<open>A server for the examples\<close>

type_synonym sample_redis_state = "(string \<rightharpoonup> string) \<times> (string \<Rightarrow> (string \<times> int) list)"

definition sample_redis :: "sample_redis_state redis" where
  "sample_redis = \<lparr>cmd_get = (\<lambda>k s. fst s k), cmd_set_ex = (\<lambda>k v t s. ((fst s)(k \<mapsto> v), snd s)),
     cmd_zremrangebyscore = (\<lambda>k m s. (fst s, (snd s)(k := filter (\<lambda>p. m < snd p)
        (AList.clearjunk (snd s k))))),
     cmd_zcard = (\<lambda>k s. length (remdups (map fst (snd s k)))),
     cmd_zadd = (\<lambda>k sc h s. (fst s, (snd s)(k := (h, sc) # snd s k))),
     cmd_expire = (\<lambda>k t s. s),
     cmd_zrem = (\<lambda>k h s. (fst s, (snd s)(k := AList.delete h (snd s k))))\<rparr>"

lemma map_of_filter_score:
  assumes "distinct (map fst xs)"
  shows "map_of (filter (\<lambda>p. m < snd p) xs) h =
    (case map_of xs h of None \<Rightarrow> None | Some sc \<Rightarrow> if sc \<le> (m :: int) then None else Some sc)"
  using assms
proof (induction xs)
  case Nil
  then show ?case by simp
next
  case (Cons p xs)
  then have "fst p \<notin> dom (map_of xs)" by (simp add: dom_map_of_conv_image_fst)
  with Cons show ?case by (cases p) (auto simp: domIff split: option.splits)
qed

lemma sample_redis_ok: "redis_ok sample_redis (\<lambda>k s. map_of (snd s k))"
  unfolding redis_ok_def sample_redis_def
  by (auto simp: finite_dom_map_of card_set [symmetric] dom_map_of_conv_image_fst length_remdups_card_conv
      map_of_filter_score distinct_clearjunk map_of_clearjunk delete_conv fun_eq_iff split: option.splits)

text \<open>A controller with one sample, for the examples.\<close>

definition sample_controller :: "int \<Rightarrow> controller" where
  "sample_controller bad = \<lparr>limit = 4, minimum = 1, maximum = 64, target_p95_seconds = 1,
     additive_step = 1, decrease_ratio = 1 / 2, latencies = [1 / 5], failures = bad\<rparr>"

lemma sample_controller_ok: "controller_ok (sample_controller bad)"
  by (simp add: controller_ok_def sample_controller_def)

lemma sample_percentile: "percentile [x] f = x"
  by (simp add: percentile_def Let_def)

lemma sample_rate:
  "failure_rate (fst (adjust (sample_controller 0))) = 0"
  "0 < failure_rate (fst (adjust (sample_controller 1)))"
  using fl_int [of 1] by (simp_all add: adjust_def sample_controller_def Let_def fl_def)

section \<open>Properties\<close>

text \<open>
  C32. The concurrency window stays between its bounds: an adjustment of a controller whose window is
  within them yields a window within them, double rounding included, and forgets the observations.
\<close>

theorem adjust_keeps_bounds:
  assumes "controller_ok c"
  shows "controller_ok (snd (adjust c)) \<and> latencies (snd (adjust c)) = [] \<and> failures (snd (adjust c)) = 0"
  using assms controller_ok_next [OF assms] by (auto simp: adjust_def Let_def controller_ok_def)

theorem adjust_keeps_bounds_witness: "controller_ok (snd (adjust (sample_controller 1)))"
  using adjust_keeps_bounds [OF sample_controller_ok] by blast





text \<open>
  C31. Admission never exceeds the window: when a holder is admitted, the number of unexpired holders
  is at most the window it was told; when it is refused, the window is full of other unexpired
  holders or its own earlier entry, and nobody is added or extended.
\<close>

theorem admission_bounded:
  assumes "redis_ok R members"
    and "acquire R self tn src holder default_limit lease_ms now_ms s = (Inr (admitted, cap), s')"
  shows "let k = inflight_key self tn src in
    (admitted \<longrightarrow> int (card (dom (members k s'))) \<le> cap \<and> members k s' holder = Some (now_ms + lease_ms)) \<and>
    (\<not> admitted \<longrightarrow> cap \<le> int (card (dom (members k s')))) \<and>
    (\<forall>h sc. h \<noteq> holder \<or> \<not> admitted \<longrightarrow>
       (members k s' h = Some sc \<longleftrightarrow> members k s h = Some sc \<and> now_ms < sc))"
proof -
  let ?k = "inflight_key self tn src"
  let ?s1 = "cmd_zremrangebyscore R ?k now_ms s"
  have m1: "members ?k ?s1 = (\<lambda>h. case members ?k s h of None \<Rightarrow> None | Some sc \<Rightarrow> if sc \<le> now_ms then None else Some sc)"
    and fin: "finite (dom (members ?k x))" and cd: "cmd_zcard R ?k x = card (dom (members ?k x))"
    and add: "members ?k (cmd_expire R ?k t (cmd_zadd R ?k sc h x)) = (members ?k x)(h \<mapsto> sc)" for x t sc h
    using assms(1) by (simp_all add: redis_ok_def)
  have "card (insert holder (dom (members ?k ?s1))) \<le> card (dom (members ?k ?s1)) + 1"
    using card_insert_le_m1 [of "card (dom (members ?k ?s1)) + 1"] fin by (simp add: card_insert_if)
  then show ?thesis
    using assms(2) add
    by (auto simp: acquire_def redis_admission_lua_def Let_def cd m1 split: sum.splits if_splits option.splits)
qed

theorem admission_bounded_witness:
  "\<exists>s1 s2. acquire sample_redis (make_aimd_state ''privacy:aimd'' 900) ''acme'' ''jobs'' ''t1'' 1 35000 1000
       (Map.empty, \<lambda>_. []) = (Inr (True, 1), s1) \<and>
     acquire sample_redis (make_aimd_state ''privacy:aimd'' 900) ''acme'' ''jobs'' ''t2'' 1 35000 2000 s1 =
       (Inr (False, 1), s2) \<and>
     1 \<le> int (card (dom (map_of (snd s2 (inflight_key (make_aimd_state ''privacy:aimd'' 900) ''acme'' ''jobs'')))))"
proof -
  let ?self = "make_aimd_state ''privacy:aimd'' 900"
  let ?k = "inflight_key ?self ''acme'' ''jobs''"
  let ?s0 = "(Map.empty, \<lambda>_. []) :: sample_redis_state"
  let ?s1 = "(Map.empty, (\<lambda>_. [])(?k := [(''t1'', 36000)])) :: sample_redis_state"
  have 1: "acquire sample_redis ?self ''acme'' ''jobs'' ''t1'' 1 35000 1000 ?s0 = (Inr (True, 1), ?s1)"
    by (simp add: acquire_def redis_admission_lua_def window_def sample_redis_def Let_def)
  have 2: "acquire sample_redis ?self ''acme'' ''jobs'' ''t2'' 1 35000 2000 ?s1 = (Inr (False, 1), ?s1)"
    by (simp add: acquire_def redis_admission_lua_def window_def sample_redis_def Let_def fun_eq_iff)
  from admission_bounded [OF sample_redis_ok 2] 1 2 show ?thesis
    by (intro exI [of _ ?s1]) (simp add: Let_def)
qed

text \<open>
  The percentile is the nearest-rank one: it is a sample, at least \<open>ceil(n * fraction)\<close> samples
  are not above it, and fewer than that are below it.
\<close>

theorem percentile_nearest_rank:
  assumes "values \<noteq> []" and "0 \<le> fraction" and "fraction \<le> 1" and "length values < 2 ^ 53"
  shows "percentile values fraction \<in> set values \<and>
    \<lceil>fl (of_int (int (length values)) * fraction)\<rceil> \<le> int (length (filter (\<lambda>v. v \<le> percentile values fraction) values)) \<and>
    int (length (filter (\<lambda>v. v < percentile values fraction) values)) \<le>
      max 0 (\<lceil>fl (of_int (int (length values)) * fraction)\<rceil> - 1)"
proof -
  let ?n = "int (length values)" and ?xs = "sort values"
  let ?r = "\<lceil>fl (of_int ?n * fraction)\<rceil>"
  let ?i = "nat (max (?r - 1) 0)"
  have n: "?n < 2 ^ 53" "1 \<le> ?n" using assms(1,4) by (simp_all add: Suc_leI)
  have "of_int ?n * fraction \<le> (of_int ?n :: rat)"
    using assms(3) mult_left_le [of fraction "of_int ?n :: rat"] by simp
  then have "fl (of_int ?n * fraction) \<le> of_int ?n" using assms(2) n by (intro fl_le_int) simp_all
  then have r: "?r \<le> ?n" by (simp add: ceiling_le_iff)
  then have i: "?i < length ?xs" using n(2) assms(1) by (simp add: nat_less_iff)
  have idx: "nat (max (min (?r - 1) (?n - 1)) 0) = ?i" using r by simp
  have p: "percentile values fraction = ?xs ! ?i"
    using assms(1) idx by (simp add: percentile_def Let_def)
  have cnt: "length (filter P values) = length (filter P ?xs)" for P
    by (simp add: filter_sort)
  have "?xs ! ?i \<in> set ?xs" using i by (rule nth_mem)
  moreover have "?r \<le> int (?i + 1)" by simp
  then have "?r \<le> int (length (filter (\<lambda>v. v \<le> ?xs ! ?i) ?xs))"
    using length_filter_le_nth [of ?xs ?i] i by (simp add: le_trans)
  moreover have "length (filter (\<lambda>v. v < ?xs ! ?i) ?xs) \<le> ?i"
    using length_filter_less_nth [of ?xs ?i] i by simp
  ultimately show ?thesis unfolding p cnt by auto
qed

theorem percentile_nearest_rank_witness:
  "percentile [3, 1, 2] (1 / 2) \<in> {1, 2, 3}"
  using percentile_nearest_rank [of "[3, 1, 2]" "1 / 2"] by auto

text \<open>
  The Redis keys separate tenants and sources: for source names without a colon and other than
  \<open>inflight\<close>, two window keys are equal only for the same tenant and source, even when tenant
  identifiers contain colons, and a window key is never an in-flight key.
\<close>

theorem aimd_keys_separate:
  assumes "CHR '':'' \<notin> set src" and "CHR '':'' \<notin> set src'" and "src' \<noteq> ''inflight''"
  shows "(aimd_key self t src = aimd_key self t' src' \<longleftrightarrow> t = t' \<and> src = src') \<and>
    (inflight_key self t src = inflight_key self t' src' \<longleftrightarrow> t = t' \<and> src = src') \<and>
    inflight_key self t src \<noteq> aimd_key self t' src'"
proof -
  have k: "aimd_key self t src = aimd_key self t' src' \<longleftrightarrow> t = t' \<and> src = src'"
    using last_separator [of t "CHR '':''" src t' src'] assms by (auto simp: aimd_key_def)
  have "inflight_key self t src = aimd_prefix self @ CHR '':'' # (t @ CHR '':'' # src) @ CHR '':'' # ''inflight''"
    and "aimd_key self t' src' = aimd_prefix self @ CHR '':'' # t' @ CHR '':'' # src'"
    by (simp_all add: inflight_key_def aimd_key_def)
  then have "inflight_key self t src \<noteq> aimd_key self t' src'"
    using last_separator [of "t @ CHR '':'' # src" "CHR '':''" "''inflight''" t' src'] assms(2,3) by auto
  with k show ?thesis by (simp add: inflight_key_def)
qed

theorem aimd_keys_separate_witness:
  "aimd_key (make_aimd_state ''privacy:aimd'' 900) ''a:b'' ''jobs'' \<noteq>
     aimd_key (make_aimd_state ''privacy:aimd'' 900) ''a'' ''profile''"
  using aimd_keys_separate [of "''jobs''" "''profile''" "make_aimd_state ''privacy:aimd'' 900" "''a:b''" "''a''"]
  by simp

end
