(* ===== verification/Connectors.thy ===== *)
theory Connectors
  imports Aimd Source_Api
begin

text \<open>
  \<open>services/source_connectors.py\<close>: the client of a regional source, its batches, and the executor
  that runs one leased task under the admission window shared on Redis. The HTTP client, the
  validation model of pydantic and Redis are arguments. The calls of one batch run concurrently; the
  model runs them in the order of the batch, all of them, and the batch fails with the first failure
  in that order.
\<close>

section \<open>The HTTP client and the payload model\<close>

record http_response =
  resp_status_code :: int
  resp_text :: string  \<comment> \<open>the decoded content\<close>
  resp_latency :: rat  \<comment> \<open>what the caller's clock measured\<close>

record 'h http_client =
  post :: "string \<Rightarrow> (string \<times> string) list \<Rightarrow> json \<Rightarrow> 'h \<Rightarrow> (error + http_response) \<times> 'h"

definition is_success :: "http_response \<Rightarrow> bool" where
  "is_success r \<longleftrightarrow> 200 \<le> resp_status_code r \<and> resp_status_code r \<le> 299"

record source_result_payload =
  sp_verified :: bool
  sp_record_count :: "int option"
  sp_deleted_count :: "int option"
  sp_remaining_count :: "int option"
  sp_extra :: "(string \<times> json) list"

text \<open>\<open>model_validate\<close> and \<open>model_dump(exclude_none=True)\<close> of the model class.\<close>

record pydantic =
  model_validate :: "json \<Rightarrow> error + source_result_payload"
  model_dump :: "source_result_payload \<Rightarrow> json"

definition assert_kind :: "source_result_payload \<Rightarrow> string \<Rightarrow> error + unit" where
  "assert_kind self kind =
     (if \<not> sp_verified self then Inl (ValueError ''regional source did not verify its result'')
      else if kind = ''delete'' \<and> sp_remaining_count self \<noteq> Some 0
      then Inl (ValueError ''regional delete readback found remaining records'')
      else Inr ())"

section \<open>The client\<close>

record regional_client =
  rc_base_url :: string
  rc_service_token :: string

definition make_regional_client :: "string \<Rightarrow> string \<Rightarrow> regional_client" where
  "make_regional_client base_url token = \<lparr>rc_base_url = rstrip_char CHR ''/'' base_url, rc_service_token = token\<rparr>"

definition request_headers :: "regional_client \<Rightarrow> source_operation \<Rightarrow> (string \<times> string) list" where
  "request_headers self operation =
     [(''X-Tenant-ID'', op_tenant_id operation),
      (''Idempotency-Key'', op_task_id operation @ '':'' @ op_source operation),
      (''X-Request-ID'', op_task_id operation)] @
     (if rc_service_token self \<noteq> [] then [(''Authorization'', ''Bearer '' @ rc_service_token self)] else [])"

definition execute ::
    "'h http_client \<Rightarrow> regional_client \<Rightarrow> source_operation \<Rightarrow> controller \<Rightarrow> 'h
       \<Rightarrow> (error + source_receipt) \<times> controller \<times> 'h" where
  "execute H self operation c h =
     (case post H (rc_base_url self @ ''/privacy/'' @ op_source operation @ ''/'' @ op_kind operation)
             (request_headers self operation)
             (JObj [(''subject_key_hash'', JStr (op_subject_key_hash operation))]) h of
        (Inl e, h') \<Rightarrow> (Inl e, c, h')
      | (Inr response, h') \<Rightarrow>
          (let succeeded = is_success response;
               c' = observe (resp_latency response) succeeded c
           in case (if resp_text response \<noteq> [] then json_loads (resp_text response) else Inr (JObj [])) of
                Inl e \<Rightarrow> (Inl e, c', h')
              | Inr payload \<Rightarrow>
                  (Inr \<lparr>rc_task_id = op_task_id operation, rc_succeeded = succeeded,
                        rc_status_code = resp_status_code response,
                        rc_latency_seconds = resp_latency response, rc_payload = payload\<rparr>, c', h')))"

section \<open>Batches\<close>

fun execute_each ::
    "'h http_client \<Rightarrow> regional_client \<Rightarrow> source_operation list \<Rightarrow> controller \<Rightarrow> 'h
       \<Rightarrow> (error + source_receipt) list \<times> controller \<times> 'h" where
  "execute_each H self [] c h = ([], c, h)"
| "execute_each H self (op # ops) c h =
     (case execute H self op c h of
        (r, c1, h1) \<Rightarrow> (case execute_each H self ops c1 h1 of (rs, c2, h2) \<Rightarrow> (r # rs, c2, h2)))"

fun gathered :: "(error + 'a) list \<Rightarrow> error + 'a list" where
  "gathered [] = Inr []"
| "gathered (r # rs) =
     (case r of Inl e \<Rightarrow> Inl e | Inr x \<Rightarrow> (case gathered rs of Inl e \<Rightarrow> Inl e | Inr xs \<Rightarrow> Inr (x # xs)))"

text \<open>\<open>xs[i:j]\<close> for a start that is not negative: an end below zero counts from the end.\<close>

definition py_slice :: "'a list \<Rightarrow> nat \<Rightarrow> int \<Rightarrow> 'a list" where
  "py_slice xs i j =
     (let stop = (if j < 0 then max 0 (int (length xs) + j) else j) in take (nat stop - i) (drop i xs))"

text \<open>
  The loop over the operations. With a window of at least one every round advances; the fuel is the
  number of rounds allowed.
\<close>

fun batch_loop ::
    "'h http_client \<Rightarrow> 's redis \<Rightarrow> aimd_state option \<Rightarrow> regional_client \<Rightarrow> nat \<Rightarrow> source_operation list \<Rightarrow> nat
       \<Rightarrow> source_receipt list \<Rightarrow> controller \<Rightarrow> 'h \<Rightarrow> 's
       \<Rightarrow> ((error + source_receipt list) \<times> controller \<times> 'h \<times> 's) option" where
  "batch_loop H R shared self fuel operations cursor receipts c h s =
     (if length operations \<le> cursor then Some (Inr receipts, c, h, s)
      else case fuel of
        0 \<Rightarrow> None
      | Suc n \<Rightarrow>
          (let operation = operations ! cursor in
           case (case shared of None \<Rightarrow> Inr (limit c)
                 | Some st \<Rightarrow> get_limit R st (op_tenant_id operation) (op_source operation) (limit c) s) of
             Inl e \<Rightarrow> Some (Inl e, c, h, s)
           | Inr l \<Rightarrow>
               (let c0 = c\<lparr>limit := l\<rparr>;
                    batch = py_slice operations cursor (int cursor + l);
                    (rs, c1, h1) = execute_each H self batch c0 h
                in case gathered rs of
                     Inl e \<Rightarrow> Some (Inl e, c1, h1, s)
                   | Inr xs \<Rightarrow>
                       (let (dec, c2) = adjust c1 in
                        case shared of
                          None \<Rightarrow>
                            batch_loop H R shared self n operations (cursor + length batch) (receipts @ xs) c2 h1 s
                        | Some st \<Rightarrow>
                            (case shared_adjust R st (op_tenant_id operation) (op_source operation) dec c2 s of
                               (Inl e, s1) \<Rightarrow> Some (Inl e, c2, h1, s1)
                             | (Inr (_, l'), s1) \<Rightarrow>
                                 batch_loop H R shared self n operations (cursor + length batch)
                                   (receipts @ xs) (c2\<lparr>limit := l'\<rparr>) h1 s1)))))"

declare batch_loop.simps [simp del]

definition execute_batch ::
    "'h http_client \<Rightarrow> 's redis \<Rightarrow> aimd_state option \<Rightarrow> regional_client \<Rightarrow> nat \<Rightarrow> source_operation list
       \<Rightarrow> controller \<Rightarrow> 'h \<Rightarrow> 's \<Rightarrow> ((error + source_receipt list) \<times> controller \<times> 'h \<times> 's) option" where
  "execute_batch H R shared self fuel operations c h s =
     (if 1 < card (set (map (\<lambda>op. (op_tenant_id op, op_source op)) operations))
      then Some (Inl (ValueError ''one connector batch must target one tenant and data source''), c, h, s)
      else batch_loop H R shared self fuel operations 0 [] c h s)"

section \<open>The executor\<close>

record source_executor =
  ex_client :: regional_client
  ex_controller :: controller
  ex_shared :: aimd_state
  ex_admission_timeout_ms :: int

definition make_executor :: "string \<Rightarrow> aimd_state \<Rightarrow> int \<Rightarrow> string \<Rightarrow> source_executor" where
  "make_executor base_url shared timeout_ms token =
     \<lparr>ex_client = make_regional_client base_url token, ex_controller = default_controller,
      ex_shared = shared, ex_admission_timeout_ms = timeout_ms\<rparr>"

definition executor_from_settings :: "settings \<Rightarrow> error + source_executor" where
  "executor_from_settings cfg =
     (if \<not> py_startswith (regional_source_base_url cfg) ''https://'' \<or> redis_url cfg = []
         \<or> regional_source_token cfg = []
      then Inl (ValueError ''HTTPS regional source, Redis URL and service token are required'')
      else Inr (make_executor (regional_source_base_url cfg) (aimd_from_url None)
                  (source_admission_timeout_ms cfg) (regional_source_token cfg)))"

text \<open>
  \<open>close\<close>: the connections that are closed, in order. A Redis client closes when it has an \<open>aclose\<close>.
\<close>

datatype connection = HttpClient | RedisClient | Engine

definition executor_close :: "bool \<Rightarrow> connection list" where
  "executor_close redis_has_aclose = HttpClient # (if redis_has_aclose then [RedisClient] else [])"

text \<open>
  What a run of the executor meets: the readings of the wall clock and of the monotonic clock (both
  in milliseconds; \<open>w_start\<close> is the monotonic reading before the loop), and what other clients do to
  Redis between two attempts.
\<close>

record 's world =
  w_wall_ms :: "nat \<Rightarrow> int"
  w_mono_ms :: "nat \<Rightarrow> int"
  w_start_ms :: int
  w_others :: "nat \<Rightarrow> 's \<Rightarrow> 's"

fun admission_loop ::
    "'s redis \<Rightarrow> source_executor \<Rightarrow> source_operation \<Rightarrow> 's world \<Rightarrow> nat \<Rightarrow> nat \<Rightarrow> controller \<Rightarrow> 's
       \<Rightarrow> ((error + controller) \<times> 's) option" where
  "admission_loop R self operation w 0 k c s = None"
| "admission_loop R self operation w (Suc n) k c s =
     (case acquire R (ex_shared self) (op_tenant_id operation) (op_source operation) (op_task_id operation)
             (limit c) (ex_admission_timeout_ms self + 5000) (w_wall_ms w k) s of
        (Inl e, s1) \<Rightarrow> Some (Inl e, s1)
      | (Inr (admitted, l), s1) \<Rightarrow>
          if admitted then Some (Inr (c\<lparr>limit := l\<rparr>), s1)
          else if w_start_ms w + ex_admission_timeout_ms self \<le> w_mono_ms w k
          then Some (Inl (TimeoutError ''regional source admission timed out''), s1)
          else admission_loop R self operation w n (k + 1) (c\<lparr>limit := l\<rparr>) (w_others w k s1))"

definition publish_decision ::
    "'s redis \<Rightarrow> source_executor \<Rightarrow> source_operation \<Rightarrow> controller \<Rightarrow> 's \<Rightarrow> (error + unit) \<times> 's" where
  "publish_decision R self operation c s =
     (let (dec, c') = adjust c in
      case shared_adjust R (ex_shared self) (op_tenant_id operation) (op_source operation) dec c' s of
        (Inl e, s') \<Rightarrow> (Inl e, s') | (Inr _, s') \<Rightarrow> (Inr (), s'))"

text \<open>The inner try block: the call, and for a success the validation of its payload.\<close>

definition checked_execute ::
    "'h http_client \<Rightarrow> pydantic \<Rightarrow> regional_client \<Rightarrow> source_operation \<Rightarrow> controller \<Rightarrow> 'h
       \<Rightarrow> (error + source_receipt) \<times> controller \<times> 'h" where
  "checked_execute H P client operation c h =
     (case execute H client operation c h of
        (Inl e, c', h') \<Rightarrow> (Inl e, c', h')
      | (Inr receipt, c', h') \<Rightarrow>
          if \<not> rc_succeeded receipt then (Inr receipt, c', h')
          else (case model_validate P (rc_payload receipt) of
                  Inl e \<Rightarrow> (Inl e, c', h')
                | Inr payload \<Rightarrow>
                    (case assert_kind payload (op_kind operation) of
                       Inl e \<Rightarrow> (Inl e, c', h')
                     | Inr _ \<Rightarrow> (Inr (receipt\<lparr>rc_payload := model_dump P payload\<rparr>), c', h'))))"

definition executor_execute ::
    "'h http_client \<Rightarrow> 's redis \<Rightarrow> pydantic \<Rightarrow> source_executor \<Rightarrow> source_operation \<Rightarrow> 's world \<Rightarrow> nat
       \<Rightarrow> 'h \<Rightarrow> 's \<Rightarrow> ((error + source_receipt) \<times> 'h \<times> 's) option" where
  "executor_execute H R P self operation w fuel h s =
     (let c = (ex_controller self)\<lparr>latencies := [], failures := 0\<rparr>;
          done = (\<lambda>s. release R (ex_shared self) (op_tenant_id operation) (op_source operation)
                        (op_task_id operation) s)
      in case admission_loop R self operation w fuel 0 c s of
           None \<Rightarrow> None
         | Some (Inl e, s1) \<Rightarrow> Some (Inl e, h, s1)
         | Some (Inr c1, s1) \<Rightarrow>
             (case checked_execute H P (ex_client self) operation c1 h of
                (Inl e, c2, h1) \<Rightarrow>
                  (case publish_decision R self operation (observe 0 False c2) s1 of
                     (Inl e', s2) \<Rightarrow> Some (Inl e', h1, done s2)
                   | (Inr _, s2) \<Rightarrow> Some (Inl e, h1, done s2))
              | (Inr receipt, c2, h1) \<Rightarrow>
                  (case publish_decision R self operation c2 s1 of
                     (Inl e', s2) \<Rightarrow> Some (Inl e', h1, done s2)
                   | (Inr _, s2) \<Rightarrow> Some (Inr receipt, h1, done s2))))"

end
