(* ===== verification/Queue_Worker.thy ===== *)
theory Queue_Worker
  imports Worker_Invariant Outbox Connectors
begin

text \<open>
  \<open>services/queue_worker.py\<close>: a queue message names a task; the worker claims the row, runs the task
  and acknowledges the message only when the handler says so. Every database transaction of a
  handler has an environment of its own (\<open>envs 0\<close> for the claim, \<open>envs 1\<close> for the work, \<open>envs 2\<close> for
  the heartbeats). The messages of a pass are handled one after the other; finer interleavings are
  those of the step relation in \<open>System\<close>.
\<close>

section \<open>Claiming the task of a message\<close>

datatype claim_result = CLAIMED | TERMINAL_DUPLICATE | BUSY | MISSING

text \<open>
  The row is read first and updated afterwards; \<open>d0\<close> is the state of the read and \<open>d\<close> that of the
  update, so that another worker may commit in between.
\<close>

definition claim_message_task_racing ::
    "'st env \<Rightarrow> string \<Rightarrow> string \<Rightarrow> int \<Rightarrow> cloud \<Rightarrow> cloud \<Rightarrow> claim_result \<times> cloud" where
  "claim_message_task_racing env task_id worker_id secs d0 d =
     (case find (\<lambda>t. rt_id t = task_id) (tasks d0) of
        None \<Rightarrow> (MISSING, d)
      | Some task \<Rightarrow>
          if rt_status task \<in> {T_SUCCEEDED, T_FAILED} then (TERMINAL_DUPLICATE, d)
          else (case filter (\<lambda>t. rt_id t = task_id \<and> claimable (e_now env) t) (tasks d) of
                  [] \<Rightarrow> (BUSY, d)
                | t # _ \<Rightarrow>
                    (CLAIMED, start_requests (e_now env) [rt_request_id t]
                       (d\<lparr>tasks := upd_where (\<lambda>t. rt_id t = task_id \<and> claimable (e_now env) t)
                            (lease_task worker_id (e_now env) (lease_until (e_now env) secs)) (tasks d)\<rparr>))))"

definition claim_message_task :: "'st env \<Rightarrow> string \<Rightarrow> string \<Rightarrow> int \<Rightarrow> cloud \<Rightarrow> claim_result \<times> cloud" where
  "claim_message_task env task_id worker_id secs d = claim_message_task_racing env task_id worker_id secs d d"

section \<open>Handling a message\<close>

definition json_get_or :: "json \<Rightarrow> string \<Rightarrow> json \<Rightarrow> error + json" where
  "json_get_or v k default_value =
     (case json_get v k of Inl e \<Rightarrow> Inl e | Inr None \<Rightarrow> Inr default_value | Inr (Some x) \<Rightarrow> Inr x)"

text \<open>The task a message is about: none for another event type or an empty identifier.\<close>

definition message_task_id :: "json \<Rightarrow> error + string option" where
  "message_task_id b =
     (case json_get b ''event_type'' of
        Inl e \<Rightarrow> Inl e
      | Inr ty \<Rightarrow>
          if ty \<noteq> Some (JStr ''privacy_task.ready'') then Inr None
          else case json_get_or b ''payload'' (JObj []) of
                 Inl e \<Rightarrow> Inl e
               | Inr payload \<Rightarrow>
                   (case json_get_or payload ''task_id'' (JStr []) of
                      Inl e \<Rightarrow> Inl e
                    | Inr v \<Rightarrow> if py_str v = [] then Inr None else Inr (Some (py_str v))))"

definition handle_task_envelope ::
    "(nat \<Rightarrow> 'st env) \<Rightarrow> executor option \<Rightarrow> string \<Rightarrow> int \<Rightarrow> json \<Rightarrow> cloud \<Rightarrow> 'st
       \<Rightarrow> (error + bool) \<times> cloud \<times> 'st" where
  "handle_task_envelope envs source_executor worker_id secs b d st =
     (case message_task_id b of
        Inl e \<Rightarrow> (Inl e, d, st)
      | Inr None \<Rightarrow> (Inr True, d, st)
      | Inr (Some task_id) \<Rightarrow>
          (case claim_message_task (envs 0) task_id worker_id secs d of
             (MISSING, d1) \<Rightarrow> (Inr True, d1, st)
           | (TERMINAL_DUPLICATE, d1) \<Rightarrow>
               (case find (\<lambda>t. rt_id t = task_id) (tasks d1) of
                  None \<Rightarrow> (Inr True, d1, st)
                | Some task \<Rightarrow>
                    (case refresh_request_status (envs 1) (rt_request_id task) d1 st of
                       (Inl e, d2, st') \<Rightarrow> (Inl e, d2, st')
                     | (Inr _, d2, st') \<Rightarrow> (Inr True, d2, st')))
           | (BUSY, d1) \<Rightarrow> (Inr False, d1, st)
           | (CLAIMED, d1) \<Rightarrow> execute_task (envs 1) source_executor task_id worker_id d1 st))"

definition extend_task_lease :: "'st env \<Rightarrow> string \<Rightarrow> string \<Rightarrow> int \<Rightarrow> cloud \<Rightarrow> bool \<times> cloud" where
  "extend_task_lease env task_id worker_id secs d =
     (let held = (\<lambda>t. rt_id t = task_id \<and> rt_status t = T_RUNNING \<and> rt_lease_owner t = Some worker_id) in
      (filter held (tasks d) \<noteq> [],
       d\<lparr>tasks := upd_where held (\<lambda>t. t\<lparr>rt_lease_expires_at := Some (lease_until (e_now env) secs),
                                          rt_updated_at := e_now env\<rparr>) (tasks d)\<rparr>))"

definition heartbeat_database_lease ::
    "'st env \<Rightarrow> string \<Rightarrow> int \<Rightarrow> json \<Rightarrow> cloud \<times> 'st \<Rightarrow> (error + unit) \<times> cloud \<times> 'st" where
  "heartbeat_database_lease env worker_id secs b w =
     (case message_task_id b of
        Inl e \<Rightarrow> (Inl e, w)
      | Inr None \<Rightarrow> (Inr (), w)
      | Inr (Some task_id) \<Rightarrow>
          (Inr (), snd (extend_task_lease env task_id worker_id secs (fst w)), snd w))"

definition consume_task_message ::
    "'q task_queue \<Rightarrow> (nat \<Rightarrow> 'st env) \<Rightarrow> executor option \<Rightarrow> string \<Rightarrow> nat \<times> nat \<Rightarrow> queue_message
       \<Rightarrow> cloud \<times> 'st \<Rightarrow> 'q \<Rightarrow> (error + bool) \<times> (cloud \<times> 'st) \<times> 'q" where
  "consume_task_message Q envs source_executor worker_id ticks m w q =
     (let cfg = e_settings (envs 0);
          handle = (\<lambda>b w. case handle_task_envelope envs source_executor worker_id (lease_seconds cfg) b
                              (fst w) (snd w) of (r, d, st) \<Rightarrow> (r, (d, st)))
      in consume_with_heartbeat Q m handle (sqs_visibility_timeout_seconds cfg)
           (Some (heartbeat_database_lease (envs 2) worker_id (lease_seconds cfg) (body m))) ticks w q)"

section \<open>A pass of the worker\<close>

text \<open>An exception of one message is logged and counts as not acknowledged.\<close>

fun consume_all ::
    "'q task_queue \<Rightarrow> (nat \<Rightarrow> nat \<Rightarrow> 'st env) \<Rightarrow> executor option \<Rightarrow> string \<Rightarrow> (nat \<Rightarrow> nat \<times> nat) \<Rightarrow> nat
       \<Rightarrow> queue_message list \<Rightarrow> cloud \<times> 'st \<Rightarrow> 'q \<Rightarrow> nat \<times> (cloud \<times> 'st) \<times> 'q" where
  "consume_all Q runs ex worker_id ticks k [] w q = (0, w, q)"
| "consume_all Q runs ex worker_id ticks k (m # ms) w q =
     (case consume_task_message Q (runs k) ex worker_id (ticks k) m w q of
        (r, w1, q1) \<Rightarrow>
          (case consume_all Q runs ex worker_id ticks (k + 1) ms w1 q1 of
             (n, w2, q2) \<Rightarrow> ((if r = Inr True then 1 else 0) + n, w2, q2)))"

record worker_pass_result =
  w_outbox_published :: nat
  w_received :: nat
  w_acknowledged :: nat

definition run_worker_pass ::
    "'q task_queue \<Rightarrow> dialect \<Rightarrow> (string \<Rightarrow> bool) \<Rightarrow> (nat \<Rightarrow> time) \<Rightarrow> (nat \<Rightarrow> nat \<Rightarrow> 'st env) \<Rightarrow> executor option
       \<Rightarrow> string \<Rightarrow> int \<Rightarrow> (nat \<Rightarrow> nat \<times> nat) \<Rightarrow> cloud \<times> 'st \<Rightarrow> 'q
       \<Rightarrow> (error + worker_pass_result) \<times> (cloud \<times> 'st) \<times> 'q" where
  "run_worker_pass Q dialect locked clock runs ex worker_id poll_wait_seconds ticks w q =
     (let (relay, d1, q1) = relay_outbox_once Q dialect locked clock 100 (fst w) q in
      case receive Q 10 poll_wait_seconds q1 of
        (Inl e, q2) \<Rightarrow> (Inl e, (d1, snd w), q2)
      | (Inr messages, q2) \<Rightarrow>
          (case consume_all Q runs ex worker_id ticks 0 messages (d1, snd w) q2 of
             (n, w', q3) \<Rightarrow>
               (Inr \<lparr>w_outbox_published = r_published relay, w_received = length messages,
                     w_acknowledged = n\<rparr>, w', q3)))"

text \<open>What \<open>run_worker\<close> builds before its loop.\<close>

datatype source_choice = DatabaseSource | HttpSource source_executor

definition worker_setup :: "settings \<Rightarrow> error + (queue_kind \<times> source_choice)" where
  "worker_setup cfg =
     (case build_task_queue cfg of
        Inl e \<Rightarrow> Inl e
      | Inr queue \<Rightarrow>
          if source_backend cfg = ''database'' then Inr (queue, DatabaseSource)
          else if source_backend cfg = ''http''
          then (case executor_from_settings cfg of Inl e \<Rightarrow> Inl e | Inr ex \<Rightarrow> Inr (queue, HttpSource ex))
          else Inl (ValueError (''unsupported source backend: '' @ source_backend cfg)))"

text \<open>
  The loop: \<open>n\<close> passes begin before the stop event is set; with \<open>once\<close> the loop ends after the
  first. An exception of a pass ends the worker.
\<close>

fun worker_loop ::
    "(nat \<Rightarrow> 'w \<Rightarrow> (error + 'r) \<times> 'w) \<Rightarrow> bool \<Rightarrow> nat \<Rightarrow> nat \<Rightarrow> 'w \<Rightarrow> (error + 'r list) \<times> 'w" where
  "worker_loop one_pass once k 0 w = (Inr [], w)"
| "worker_loop one_pass once k (Suc n) w =
     (case one_pass k w of
        (Inl e, w') \<Rightarrow> (Inl e, w')
      | (Inr r, w') \<Rightarrow>
          if once then (Inr [r], w')
          else (case worker_loop one_pass once (k + 1) n w' of
                  (Inl e, w'') \<Rightarrow> (Inl e, w'') | (Inr rs, w'') \<Rightarrow> (Inr (r # rs), w'')))"

text \<open>The queue that the settings ask for, over the in-process queue and the state of the SQS client.\<close>

definition queue_within :: "('q \<Rightarrow> 'x) \<Rightarrow> ('x \<Rightarrow> 'q \<Rightarrow> 'q) \<Rightarrow> 'x task_queue \<Rightarrow> 'q task_queue" where
  "queue_within get put Q =
     \<lparr>publish = (\<lambda>b q. case publish Q b (get q) of (r, x) \<Rightarrow> (r, put x q)),
      receive = (\<lambda>n wait q. case receive Q n wait (get q) of (r, x) \<Rightarrow> (r, put x q)),
      heartbeat = (\<lambda>h vis q. case heartbeat Q h vis (get q) of (r, x) \<Rightarrow> (r, put x q)),
      ack = (\<lambda>h q. case ack Q h (get q) of (r, x) \<Rightarrow> (r, put x q))\<rparr>"

fun built_queue :: "'s sqs_client \<Rightarrow> queue_kind \<Rightarrow> (local_queue \<times> 's) task_queue" where
  "built_queue client LocalQueue = queue_within fst (\<lambda>x q. (x, snd q)) local_task_queue"
| "built_queue client (SqsQueue self) = queue_within snd (\<lambda>x q. (fst q, x)) (sqs_task_queue client self)"

text \<open>What is closed when the loop has ended without an exception.\<close>

definition worker_close :: "bool \<Rightarrow> source_choice \<Rightarrow> connection list" where
  "worker_close redis_has_aclose source =
     (case source of DatabaseSource \<Rightarrow> [] | HttpSource _ \<Rightarrow> executor_close redis_has_aclose) @ [Engine]"

text \<open>
  \<open>run_worker\<close>: set up, loop, close. \<open>connect\<close> gives the calls of an executor over its HTTP client and
  Redis; the k-th pass has its own clock, environments and heartbeats. The result comes with the
  connections that were closed: an exception of a pass leaves them all open.
\<close>

definition run_worker ::
    "settings \<Rightarrow> 's sqs_client \<Rightarrow> (source_executor \<Rightarrow> executor) \<Rightarrow> bool \<Rightarrow> dialect \<Rightarrow> (string \<Rightarrow> bool) \<Rightarrow> (nat \<Rightarrow> nat \<Rightarrow> time)
       \<Rightarrow> (nat \<Rightarrow> nat \<Rightarrow> nat \<Rightarrow> 'st env) \<Rightarrow> string \<Rightarrow> (nat \<Rightarrow> nat \<Rightarrow> nat \<times> nat) \<Rightarrow> bool \<Rightarrow> int \<Rightarrow> nat
       \<Rightarrow> (cloud \<times> 'st) \<times> local_queue \<times> 's
       \<Rightarrow> ((error + worker_pass_result list) \<times> connection list) \<times> (cloud \<times> 'st) \<times> local_queue \<times> 's" where
  "run_worker cfg client connect redis_has_aclose dialect locked clocks runs worker_id ticks once poll_wait_seconds n w =
     (case worker_setup cfg of
        Inl e \<Rightarrow> ((Inl e, []), w)
      | Inr (queue, source) \<Rightarrow>
          (let source_executor = (case source of DatabaseSource \<Rightarrow> None | HttpSource ex \<Rightarrow> Some (connect ex)) in
           case worker_loop (\<lambda>k w. run_worker_pass (built_queue client queue) dialect locked (clocks k) (runs k) source_executor
               worker_id poll_wait_seconds (ticks k) (fst w) (snd w)) once 0 n w of
             (Inl e, w') \<Rightarrow> ((Inl e, []), w')
           | (Inr results, w') \<Rightarrow> ((Inr results, worker_close redis_has_aclose source), w')))"

section \<open>The invariant\<close>

lemma claim_message_cases:
  assumes "keys_ok d" and "claim_message_task_racing env i w secs d0 d = (res, d')"
  obtains (unchanged) "res \<noteq> CLAIMED" "d' = d"
    | (claimed) t where "res = CLAIMED" "t \<in> set (tasks d)" "rt_id t = i" "claimable (e_now env) t"
        "d' = start_requests (e_now env) [rt_request_id t]
               (d\<lparr>tasks := upd_where (\<lambda>s. rt_id s = i)
                  (lease_task w (e_now env) (lease_until (e_now env) secs)) (tasks d)\<rparr>)"
proof (cases "filter (\<lambda>t. rt_id t = i \<and> claimable (e_now env) t) (tasks d)")
  case Nil
  with assms(2) unchanged show ?thesis
    by (auto simp: claim_message_task_racing_def split: option.splits if_splits)
next
  case (Cons t ts)
  then have t: "t \<in> set (tasks d)" "rt_id t = i" "claimable (e_now env) t"
    by (auto simp: filter_eq_Cons_iff)
  have "s = t" if "s \<in> set (tasks d)" "rt_id s = i" for s
    using assms(1) t that key_inj [of rt_id "tasks d" s t] by (simp add: keys_ok_def)
  then have same: "upd_where (\<lambda>s. rt_id s = i \<and> claimable (e_now env) s) f (tasks d) =
      upd_where (\<lambda>s. rt_id s = i) f (tasks d)" for f
    using t(3) by (auto simp: upd_where_def)
  show ?thesis
  proof (cases "res = CLAIMED")
    case True
    with assms(2) Cons t same show ?thesis
      by (intro claimed [of t]) (auto simp: claim_message_task_racing_def split: option.splits if_splits)
  next
    case False
    with assms(2) Cons unchanged show ?thesis
      by (auto simp: claim_message_task_racing_def split: option.splits if_splits)
  qed
qed

text \<open>
  A successful message claim is a batch claim of the one task, so it inherits what is known of
  claims.
\<close>

lemma claim_message_as_batch:
  assumes "keys_ok d" and "t \<in> set (tasks d)" and "claimable (e_now env) t"
    and "d' = start_requests (e_now env) [rt_request_id t]
               (d\<lparr>tasks := upd_where (\<lambda>s. rt_id s = rt_id t)
                  (lease_task w (e_now env) (lease_until (e_now env) secs)) (tasks d)\<rparr>)"
  shows "d' = snd (claim_tasks PostgreSQL (\<lambda>j. j \<noteq> rt_id t)
    (env\<lparr>e_settings := (e_settings env)\<lparr>lease_seconds := secs\<rparr>\<rparr>) w None (Some 1) None d)"
proof -
  let ?env = "env\<lparr>e_settings := (e_settings env)\<lparr>lease_seconds := secs\<rparr>\<rparr>"
  have own: "filter (\<lambda>s. rt_id s = rt_id t) (tasks d) = [t]"
    using assms(1,2) by (simp add: keys_ok_def filter_key_singleton)
  have "filter (\<lambda>s. claimable (e_now env) s \<and> rt_id s = rt_id t) (tasks d) =
      filter (\<lambda>s. claimable (e_now env) s) (filter (\<lambda>s. rt_id s = rt_id t) (tasks d))"
    by (simp add: conj_commute)
  also have "\<dots> = [t]" using assms(3) by (simp only: own) simp
  finally have ids: "claim_ids PostgreSQL (\<lambda>j. j \<noteq> rt_id t) ?env None (Some 1) d = [rt_id t]"
    by (simp add: claim_ids_def claim_candidates_def or_default_nat_def)
  show ?thesis
    by (simp add: assms(4) claim_tasks_def ids own or_default_int_def Let_def del: One_nat_def)
qed

lemma claim_message_core:
  assumes "core_ok sha256 d" and "claim_message_task_racing env i w secs d0 d = (res, d')"
  shows "core_ok sha256 d'"
  using core_ok_keys [OF assms(1)] assms(2)
proof (cases rule: claim_message_cases)
  case (claimed t)
  with claim_message_as_batch [OF core_ok_keys [OF assms(1)] claimed(2,4), of d' w secs] show ?thesis
    using assms(1) claim_core by auto
qed (use assms(1) in simp)

lemma claim_message_status:
  assumes "core_ok sha256 d" and "status_ok d" and "claim_message_task_racing env i w secs d0 d = (res, d')"
  shows "status_ok d'"
  using core_ok_keys [OF assms(1)] assms(3)
proof (cases rule: claim_message_cases)
  case (claimed t)
  with claim_message_as_batch [OF core_ok_keys [OF assms(1)] claimed(2,4), of d' w secs] show ?thesis
    using assms(1,2) claim_status by auto
qed (use assms(2) in simp)

lemma claim_message_ok:
  assumes "cloud_ok sha256 d" and "claim_message_task_racing env i w secs d0 d = (res, d')"
  shows "cloud_ok sha256 d'"
  using assms claim_message_core claim_message_status by (auto simp: cloud_ok_def)

lemma extend_lease_frame:
  "map task_frame (tasks (snd (extend_task_lease env i w secs d))) = map task_frame (tasks d)"
  "requests (snd (extend_task_lease env i w secs d)) = requests d"
  "outbox (snd (extend_task_lease env i w secs d)) = outbox d"
  "audit (snd (extend_task_lease env i w secs d)) = audit d"
  "records (snd (extend_task_lease env i w secs d)) = records d"
  by (simp_all add: extend_task_lease_def Let_def map_upd_where task_frame_def)

lemma extend_lease_statuses: "statuses (snd (extend_task_lease env i w secs d)) j = statuses d j"
proof -
  have "map rt_status (filter (\<lambda>t. rt_request_id t = j) (upd_where P (\<lambda>t. t\<lparr>rt_lease_expires_at := x, rt_updated_at := y\<rparr>) ts))
      = map rt_status (filter (\<lambda>t. rt_request_id t = j) ts)" for P x y and ts :: "request_task list"
    by (induction ts) auto
  then show ?thesis by (simp add: extend_task_lease_def statuses_def request_tasks_def Let_def)
qed

lemma extended_task_ok:
  "task_ok t \<Longrightarrow> rt_lease_owner t = Some w \<Longrightarrow>
   task_ok (t\<lparr>rt_lease_expires_at := Some x, rt_updated_at := y\<rparr>)"
  by (simp add: task_ok_def)

lemma extend_lease_core:
  assumes "core_ok sha256 d"
  shows "core_ok sha256 (snd (extend_task_lease env i w secs d))" (is "core_ok sha256 ?d")
proof -
  note f = extend_lease_frame [of env i w secs d]
  have "keys_ok ?d"
    by (rule keys_ok_same [OF core_ok_keys [OF assms] f(1)])
       (use f assms in \<open>simp_all add: core_ok_def keys_ok_def\<close>)
  moreover have "list_all task_ok (tasks ?d)"
    using assms by (auto simp: extend_task_lease_def Let_def core_ok_def list_all_iff in_upd_where extended_task_ok)
  moreover have "chains_ok sha256 ?d" using assms chains_ok_audit [OF f(4)] by (simp add: core_ok_def)
  ultimately show ?thesis using f by (intro core_ok_step [OF assms]) simp_all
qed

lemma extend_lease_status: "status_ok (snd (extend_task_lease env i w secs d)) = status_ok d"
  using extend_lease_frame(2) [of env i w secs d]
  by (simp add: status_ok_def status_agrees_def[abs_def] extend_lease_statuses)

text \<open>A worker with settings it does not support touches nothing; with \<open>once\<close> it makes one pass.\<close>

lemma run_worker_refuses:
  assumes "worker_setup cfg = Inl e"
  shows "run_worker cfg client connect has dialect locked clocks runs worker_id ticks once wait n w = ((Inl e, []), w)"
  using assms by (simp add: run_worker_def)

lemma worker_loop_once:
  assumes "worker_loop one_pass True k n w = (Inr rs, w')"
  shows "length rs \<le> 1 \<and> (0 < n \<longrightarrow> (\<exists>r. rs = [r] \<and> one_pass k w = (Inr r, w')))"
  using assms by (cases n) (auto split: prod.splits sum.splits)

lemma handle_ok:
  assumes "cloud_ok sha256 d" and "\<And>k. e_sha256 (envs k) = sha256" and "e_late_records (envs 1) = []"
    and "handle_task_envelope envs ex w secs b d st = (res, d', st')"
  shows "cloud_ok sha256 d'"
proof -
  consider (none) "d' = d" | (some) i where "message_task_id b = Inr (Some i)"
    using assms(4) by (auto simp: handle_task_envelope_def split: sum.splits option.splits)
  then show ?thesis
  proof cases
    case (some i)
    obtain r d1 where claim: "claim_message_task (envs 0) i w secs d = (r, d1)"
      by (cases "claim_message_task (envs 0) i w secs d")
    have ok1: "cloud_ok sha256 d1"
      using claim_message_ok [OF assms(1)] claim by (simp add: claim_message_task_def)
    then have k1: "keys_ok d1" and late: "late_ok (envs 1) d1"
      using assms(3) by (simp_all add: cloud_ok_def core_ok_def late_ok_def keys_ok_def)
    have ex: "cloud_ok sha256 d'" if "execute_task (envs 1) ex i w d1 st = (res, d', st')"
      using execute_task_ok [OF _ late that] ok1 assms(2) by simp
    have re: "cloud_ok sha256 d2" if "refresh_request_status (envs 1) j d1 st = (x, d2, st2)" for j x d2 st2
      using refresh_ok [OF _ that] ok1 assms(2) by simp
    show ?thesis
      using assms(4) some claim ok1 ex re
      by (cases r) (auto simp: handle_task_envelope_def split: option.splits prod.splits sum.splits)
  qed (use assms(1) in simp)
qed

end
