(* ===== verification/Metrics.thy ===== *)
theory Metrics
  imports Models Complex_Main
begin

text \<open>
  \<open>metrics.py\<close>: the three metrics as they are declared, and what the registry holds of them. The state
  keeps one log of label values per metric (\<open>m_request_created\<close> and its neighbours), so the value of a
  counter for some labels is the number of their entries. The observed durations themselves are not
  part of the state, only that a task was observed.
\<close>

record metric =
  mt_name :: string
  mt_documentation :: string
  mt_labels :: "string list"
  mt_buckets :: "rat list"

definition REQUEST_CREATED :: metric where
  "REQUEST_CREATED = \<lparr>mt_name = ''privacy_requests_created_total'', mt_documentation = ''Created privacy requests'',
     mt_labels = [''kind''], mt_buckets = []\<rparr>"

definition REQUEST_COMPLETED :: metric where
  "REQUEST_COMPLETED = \<lparr>mt_name = ''privacy_requests_completed_total'', mt_documentation = ''Completed privacy requests'',
     mt_labels = [''kind'', ''status''], mt_buckets = []\<rparr>"

definition TASK_DURATION :: metric where
  "TASK_DURATION = \<lparr>mt_name = ''privacy_task_duration_seconds'', mt_documentation = ''Privacy source task duration'',
     mt_labels = [''source'', ''kind''],
     mt_buckets = [1/1000, 5/1000, 1/100, 25/1000, 5/100, 1/10, 25/100, 5/10, 1, 2, 5]\<rparr>"

text \<open>The label values with which each metric was counted.\<close>

definition created_labels :: "cloud \<Rightarrow> string list list" where
  "created_labels d = map (\<lambda>k. [kind_value k]) (m_request_created d)"

definition completed_labels :: "cloud \<Rightarrow> string list list" where
  "completed_labels d = map (\<lambda>x. [kind_value (fst x), status_value (snd x)]) (m_request_completed d)"

definition duration_labels :: "cloud \<Rightarrow> string list list" where
  "duration_labels d = map (\<lambda>x. [fst x, kind_value (snd x)]) (m_task_duration d)"

type_synonym sample = "metric \<times> string list \<times> nat"

definition samples :: "metric \<Rightarrow> string list list \<Rightarrow> sample list" where
  "samples m logged = map (\<lambda>labels. (m, labels, count_list logged labels)) (remdups logged)"

definition registry :: "cloud \<Rightarrow> sample list" where
  "registry d = samples REQUEST_CREATED (created_labels d) @ samples REQUEST_COMPLETED (completed_labels d) @
     samples TASK_DURATION (duration_labels d)"

text \<open>The value a registry reports for a metric and its labels, zero when there is no sample.\<close>

definition reported :: "sample list \<Rightarrow> metric \<Rightarrow> string list \<Rightarrow> nat" where
  "reported reg m labels = (case find (\<lambda>s. fst s = m \<and> fst (snd s) = labels) reg of None \<Rightarrow> 0 | Some s \<Rightarrow> snd (snd s))"

lemma metric_names_distinct:
  "REQUEST_CREATED \<noteq> REQUEST_COMPLETED" "REQUEST_CREATED \<noteq> TASK_DURATION" "REQUEST_COMPLETED \<noteq> TASK_DURATION"
  by (simp_all add: REQUEST_CREATED_def REQUEST_COMPLETED_def TASK_DURATION_def)

lemma find_append: "find P (xs @ ys) = (case find P xs of None \<Rightarrow> find P ys | Some x \<Rightarrow> Some x)"
  by (induction xs) auto

lemma find_samples:
  "find (\<lambda>s. fst s = m \<and> fst (snd s) = labels) (samples m' logged) =
     (if m' = m \<and> labels \<in> set logged then Some (m, labels, count_list logged labels) else None)"
proof -
  have "find (\<lambda>s. fst s = m \<and> fst (snd s) = labels) (map (\<lambda>l. (m', l, count_list logged l)) ls) =
      (if m' = m \<and> labels \<in> set ls then Some (m, labels, count_list logged labels) else None)" for ls
    by (induction ls) auto
  then show ?thesis by (simp add: samples_def)
qed

lemma reported_registry:
  "reported (registry d) REQUEST_CREATED labels = count_list (created_labels d) labels"
  "reported (registry d) REQUEST_COMPLETED labels = count_list (completed_labels d) labels"
  "reported (registry d) TASK_DURATION labels = count_list (duration_labels d) labels"
  using metric_names_distinct
  by (auto simp: reported_def registry_def find_append find_samples count_list_0_iff split: option.splits if_splits)

end
