(* ===== verification/Routes.thy ===== *)
theory Routes
  imports Worker_Invariant Intake Metrics
begin

text \<open>
  \<open>api/routes.py\<close>, the response views of \<open>schemas.py\<close> and the validation handler of \<open>main.py\<close>: the
  HTTP interface as functions from the headers, the parameters and the state to a reply and the new
  state. The framework solves the tenant dependency first: a wrong API key is refused before the
  other parameters are looked at. An exception that no handler turns into a reply is a 500.
\<close>

section \<open>Replies\<close>

record task_view =
  tv_source :: string
  tv_status :: task_status
  tv_attempt :: int
  tv_result_summary :: json
  tv_error :: "string option"

record privacy_request_view =
  v_id :: string
  v_tenant_id :: string
  v_kind :: request_kind
  v_status :: request_status
  v_requested_sources :: "string list"
  v_artifact_path :: "string option"
  v_version :: int
  v_created_at :: time
  v_updated_at :: time
  v_tasks :: "task_view list"

record validation_error =
  ve_type :: string
  ve_loc :: "string list"

datatype reply_body =
    View privacy_request_view
  | Views "privacy_request_view list"
  | Created nat
  | Pass pass_result
  | Chain string bool
  | Health nat
  | Detail string
  | Errors "validation_error list"
  | Redirect string
  | File string string
  | Page string
  | ServerError error

type_synonym reply = "int \<times> reply_body"

definition view_task :: "request_task \<Rightarrow> task_view" where
  "view_task t = \<lparr>tv_source = rt_source t, tv_status = rt_status t, tv_attempt = rt_attempt t,
     tv_result_summary = rt_result_summary t, tv_error = rt_error t\<rparr>"

definition view_request :: "cloud \<Rightarrow> privacy_request \<Rightarrow> privacy_request_view" where
  "view_request d r = \<lparr>v_id = pr_id r, v_tenant_id = pr_tenant_id r, v_kind = pr_kind r,
     v_status = pr_status r, v_requested_sources = pr_requested_sources r,
     v_artifact_path = pr_artifact_path r, v_version = pr_version r, v_created_at = pr_created_at r,
     v_updated_at = pr_updated_at r, v_tasks = map view_task (request_tasks d (pr_id r))\<rparr>"

text \<open>An exception that leaves a handler: an \<open>HTTPException\<close> is its reply, anything else a 500.\<close>

fun error_reply :: "error \<Rightarrow> reply" where
  "error_reply (HTTPException code detail) = (code, Detail detail)"
| "error_reply e = (500, ServerError e)"

section \<open>Validation and authentication\<close>

definition missing_api_key :: "validation_error list \<Rightarrow> bool" where
  "missing_api_key errors \<longleftrightarrow>
     list_ex (\<lambda>e. ve_type e = ''missing'' \<and> ve_loc e = [''header'', ''x-api-key'']) errors"

definition authentication_validation_handler :: "validation_error list \<Rightarrow> reply" where
  "authentication_validation_handler errors =
     (if missing_api_key errors then (401, Detail ''invalid API key'') else (422, Errors errors))"

record headers =
  h_tenant_id :: "string option"
  h_api_key :: "string option"
  h_idempotency_key :: "string option"

definition check_length :: "string \<Rightarrow> string list \<Rightarrow> nat \<Rightarrow> nat \<Rightarrow> string option \<Rightarrow> validation_error list" where
  "check_length name loc low high v =
     (case v of
        None \<Rightarrow> [\<lparr>ve_type = ''missing'', ve_loc = loc\<rparr>]
      | Some s \<Rightarrow>
          if length s < low then [\<lparr>ve_type = ''string_too_short'', ve_loc = loc\<rparr>]
          else if high < length s then [\<lparr>ve_type = ''string_too_long'', ve_loc = loc\<rparr>]
          else [])"

definition tenant_errors :: "headers \<Rightarrow> validation_error list" where
  "tenant_errors hs =
     check_length ''x-tenant-id'' [''header'', ''x-tenant-id''] 2 64 (h_tenant_id hs) @
     (case h_api_key hs of None \<Rightarrow> [\<lparr>ve_type = ''missing'', ve_loc = [''header'', ''x-api-key'']\<rparr>] | Some _ \<Rightarrow> [])"

text \<open>
  The tenant dependency, then the other parameters, then the handler: \<open>others\<close> are the validation
  errors of the route's own parameters.
\<close>

definition with_tenant ::
    "settings \<Rightarrow> headers \<Rightarrow> validation_error list \<Rightarrow> (string \<Rightarrow> reply \<times> 'w) \<Rightarrow> 'w \<Rightarrow> reply \<times> 'w" where
  "with_tenant cfg hs others handler w =
     (if tenant_errors hs \<noteq> [] then (authentication_validation_handler (tenant_errors hs @ others), w)
      else case tenant_context (api_key cfg) (the (h_tenant_id hs)) (the (h_api_key hs)) of
             Inl e \<Rightarrow> (error_reply e, w)
           | Inr tenant_id \<Rightarrow>
               if others \<noteq> [] then (authentication_validation_handler others, w) else handler tenant_id)"

section \<open>Requests\<close>

definition command_errors :: "error + 'a \<Rightarrow> validation_error list" where
  "command_errors c = (case c of Inl e \<Rightarrow> [\<lparr>ve_type = ''value_error'', ve_loc = [''body'', exn_text e]\<rparr>] | Inr _ \<Rightarrow> [])"

text \<open>The reply to what the intake returned or raised.\<close>

definition create_reply ::
    "(error + (privacy_request option \<times> bool)) \<times> cloud \<Rightarrow> reply \<times> cloud" where
  "create_reply outcome =
     (case outcome of
        (Inl (IdempotencyConflict m), d') \<Rightarrow> ((409, Detail m), d')
      | (Inl e, d') \<Rightarrow> (error_reply e, d')
      | (Inr (None, created), d') \<Rightarrow> ((500, ServerError (ValueError ''response'')), d')
      | (Inr (Some r, created), d') \<Rightarrow>
          ((if created then 201 else 200, View (view_request d' r)), d'))"

definition create_errors :: "headers \<Rightarrow> error + privacy_request_create \<Rightarrow> validation_error list" where
  "create_errors hs command =
     command_errors command @
     check_length ''Idempotency-Key'' [''header'', ''idempotency-key''] 1 128 (h_idempotency_key hs)"

definition create_request ::
    "settings \<Rightarrow> digest_fn \<Rightarrow> uuid_stream \<Rightarrow> time \<Rightarrow> headers \<Rightarrow> error + privacy_request_create \<Rightarrow> cloud
       \<Rightarrow> reply \<times> cloud" where
  "create_request cfg sha256 uuid now hs command d =
     with_tenant cfg hs (create_errors hs command)
       (\<lambda>tenant_id. create_reply
          (create_privacy_request sha256 uuid now tenant_id (the (h_idempotency_key hs)) (projr command) d)) d"

definition parse_status :: "string \<Rightarrow> request_status option" where
  "parse_status s = find (\<lambda>x. status_value x = s) [QUEUED, RUNNING, VERIFYING, COMPLETED, PARTIAL, FAILED]"

definition list_requests ::
    "settings \<Rightarrow> headers \<Rightarrow> string option \<Rightarrow> int \<Rightarrow> int \<Rightarrow> cloud \<Rightarrow> reply \<times> cloud" where
  "list_requests cfg hs request_status page_limit offset d =
     with_tenant cfg hs
       ((case request_status of None \<Rightarrow> []
         | Some s \<Rightarrow> if parse_status s = None then [\<lparr>ve_type = ''enum'', ve_loc = [''query'', ''status'']\<rparr>] else []) @
        (if page_limit < 1 \<or> 200 < page_limit then [\<lparr>ve_type = ''range'', ve_loc = [''query'', ''limit'']\<rparr>] else []) @
        (if offset < 0 then [\<lparr>ve_type = ''range'', ve_loc = [''query'', ''offset'']\<rparr>] else []))
       (\<lambda>tenant_id.
          ((200, Views (map (view_request d)
             (list_privacy_requests d tenant_id (Option.bind request_status parse_status)
                (nat page_limit) (nat offset)))), d)) d"

definition get_request :: "settings \<Rightarrow> headers \<Rightarrow> string \<Rightarrow> cloud \<Rightarrow> reply \<times> cloud" where
  "get_request cfg hs request_id d =
     with_tenant cfg hs []
       (\<lambda>tenant_id.
          case get_privacy_request d tenant_id request_id of
            Inl e \<Rightarrow> (error_reply e, d)
          | Inr None \<Rightarrow> ((404, Detail ''privacy request not found''), d)
          | Inr (Some r) \<Rightarrow> ((200, View (view_request d r)), d)) d"

section \<open>Downloads\<close>

text \<open>
  \<open>Path.resolve()\<close> without symbolic links: a relative path starts at the working directory, and
  \<open>..\<close> removes the component before it.
\<close>

fun resolve_parts :: "string list \<Rightarrow> string list \<Rightarrow> string list" where
  "resolve_parts acc [] = acc"
| "resolve_parts acc (p # ps) = resolve_parts (if p = ''..'' then butlast acc else acc @ [p]) ps"

definition resolve :: "string list \<Rightarrow> string \<Rightarrow> string list" where
  "resolve cwd s =
     (let p = make_path s in resolve_parts [] (if fst p = [] then cwd @ snd p else snd p))"

text \<open>\<open>artifact_root in path.parents\<close>: a proper ancestor.\<close>

definition is_parent :: "string list \<Rightarrow> string list \<Rightarrow> bool" where
  "is_parent base p \<longleftrightarrow> length base < length p \<and> take (length base) p = base"

text \<open>The reply for a request's artifact path.\<close>

definition artifact_reply ::
    "settings \<Rightarrow> 's s3_client \<Rightarrow> string list \<Rightarrow> (string list \<Rightarrow> bool) \<Rightarrow> string \<Rightarrow> 's \<Rightarrow> string \<Rightarrow> cloud \<Rightarrow> reply \<times> cloud" where
  "artifact_reply cfg client cwd is_file request_id s uri d =
     (if uri = [] then ((409, Detail ''artifact is not ready''), d)
      else if py_startswith uri ''s3://'' then
        (case build_artifact_store cfg of
           Inl e \<Rightarrow> (error_reply e, d)
         | Inr store \<Rightarrow>
             (case (case store of
                      LocalStore base \<Rightarrow> Inr (local_presign_get uri (artifact_presign_seconds cfg))
                    | S3Store st \<Rightarrow> s3_presign_get client st uri (artifact_presign_seconds cfg) s) of
                Inl e \<Rightarrow> (error_reply e, d)
              | Inr None \<Rightarrow> ((404, Detail ''artifact object not found''), d)
              | Inr (Some url) \<Rightarrow> ((307, Redirect url), d)))
      else
        (let path = resolve cwd uri; base = resolve cwd (artifact_dir cfg) in
         if \<not> is_parent base path \<or> \<not> is_file path
         then ((404, Detail ''artifact file not found''), d)
         else ((200, File (''/'' @ join ''/'' path) (request_id @ ''.json'')), d)))"

definition download_artifact ::
    "settings \<Rightarrow> 's s3_client \<Rightarrow> string list \<Rightarrow> (string list \<Rightarrow> bool) \<Rightarrow> headers \<Rightarrow> string \<Rightarrow> 's \<Rightarrow> cloud
       \<Rightarrow> reply \<times> cloud" where
  "download_artifact cfg client cwd is_file hs request_id s d =
     with_tenant cfg hs []
       (\<lambda>tenant_id.
          case get_privacy_request d tenant_id request_id of
            Inl e \<Rightarrow> (error_reply e, d)
          | Inr None \<Rightarrow> ((404, Detail ''privacy request not found''), d)
          | Inr (Some r) \<Rightarrow>
              (case pr_artifact_path r of
                 None \<Rightarrow> ((409, Detail ''artifact is not ready''), d)
               | Some uri \<Rightarrow> artifact_reply cfg client cwd is_file request_id s uri d)) d"

section \<open>Administration\<close>

definition seed ::
    "settings \<Rightarrow> digest_fn \<Rightarrow> uuid_stream \<Rightarrow> time \<Rightarrow> headers \<Rightarrow> error + seed_records_request \<Rightarrow> cloud
       \<Rightarrow> reply \<times> cloud" where
  "seed cfg sha256 uuid now hs command d =
     with_tenant cfg hs (command_errors command)
       (\<lambda>tenant_id.
          case seed_records sha256 uuid now tenant_id (projr command) d of
            (Inl e, d') \<Rightarrow> (error_reply e, d')
          | (Inr n, d') \<Rightarrow> ((201, Created n), d')) d"

definition worker_errors :: "string \<Rightarrow> int option \<Rightarrow> validation_error list" where
  "worker_errors worker_id batch_size =
     check_length ''worker_id'' [''query'', ''worker_id''] 2 64 (Some worker_id) @
     (case batch_size of None \<Rightarrow> []
      | Some n \<Rightarrow> if n < 1 \<or> 1000 < n then [\<lparr>ve_type = ''range'', ve_loc = [''query'', ''batch_size'']\<rparr>] else [])"

definition scoped_worker_id :: "string \<Rightarrow> string \<Rightarrow> string" where
  "scoped_worker_id tenant_id worker_id = tenant_id @ '':'' @ worker_id"

definition run_worker_once ::
    "settings \<Rightarrow> dialect \<Rightarrow> (string \<Rightarrow> bool) \<Rightarrow> (nat \<Rightarrow> 'st env) \<Rightarrow> headers \<Rightarrow> string \<Rightarrow> int option
       \<Rightarrow> cloud \<times> 'st \<Rightarrow> reply \<times> cloud \<times> 'st" where
  "run_worker_once cfg dialect locked envs hs worker_id batch_size w =
     with_tenant cfg hs (worker_errors worker_id batch_size)
       (\<lambda>tenant_id.
          case process_once dialect locked envs (scoped_worker_id tenant_id worker_id) (Some tenant_id)
                 (map_option nat batch_size) (fst w) (snd w) of
            (Inl e, w') \<Rightarrow> (error_reply e, w')
          | (Inr res, w') \<Rightarrow> ((200, Pass res), w')) w"

definition audit_chain :: "settings \<Rightarrow> digest_fn \<Rightarrow> headers \<Rightarrow> cloud \<Rightarrow> reply \<times> cloud" where
  "audit_chain cfg sha256 hs d =
     with_tenant cfg hs [] (\<lambda>tenant_id. ((200, Chain tenant_id (verify_audit_chain sha256 d tenant_id)), d)) d"

definition health :: "cloud \<Rightarrow> reply \<times> cloud" where
  "health d = ((200, Health (unpublished_outbox_count d)), d)"

definition health_alias :: "cloud \<Rightarrow> reply \<times> cloud" where
  "health_alias d = health d"

text \<open>The metrics page: \<open>generate_latest\<close> prints what the registry holds.\<close>

definition metrics :: "(sample list \<Rightarrow> string) \<Rightarrow> cloud \<Rightarrow> reply \<times> cloud" where
  "metrics generate_latest d = ((200, Page (generate_latest (registry d))), d)"

end
