(* ===== verification/System.thy ===== *)
theory System
  imports Queue_Worker Routes
begin

text \<open>
  The whole control plane as a step relation on the database, the artifact store, the queue and the
  tasks that workers have loaded and not yet committed. One step is one database transaction, one
  queue operation or a crash; clients, workers, the relay and the consumers interleave freely. With
  \<open>fenced\<close> false a worker commits the task it loaded whatever happened to the row since, as the code
  does; with \<open>fenced\<close> true it commits only while it still holds the lease.
\<close>

section \<open>Steps\<close>

record ('st, 'q) sys =
  db :: cloud
  store :: 'st
  queue :: 'q
  loaded :: "(request_task \<times> privacy_request) list"

definition initial_sys :: "'st \<Rightarrow> 'q \<Rightarrow> ('st, 'q) sys" where
  "initial_sys st q = \<lparr>db = empty_cloud, store = st, queue = q, loaded = []\<rparr>"

text \<open>The worker that loaded the task still holds its lease.\<close>

definition still_leased :: "cloud \<Rightarrow> request_task \<Rightarrow> bool" where
  "still_leased d task \<longleftrightarrow>
     list_ex (\<lambda>t. rt_id t = rt_id task \<and> rt_status t = T_RUNNING \<and> rt_lease_owner t = rt_lease_owner task) (tasks d)"

inductive step :: "bool \<Rightarrow> digest_fn \<Rightarrow> 'q task_queue \<Rightarrow> ('st, 'q) sys \<Rightarrow> ('st, 'q) sys \<Rightarrow> bool"
  for fenced :: bool and sha256 :: digest_fn and Q :: "'q task_queue" where
  intake: "keys_ok d0 \<Longrightarrow> create_privacy_request_racing sha256 uuid now tn key c d0 (db s) = (res, d') \<Longrightarrow>
     step fenced sha256 Q s (s\<lparr>db := d'\<rparr>)"
| claim: "step fenced sha256 Q s (s\<lparr>db := snd (claim_tasks dialect locked (env :: 'st env) w tn batch secs (db s))\<rparr>)"
| claim_message: "claim_message_task_racing (env :: 'st env) i w secs d0 (db s) = (res, d') \<Longrightarrow>
     step fenced sha256 Q s (s\<lparr>db := d'\<rparr>)"
| load: "load_task (db s) i w = Inr (Some task) \<Longrightarrow>
     find (\<lambda>r. pr_id r = rt_request_id task) (requests (db s)) = Some request \<Longrightarrow>
     step fenced sha256 Q s (s\<lparr>loaded := loaded s @ [(task, request)]\<rparr>)"
| finish: "(task, request) \<in> set (loaded s) \<Longrightarrow> (fenced \<longrightarrow> still_leased (db s) task) \<Longrightarrow>
     e_sha256 env = sha256 \<Longrightarrow> late_ok env (db s) \<Longrightarrow>
     finish_task env ex task request (db s) (store s) = (res, d', st') \<Longrightarrow>
     step fenced sha256 Q s (s\<lparr>db := d', store := st', loaded := remove1 (task, request) (loaded s)\<rparr>)"
| crash: "step fenced sha256 Q s (s\<lparr>loaded := remove1 x (loaded s)\<rparr>)"
| refresh: "e_sha256 env = sha256 \<Longrightarrow> refresh_request_status env i (db s) (store s) = (res, d', st') \<Longrightarrow>
     step fenced sha256 Q s (s\<lparr>db := d', store := st'\<rparr>)"
| extend: "step fenced sha256 Q s (s\<lparr>db := snd (extend_task_lease (env :: 'st env) i w secs (db s))\<rparr>)"
| relay: "relay_outbox_once Q dialect locked clock n (db s) (queue s) = (r, d', q') \<Longrightarrow>
     step fenced sha256 Q s (s\<lparr>db := d', queue := q'\<rparr>)"
| receive: "receive Q n wait (queue s) = (ms, q') \<Longrightarrow> step fenced sha256 Q s (s\<lparr>queue := q'\<rparr>)"
| seeding: "seed_records sha256 uuid now tn sc (db s) = (nr, d') \<Longrightarrow> step fenced sha256 Q s (s\<lparr>db := d'\<rparr>)"
| clearing: "step fenced sha256 Q s (s\<lparr>db := snd (clear_seed_records tn (db s))\<rparr>)"

inductive reachable :: "bool \<Rightarrow> digest_fn \<Rightarrow> 'q task_queue \<Rightarrow> ('st, 'q) sys \<Rightarrow> bool"
  for fenced :: bool and sha256 :: digest_fn and Q :: "'q task_queue" where
  start: "reachable fenced sha256 Q (initial_sys st q)"
| more: "reachable fenced sha256 Q s \<Longrightarrow> step fenced sha256 Q s s' \<Longrightarrow> reachable fenced sha256 Q s'"

section \<open>Attempts only grow\<close>

definition attempts_grow :: "cloud \<Rightarrow> cloud \<Rightarrow> bool" where
  "attempts_grow d d' \<longleftrightarrow>
     (\<forall>t \<in> set (tasks d). \<exists>t' \<in> set (tasks d'). task_frame t' = task_frame t \<and> rt_attempt t \<le> rt_attempt t')"

lemma attempts_grow_refl [simp]: "attempts_grow d d"
  by (auto simp: attempts_grow_def)

lemma attempts_grow_same: "tasks d' = tasks d \<Longrightarrow> attempts_grow d d'"
  by (auto simp: attempts_grow_def)

lemma attempts_grow_append: "tasks d' = tasks d @ ts \<Longrightarrow> attempts_grow d d'"
  by (auto simp: attempts_grow_def)

lemma attempts_grow_upd:
  assumes "tasks d' = upd_where P f (tasks d)"
    and "\<And>t. P t \<Longrightarrow> task_frame (f t) = task_frame t \<and> rt_attempt t \<le> rt_attempt (f t)"
  shows "attempts_grow d d'"
  unfolding attempts_grow_def
proof
  fix t assume "t \<in> set (tasks d)"
  then have "(if P t then f t else t) \<in> set (tasks d')" by (auto simp: assms(1) upd_where_def)
  moreover have "task_frame (if P t then f t else t) = task_frame t \<and> rt_attempt t \<le> rt_attempt (if P t then f t else t)"
    using assms(2) by simp
  ultimately show "\<exists>t' \<in> set (tasks d'). task_frame t' = task_frame t \<and> rt_attempt t \<le> rt_attempt t'" by blast
qed

text \<open>A loaded task belongs to a row with at least its attempts, and to the request loaded with it.\<close>

definition loaded_ok :: "cloud \<Rightarrow> request_task \<times> privacy_request \<Rightarrow> bool" where
  "loaded_ok d x \<longleftrightarrow> 1 \<le> rt_attempt (fst x) \<and> pr_id (snd x) = rt_request_id (fst x) \<and>
     (\<exists>t \<in> set (tasks d). task_frame t = task_frame (fst x) \<and> rt_attempt (fst x) \<le> rt_attempt t)"

lemma loaded_ok_grow:
  assumes "loaded_ok d x" and "attempts_grow d d'"
  shows "loaded_ok d' x"
proof -
  from assms(1) obtain t where t: "t \<in> set (tasks d)" "task_frame t = task_frame (fst x)"
    "rt_attempt (fst x) \<le> rt_attempt t" by (auto simp: loaded_ok_def)
  with assms(2) obtain t' where "t' \<in> set (tasks d')" "task_frame t' = task_frame t" "rt_attempt t \<le> rt_attempt t'"
    by (auto simp: attempts_grow_def)
  then have "\<exists>t \<in> set (tasks d'). task_frame t = task_frame (fst x) \<and> rt_attempt (fst x) \<le> rt_attempt t"
    using t(2,3) by (intro bexI [of _ t']) simp_all
  with assms(1) show ?thesis by (simp add: loaded_ok_def)
qed

lemma loaded_snapshot:
  assumes "keys_ok d" and "loaded_ok d (task, request)"
  shows "snapshot_ok d task"
proof -
  from assms(2) obtain t where t: "t \<in> set (tasks d)" "task_frame t = task_frame task"
    "rt_attempt task \<le> rt_attempt t" by (auto simp: loaded_ok_def)
  have "s = t" if "s \<in> set (tasks d)" "rt_id s = rt_id task" for s
    using assms(1) key_inj [of rt_id "tasks d" s t] that t by (simp add: keys_ok_def task_frame_def)
  then have "rt_attempt task \<le> rt_attempt s" if "s \<in> set (tasks d)" "rt_id s = rt_id task" for s
    using that t(3) by blast
  with assms(2) show ?thesis by (simp add: snapshot_ok_def loaded_ok_def)
qed

lemma create_attempts:
  assumes "keys_ok d0" and "keys_ok d"
    and "create_privacy_request_racing sha256 uuid now tn key c d0 d = (res, d')"
  shows "attempts_grow d d'"
proof (rule create_cases [OF assms], goal_cases existing refused created)
  case (created d1)
  from create_rows_spec [OF created(1)] obtain ts where "tasks d1 = tasks d @ ts" by auto
  with created(2) show ?case by (intro attempts_grow_append [of _ _ ts]) simp
qed simp_all

text \<open>Finishing writes the one row of the task, or none when the transaction was rolled back.\<close>

lemma finish_tasks:
  assumes "core_ok (e_sha256 env) d" and "snapshot_ok d task" and "late_ok env d"
    and "finish_task env ex task request d st = (res, d', st')"
  shows "(\<exists>e. res = Inl e) \<and> tasks d' = tasks d \<or>
    tasks d' = upd_where (\<lambda>t. rt_id t = rt_id task) (settle_task env ex task (fst (run_source env ex task request d))) (tasks d)"
  using assms(4)
proof (cases rule: finish_task_cases)
  case (refused outcome d1)
  then show ?thesis by simp
next
  case (committed outcome d1 d2 d3 r)
  have "keys_ok d3"
    using append_audit_core [OF committed(3) committed_core [OF assms(1-3) committed(1,2)]]
    by (rule core_ok_keys)
  then have "tasks d' = tasks d3" using refresh_frame [OF _ committed(4)] by blast
  also have "\<dots> = upd_where (\<lambda>t. rt_id t = rt_id task) (settle_task env ex task outcome) (tasks d)"
    using append_audit_eq [OF committed(3)] committed(2) run_source_frame(1) [OF committed(1)] by simp
  finally show ?thesis using committed(1) by simp
qed

lemma finish_attempts:
  assumes "core_ok (e_sha256 env) d" and "snapshot_ok d task" and "late_ok env d"
    and "finish_task env ex task request d st = (res, d', st')"
  shows "attempts_grow d d'"
  using finish_tasks [OF assms]
proof (elim disjE conjE)
  assume "tasks d' = upd_where (\<lambda>t. rt_id t = rt_id task)
      (settle_task env ex task (fst (run_source env ex task request d))) (tasks d)"
  then show ?thesis by (rule attempts_grow_upd) simp
qed (simp add: attempts_grow_same)

lemma claim_attempts: "attempts_grow d (snd (claim_tasks dialect locked env w tn batch secs d))"
  by (rule attempts_grow_upd [OF claim_tasks_tasks]) simp

lemma claim_message_attempts:
  assumes "keys_ok d" and "claim_message_task_racing env i w secs d0 d = (res, d')"
  shows "attempts_grow d d'"
  using assms
proof (cases rule: claim_message_cases)
  case (claimed t)
  then have "tasks d' = upd_where (\<lambda>s. rt_id s = i)
      (lease_task w (e_now env) (lease_until (e_now env) secs)) (tasks d)"
    by (simp add: start_requests_def)
  then show ?thesis by (rule attempts_grow_upd) simp
qed simp

lemma extend_attempts: "attempts_grow d (snd (extend_task_lease env i w secs d))"
  by (rule attempts_grow_upd [where P = "\<lambda>t. rt_id t = i \<and> rt_status t = T_RUNNING \<and> rt_lease_owner t = Some w"
        and f = "\<lambda>t. t\<lparr>rt_lease_expires_at := Some (lease_until (e_now env) secs), rt_updated_at := e_now env\<rparr>"])
     (simp_all add: extend_task_lease_def Let_def task_frame_def)

section \<open>The invariant of the system\<close>

definition sys_ok :: "bool \<Rightarrow> digest_fn \<Rightarrow> ('st, 'q) sys \<Rightarrow> bool" where
  "sys_ok fenced sha256 s \<longleftrightarrow>
     core_ok sha256 (db s) \<and> (\<forall>x \<in> set (loaded s). loaded_ok (db s) x) \<and> (fenced \<longrightarrow> status_ok (db s))"

lemma mark_published_frame:
  "tasks (mark_published p d) = tasks d" "requests (mark_published p d) = requests d"
  "audit (mark_published p d) = audit d" "records (mark_published p d) = records d"
  "map ob_id (outbox (mark_published p d)) = map ob_id (outbox d)"
  by (simp_all add: mark_published_def map_upd_where)

lemma mark_published_core:
  assumes "core_ok sha256 d"
  shows "core_ok sha256 (mark_published p d)"
proof -
  have "\<exists>e' \<in> set (outbox (mark_published p d)). ob_event_type e' = ob_event_type e \<and>
      ob_aggregate_id e' = ob_aggregate_id e \<and> ob_tenant_id e' = ob_tenant_id e" if "e \<in> set (outbox d)" for e
  proof -
    let ?e = "if ob_id e \<in> fst ` set p then e\<lparr>ob_published_at := map_of p (ob_id e)\<rparr> else e"
    have "?e \<in> set (outbox (mark_published p d))" using that by (auto simp: mark_published_def in_upd_where)
    then show ?thesis by (intro bexI [of _ ?e]) simp_all
  qed
  note row = this
  have "ready_ok (mark_published p d)"
    unfolding ready_ok_def mark_published_frame
  proof
    fix t assume "t \<in> set (tasks d)"
    then obtain e where e: "e \<in> set (outbox d)" "ob_event_type e = ''privacy_task.ready''"
      "ob_aggregate_id e = rt_id t" "ob_tenant_id e = rt_tenant_id t"
      using assms unfolding core_ok_def ready_ok_def by blast
    show "\<exists>e \<in> set (outbox (mark_published p d)). ob_event_type e = ''privacy_task.ready'' \<and>
        ob_aggregate_id e = rt_id t \<and> ob_tenant_id e = rt_tenant_id t"
      using row [OF e(1)] unfolding e(2-4) .
  qed
  then show ?thesis
    using assms mark_published_frame [of p d] chains_ok_audit [OF mark_published_frame(3), of sha256 p d]
    by (simp add: core_ok_def keys_ok_def parents_ok_def request_tasks_def)
qed

lemma mark_published_status: "status_ok (mark_published p d) = status_ok d"
  using mark_published_frame [of p d]
  by (simp add: status_ok_def status_agrees_def[abs_def] statuses_def request_tasks_def)

lemma relay_state:
  "relay_outbox_once Q dialect locked clock n d q = (r, d', q') \<Longrightarrow> \<exists>p. d' = mark_published p d"
  by (auto simp: relay_outbox_once_def Let_def split: prod.splits)

lemma sys_ok_db:
  assumes "sys_ok fenced sha256 s" and "core_ok sha256 d'" and "attempts_grow (db s) d'"
    and "fenced \<Longrightarrow> status_ok d'"
    and "db s' = d'" and "set (loaded s') \<subseteq> set (loaded s)"
  shows "sys_ok fenced sha256 s'"
  using assms loaded_ok_grow [OF _ assms(3)] by (auto simp: sys_ok_def)

lemma load_ok:
  assumes "core_ok sha256 d" and "load_task d i w = Inr (Some task)"
    and "find (\<lambda>r. pr_id r = rt_request_id task) (requests d) = Some request"
  shows "loaded_ok d (task, request)"
proof -
  have t: "task \<in> set (tasks d)" "rt_status task = T_RUNNING" using load_task_Some [OF assms(2)] by simp_all
  then have "1 \<le> rt_attempt task" using assms(1) by (auto simp: core_ok_def list_all_iff task_ok_def)
  moreover have "pr_id request = rt_request_id task" using assms(3) by (auto simp: find_Some_iff)
  ultimately show ?thesis using t(1) by (auto simp: loaded_ok_def)
qed

lemma leased_row:
  assumes "keys_ok d" and "loaded_ok d (task, request)" and "still_leased d task"
  obtains t where "t \<in> set (tasks d)" "rt_id t = rt_id task" "rt_request_id t = rt_request_id task"
    "rt_status t = T_RUNNING"
proof -
  from assms(2) obtain s where s: "s \<in> set (tasks d)" "task_frame s = task_frame task" by (auto simp: loaded_ok_def)
  from assms(3) obtain t where t: "t \<in> set (tasks d)" "rt_id t = rt_id task" "rt_status t = T_RUNNING"
    by (auto simp: still_leased_def list_ex_iff)
  have "s = t" using assms(1) key_inj [of rt_id "tasks d" s t] s t by (simp add: keys_ok_def task_frame_def)
  with s t that show ?thesis by (simp add: task_frame_def)
qed

lemma finish_sys_ok:
  assumes "sys_ok fenced sha256 s" and "(task, request) \<in> set (loaded s)"
    and "fenced \<longrightarrow> still_leased (db s) task" and "e_sha256 env = sha256" and "late_ok env (db s)"
    and "finish_task env ex task request (db s) (store s) = (res, d', st')"
  shows "sys_ok fenced sha256 (s\<lparr>db := d', store := st', loaded := remove1 (task, request) (loaded s)\<rparr>)"
proof -
  have core: "core_ok (e_sha256 env) (db s)" and lo: "loaded_ok (db s) (task, request)"
    using assms(1,2,4) by (auto simp: sys_ok_def)
  note k = core_ok_keys [OF core]
  have snap: "snapshot_ok (db s) task" by (rule loaded_snapshot [OF k lo])
  have req: "pr_id request = rt_request_id task" using lo by (simp add: loaded_ok_def)
  have "status_ok d'" if "fenced"
  proof -
    obtain t where t: "t \<in> set (tasks (db s))" "rt_id t = rt_id task" "rt_request_id t = rt_request_id task"
      "rt_status t = T_RUNNING" by (rule leased_row [OF k lo]) (use assms(3) \<open>fenced\<close> in auto)
    show ?thesis
      using finish_status [OF core _ assms(5) t snap req assms(6)] assms(1) that by (simp add: sys_ok_def)
  qed
  then show ?thesis
    using finish_core [OF core snap assms(5,6)] finish_attempts [OF core snap assms(5,6)] assms(4)
    by (intro sys_ok_db [OF assms(1)]) (simp_all add: set_remove1_subset)
qed

lemma step_sys_ok:
  assumes "step fenced sha256 Q s s'" and "sys_ok fenced sha256 s"
  shows "sys_ok fenced sha256 s'"
  using assms
proof (induction rule: step.induct)
  case (intake d0 uuid now tn key c s res d')
  then have core: "core_ok sha256 (db s)" by (simp add: sys_ok_def)
  show ?case
    by (rule sys_ok_db [OF intake(3) create_core [OF intake(1) core intake(2)]
        create_attempts [OF intake(1) core_ok_keys [OF core] intake(2)]])
       (use create_status [OF intake(1) core _ intake(2)] intake(3) in \<open>auto simp: sys_ok_def\<close>)
next
  case (claim s dialect locked env w tn batch secs)
  then have core: "core_ok sha256 (db s)" by (simp add: sys_ok_def)
  show ?case
    by (rule sys_ok_db [OF claim claim_core [OF core] claim_attempts])
       (use claim_status [OF core] claim in \<open>auto simp: sys_ok_def\<close>)
next
  case (claim_message env i w secs d0 s res d')
  then have core: "core_ok sha256 (db s)" by (simp add: sys_ok_def)
  show ?case
    by (rule sys_ok_db [OF claim_message(2) claim_message_core [OF core claim_message(1)]
        claim_message_attempts [OF core_ok_keys [OF core] claim_message(1)]])
       (use claim_message_status [OF core _ claim_message(1)] claim_message(2) in \<open>auto simp: sys_ok_def\<close>)
next
  case (load s i w task request)
  then show ?case using load_ok [of sha256 "db s" i w task request] by (auto simp: sys_ok_def)
next
  case (finish task request s env ex res d' st')
  then show ?case by (intro finish_sys_ok) simp_all
next
  case (crash s x)
  then show ?case using set_remove1_subset [of x "loaded s"] by (auto simp: sys_ok_def)
next
  case (refresh env i s res d' st')
  then have core: "core_ok (e_sha256 env) (db s)" by (simp add: sys_ok_def)
  have "tasks d' = tasks (db s)" using refresh_frame [OF core_ok_keys [OF core] refresh(2)] by simp
  then show ?case
    using refresh(1,3) refresh_core [OF core refresh(2)] refresh_ok [OF _ refresh(2)]
    by (intro sys_ok_db [OF refresh(3)]) (auto simp: sys_ok_def cloud_ok_def attempts_grow_same)
next
  case (extend s env i w secs)
  then show ?case
    by (intro sys_ok_db [OF extend _ extend_attempts])
       (auto simp: sys_ok_def extend_lease_core extend_lease_status)
next
  case (relay dialect locked clock n s r d' q')
  obtain p where "d' = mark_published p (db s)" using relay_state [OF relay(1)] by blast
  with relay show ?case
    by (intro sys_ok_db [OF relay(2)])
       (auto simp: sys_ok_def mark_published_core mark_published_status mark_published_frame attempts_grow_same)
next
  case (receive n wait s ms q')
  then show ?case by (simp add: sys_ok_def)
next
  case (seeding uuid now tn sc s nr d')
  then show ?case
    using seed_core [OF _ seeding(1)] seed_status [OF _ seeding(1)] seed_tasks [OF seeding(1)]
    by (intro sys_ok_db [OF seeding(2)]) (auto simp: sys_ok_def attempts_grow_same)
next
  case (clearing s tn)
  have "tasks (snd (clear_seed_records tn (db s))) = tasks (db s)" by (simp add: clear_seed_records_def)
  then show ?case
    using clearing
    by (intro sys_ok_db [OF clearing]) (auto simp: sys_ok_def clear_seed_core clear_seed_status attempts_grow_same)
qed

lemma initial_sys_ok: "sys_ok fenced sha256 (initial_sys st q)"
  using cloud_ok_empty [of sha256] by (simp add: sys_ok_def initial_sys_def cloud_ok_def)

lemma reachable_sys_ok: "reachable fenced sha256 Q s \<Longrightarrow> sys_ok fenced sha256 s"
  by (induction rule: reachable.induct) (auto intro: initial_sys_ok step_sys_ok)

end
