(* ===== verification/Worker_Props.thy ===== *)
theory Worker_Props
  imports Worker_Invariant Intake
begin

text \<open>
  The properties of the worker: which tasks a claim leases, that a live lease excludes others, what a
  deletion reaches and leaves, how an outcome is recorded, and that a request is announced once.
\<close>

section \<open>Examples\<close>

definition sample_env :: "time \<Rightarrow> unit env" where
  "sample_env now = \<lparr>e_sha256 = sample_digest, e_uuid = sample_uuid, e_now = now, e_settings = default_settings,
     e_put_json = (\<lambda>t r doc st. (Inr \<lparr>ref_uri = ''artifact'', ref_sha256 = ''00''\<rparr>, st)), e_late_records = []\<rparr>"

definition sample_claimed :: cloud where
  "sample_claimed = snd (claim_tasks SQLite (\<lambda>_. False) (sample_env 5) ''w1'' None (Some 1) None sample_cloud)"

lemma sample_claim:
  "claim_tasks SQLite (\<lambda>_. False) (sample_env 5) ''w1'' None (Some 1) None sample_cloud =
     ([sample_uuid 1], sample_claimed)"
proof -
  have "fst (claim_tasks SQLite (\<lambda>_. False) (sample_env 5) ''w1'' None (Some 1) None sample_cloud) = [sample_uuid 1]"
    by (simp add: claim_tasks_def claim_ids_def claim_candidates_def sample_shape sample_task_def claimable_def
        or_default_nat_def Let_def sample_env_def)
  then show ?thesis by (metis prod.collapse sample_claimed_def)
qed

lemma sample_claimed_ok: "cloud_ok sample_digest sample_claimed"
proof -
  have "create_privacy_request_racing sample_digest sample_uuid 0 ''acme'' ''k1'' sample_delete empty_cloud empty_cloud =
      (Inr (Some sample_request, True), sample_cloud)"
    using sample_intake(1) by (simp add: create_privacy_request_def)
  from create_core [OF keys_ok_empty _ this] create_status [OF keys_ok_empty _ _ this] cloud_ok_empty [of sample_digest]
  have "core_ok sample_digest sample_cloud" "status_ok sample_cloud" by (simp_all add: cloud_ok_def)
  then show ?thesis unfolding sample_claimed_def cloud_ok_def by (auto intro: claim_core claim_status)
qed

definition sample_running :: request_task where
  "sample_running = lease_task ''w1'' 5 60000005 (sample_task 1 ''jobs'')"

lemma sample_claimed_tasks: "tasks sample_claimed = [sample_running, sample_task 2 ''devices'']"
proof -
  have "claim_ids SQLite (\<lambda>_. False) (sample_env 5) None (Some 1) sample_cloud = [sample_uuid 1]"
    by (simp add: claim_ids_def claim_candidates_def sample_shape sample_task_def claimable_def
        or_default_nat_def sample_env_def)
  then show ?thesis
    unfolding sample_claimed_def claim_tasks_tasks
    by (simp add: sample_shape sample_running_def sample_task_def sample_env_def lease_until_def
        or_default_int_def default_settings_def)
qed

section \<open>Recording an outcome\<close>

lemma finish_task_row:
  assumes "core_ok (e_sha256 env) d" and "late_ok env d" and "task \<in> set (tasks d)" and "rt_status task = T_RUNNING"
    and "finish_task env ex task request d st = (Inr ok, d', st')"
  shows "settle_task env ex task (fst (run_source env ex task request d)) task \<in> set (tasks d') \<and>
    ok = (rt_status (settle_task env ex task (fst (run_source env ex task request d)) task) = T_SUCCEEDED) \<and>
    (\<exists>a \<in> set (audit d'). a \<notin> set (audit d) \<and> au_tenant_id a = rt_tenant_id task \<and> au_request_id a = rt_request_id task \<and>
       au_action a = task_action (rt_status (settle_task env ex task (fst (run_source env ex task request d)) task)))"
  using assms(5)
proof (cases rule: finish_task_cases)
  case (committed outcome d1 d2 d3 r)
  have snap: "snapshot_ok d task" using assms(1,3,4) by (rule live_snapshot)
  have k2: "keys_ok d2"
    by (rule core_ok_keys [OF committed_core [OF assms(1) snap assms(2) committed(1,2)]])
  have k3: "keys_ok d3" by (rule append_audit_keys [OF committed(3) k2])
  have tasks: "tasks d' = tasks d3" using refresh_frame [OF k3 committed(4)] by simp
  also have "\<dots> = upd_where (\<lambda>t. rt_id t = rt_id task) (settle_task env ex task outcome) (tasks d)"
    using append_audit_eq [OF committed(3)] committed(2) run_source_frame(1) [OF committed(1)] by simp
  finally have "settle_task env ex task outcome task \<in> set (tasks d')" using assms(3) by (auto simp: in_upd_where)
  moreover have "set (audit d3) \<subseteq> set (audit d')" using refresh_audit [OF k3 committed(4)] by auto
  moreover let ?a = "audit_row (e_sha256 env) (e_uuid env) (e_now env) (rt_tenant_id task) (rt_request_id task)
         (task_action (rt_status (settle_task env ex task outcome task)))
         (Some (audit_payload task (settle_task env ex task outcome task))) d2"
  have a3: "audit d3 = audit d2 @ [?a]" "audit d2 = audit d"
    using append_audit_eq [OF committed(3)] committed(2) run_source_frame(3) [OF committed(1)] by simp_all
  then have "?a \<notin> set (audit d)" using k3 by (auto simp: keys_ok_def)
  moreover have "r \<noteq> Inl e" for e using committed(5) by auto
  then obtain x where "r = Inr x" by (cases r) auto
  ultimately show ?thesis
    using a3 committed(1,5) by (auto intro!: bexI [of _ ?a])
qed simp

text \<open>A source that is down, and what a task that meets it leaves.\<close>

definition sample_down :: executor where
  "sample_down op = Inl (TimeoutError ''slow'')"

definition sample_parent :: privacy_request where
  "sample_parent = sample_request\<lparr>pr_status := RUNNING, pr_updated_at := 5\<rparr>"

lemma sample_claimed_requests: "requests sample_claimed = [sample_parent]"
proof -
  have "claim_ids SQLite (\<lambda>_. False) (sample_env 5) None (Some 1) sample_cloud = [sample_uuid 1]"
    by (simp add: claim_ids_def claim_candidates_def sample_shape sample_task_def claimable_def
        or_default_nat_def sample_env_def)
  moreover have "pr_id sample_request = sample_uuid 0" "pr_status sample_request = QUEUED"
    by (simp_all add: sample_request_def new_request_def) (simp add: empty_cloud_def)
  ultimately show ?thesis
    unfolding sample_claimed_def claim_tasks_requests
    by (simp add: sample_shape sample_intake(3) sample_task_def sample_parent_def sample_env_def)
qed

lemma sample_parent_facts:
  "sample_parent \<in> set (requests sample_claimed)" "pr_id sample_parent = rt_request_id sample_running"
  "pr_id sample_parent = sample_uuid 0" "pr_kind sample_parent = DELETE" "pr_status sample_parent = RUNNING"
  by (simp_all add: sample_claimed_requests)
     (simp_all add: sample_parent_def sample_request_def new_request_def sample_running_def sample_task_def
        sample_delete_def, simp_all add: empty_cloud_def)

lemma sample_late_ok: "late_ok (sample_env 7) sample_claimed"
  using sample_claimed_ok by (simp add: late_ok_def sample_env_def cloud_ok_def core_ok_def keys_ok_def)

lemma sample_load: "load_task sample_claimed (sample_uuid 1) ''w1'' = Inr (Some sample_running)"
  by (simp add: load_task_def sample_claimed_tasks) (simp add: sample_running_def sample_task_def)

lemma sample_finish:
  assumes env: "e_sha256 env = sample_digest" "e_uuid env = sample_uuid"
    and "core_ok sample_digest d" and "audit d = audit sample_cloud" and "fresh d = 7"
    and "requests d = [sample_parent]" and "tasks d = [t, sample_task 2 ''devices'']"
    and "rt_id t = sample_uuid 1" and "rt_request_id t = sample_uuid 0"
  shows "\<exists>d'. finish_task env (Some sample_down) sample_running sample_parent d () = (Inr False, d', ())"
proof -
  let ?env = env and ?ex = "Some sample_down" and ?now = "e_now env"
  let ?d1 = "verifying ?env sample_parent d" and ?o = "Inl (TimeoutError ''slow'') :: error + json"
  let ?d2 = "?d1\<lparr>tasks := upd_where (\<lambda>t. rt_id t = rt_id sample_running) (settle_task ?env ?ex sample_running ?o) (tasks ?d1),
       m_task_duration := m_task_duration d @ [(rt_source sample_running, pr_kind sample_parent)]\<rparr>"
  let ?s = "settle_task ?env ?ex sample_running ?o sample_running"
  have run: "run_source ?env ?ex sample_running sample_parent d = (?o, ?d1)"
    by (simp add: run_source_def sample_down_def Let_def sample_parent_facts)
  have aud: "audit ?d2 = audit d" by simp
  have "chains_ok sample_digest d" using assms(3) by (simp add: core_ok_def)
  from chains_hashes [OF this] have h: "list_all (\<lambda>a. event_envelope_hash sample_digest a = au_event_hash a) (audit ?d2)"
    by (simp only: aud)
  have "fresh ?d2 = 7" using assms(5) by simp
  then have "sample_uuid (fresh ?d2) \<notin> set (map au_id (audit ?d2))" unfolding aud assms(4) by (simp add: sample_shape)
  with h have "\<exists>d3. append_audit sample_digest sample_uuid ?now (rt_tenant_id sample_running) (rt_request_id sample_running)
      (task_action (rt_status ?s)) (Some (audit_payload sample_running ?s)) ?d2 = Inr d3"
    by (intro append_audit_succeeds sample_digest_injective)
  then obtain d3 where
    app: "append_audit sample_digest sample_uuid ?now (rt_tenant_id sample_running) (rt_request_id sample_running)
      (task_action (rt_status ?s)) (Some (audit_payload sample_running ?s)) ?d2 = Inr d3" by blast
  have ids: "rt_request_id sample_running = sample_uuid 0" "rt_id sample_running = sample_uuid 1"
    "rt_id (sample_task 2 ''devices'') \<noteq> sample_uuid 1"
    "rt_request_id (sample_task 2 ''devices'') = sample_uuid 0" "rt_status (sample_task 2 ''devices'') = T_PENDING"
    by (simp_all add: sample_running_def sample_task_def)
  have t3: "tasks d3 = [settle_task ?env ?ex sample_running ?o t, sample_task 2 ''devices'']"
    using append_audit_eq [OF app] assms(7,8) ids by simp
  let ?p = "failed_status env ?ex sample_running"
  have ps: "rt_status (settle_task ?env ?ex sample_running ?o x) = ?p" for x by (simp add: settle_task_def)
  have pf: "?p \<noteq> T_SUCCEEDED" by (simp add: failed_status_def)
  have r3: "requests d3 = [sample_parent\<lparr>pr_status := VERIFYING, pr_updated_at := ?now\<rparr>]"
    using append_audit_eq [OF app]
    by (simp add: verifying_def assms(6) sample_parent_facts)
  let ?q = "derived_status {?p, T_PENDING}"
  have q: "\<not> terminal_status ?q" using terminal_derived [of "{?p, T_PENDING}"] by simp
  then have q': "?q \<noteq> COMPLETED" "?q \<noteq> PARTIAL" by (auto simp: terminal_status_def)
  have "fst (refresh_request_status ?env (sample_uuid 0) d3 ()) = Inr ?q"
    using q q' by (simp add: refresh_request_status_def r3 t3 request_tasks_def sample_parent_facts ids ps assms(9)
        refresh_artifact_def needs_access_artifact_def became_terminal_def Let_def)
  then obtain d4 where ref: "refresh_request_status ?env (sample_uuid 0) d3 () = (Inr ?q, d4, ())"
    by (metis prod.collapse unit.exhaust)
  show ?thesis
    using run app ref ps pf ids env by (simp add: finish_task_def Let_def)
qed

lemma sample_executed:
  "\<exists>d'. execute_task (sample_env 7) (Some sample_down) (sample_uuid 1) ''w1'' sample_claimed () = (Inr False, d', ())"
proof -
  have ids: "rt_request_id sample_running = sample_uuid 0" "rt_id sample_running = sample_uuid 1"
    by (simp_all add: sample_running_def sample_task_def)
  have "\<exists>d'. finish_task (sample_env 7) (Some sample_down) sample_running sample_parent sample_claimed () = (Inr False, d', ())"
    using sample_claimed_ok
    by (intro sample_finish [where t = sample_running] sample_claimed_requests sample_claimed_tasks ids)
       (simp_all add: cloud_ok_def sample_claimed_def sample_shape, simp_all add: sample_env_def)
  moreover have "load_task sample_claimed (sample_uuid 1) ''w1'' = Inr (Some sample_running)"
    by (rule sample_load)
  moreover have "find (\<lambda>r. pr_id r = rt_request_id sample_running) (requests sample_claimed) = Some sample_parent"
    by (simp add: sample_claimed_requests sample_parent_facts ids)
  ultimately show ?thesis by (auto simp: execute_task_def)
qed

section \<open>What a refresh leaves\<close>

text \<open>An access request that is done has its artifact.\<close>

lemma refresh_artifact_set:
  assumes "keys_ok d" and "refresh_request_status env i d st = (Inr status, d', st')"
  shows "\<exists>r art. status = derived_status (statuses d i) \<and> r \<in> set (requests d) \<and> pr_id r = i \<and>
    requests d' = upd_where (\<lambda>s. pr_id s = i) (refreshed env r status art) (requests d) \<and>
    (pr_kind r = ACCESS \<and> status \<in> {COMPLETED, PARTIAL} \<longrightarrow> art \<noteq> None)"
proof -
  from refresh_requests [OF assms] obtain r where r: "r \<in> set (requests d)" "pr_id r = i" by blast
  have call: "refresh_request_status env (pr_id r) d st = (Inr status, d', st')" using assms(2) r(2) by simp
  have art: "pr_kind r = ACCESS \<and> s \<in> {COMPLETED, PARTIAL} \<longrightarrow> art \<noteq> None"
    if "refresh_artifact env r s ts st = (Inr art, st')" for s ts art
    using that by (auto simp: refresh_artifact_def needs_access_artifact_def split: if_splits prod.splits sum.splits)
  show ?thesis
  proof (rule refresh_cases [OF assms(1) r(1) call refl refl], goal_cases store_error refused terminal plain)
    case (terminal a)
    then have "requests d' = upd_where (\<lambda>s. pr_id s = i) (refreshed env r status a) (requests d)"
      using announce_terminal_spec(1) [OF terminal(4)] r(2) by auto
    with terminal(1,3) art r show ?thesis unfolding statuses_def by blast
  next
    case (plain a)
    then have "requests d' = upd_where (\<lambda>s. pr_id s = i) (refreshed env r status a) (requests d)"
      using r(2) by simp
    with plain(1,3) art r show ?thesis unfolding statuses_def by blast
  qed simp_all
qed

section \<open>Properties\<close>

text \<open>
  C17. What a claim leases: at most the batch size of distinct tasks, each of them pending or with an
  expired lease, of the given tenant and not locked by another transaction; each is then running,
  owned by the worker, with one attempt more and the lease's full length ahead; every other task is
  untouched.
\<close>

theorem claim_leases:
  assumes "keys_ok d" and "claim_tasks dialect locked env w tn batch secs d = (ids, d')"
  shows "length ids \<le> or_default_nat batch (worker_batch_size (e_settings env)) \<and> distinct ids \<and>
    set ids \<subseteq> rt_id ` set (tasks d) \<and>
    (\<forall>t \<in> set (tasks d). if rt_id t \<in> set ids
       then claimable (e_now env) t \<and> (\<forall>u. tn = Some u \<longrightarrow> rt_tenant_id t = u) \<and>
         (dialect = PostgreSQL \<longrightarrow> \<not> locked (rt_id t)) \<and>
         t\<lparr>rt_status := T_RUNNING, rt_attempt := rt_attempt t + 1, rt_lease_owner := Some w,
           rt_lease_expires_at := Some (e_now env + or_default_int secs (lease_seconds (e_settings env)) * 1000000),
           rt_updated_at := e_now env\<rparr> \<in> set (tasks d')
       else t \<in> set (tasks d'))"
proof -
  let ?ids = "claim_ids dialect locked env tn batch d"
  have ids: "set ids = set ?ids" using claim_tasks_fst assms(2) by (metis fst_conv)
  have len: "length ids = length ?ids" "length ids \<le> or_default_nat batch (worker_batch_size (e_settings env))"
    using claim_length [OF assms(1)] claim_length_le [OF assms(1)] assms(2) by (metis fst_conv)+
  have "distinct ?ids" using assms(1) by (simp add: claim_ids_def distinct_claim_candidates keys_ok_def)
  then have dist: "distinct ids" using ids len(1) by (metis card_distinct distinct_card)
  have sub: "set ids \<subseteq> rt_id ` set (tasks d)" unfolding ids by (auto elim!: claim_ids_sound)
  have tasks: "tasks d' = upd_where (\<lambda>t. rt_id t \<in> set ids) (lease_task w (e_now env)
      (lease_until (e_now env) (or_default_int secs (lease_seconds (e_settings env))))) (tasks d)"
    using claim_tasks_tasks assms(2) ids by (metis snd_conv)
  have "claimable (e_now env) t \<and> (\<forall>u. tn = Some u \<longrightarrow> rt_tenant_id t = u)" and
    "dialect = PostgreSQL \<longrightarrow> \<not> locked (rt_id t)" if "t \<in> set (tasks d)" "rt_id t \<in> set ids" for t
    using claim_ids_claimable [OF assms(1) that(1)] that(2) ids by (auto elim: claim_ids_sound)
  with len(2) dist sub show ?thesis
    by (auto simp: tasks in_upd_where lease_task_def lease_until_def)
qed

theorem claim_leases_witness:
  "claimable 5 (sample_task 1 ''jobs'') \<and> sample_task 2 ''devices'' \<in> set (tasks sample_claimed)"
proof -
  have "rt_id (sample_task 1 ''jobs'') = sample_uuid 1" "rt_id (sample_task 2 ''devices'') = sample_uuid 2"
    by (simp_all add: sample_task_def)
  moreover have "e_now (sample_env 5) = 5" by (simp add: sample_env_def)
  ultimately show ?thesis
    using claim_leases [OF sample_intake(2) sample_claim] by (simp add: sample_shape)
qed

text \<open>
  C18. A live lease excludes other workers: of two claims in a row, the second at a time when the
  leases of the first have not run out, no task is returned by both.
\<close>

theorem leases_exclude:
  assumes "keys_ok d" and "claim_tasks dialect locked env w tn batch secs d = (ids, d1)"
    and "claim_tasks dialect' locked' env' w' tn' batch' secs' d1 = (ids', d2)"
    and "e_now env' \<le> e_now env + or_default_int secs (lease_seconds (e_settings env)) * 1000000"
  shows "set ids \<inter> set ids' = {}"
proof -
  have k1: "keys_ok d1" using claim_tasks_keys [OF assms(1)] assms(2) by (metis snd_conv)
  have tasks: "tasks d1 = upd_where (\<lambda>t. rt_id t \<in> set ids) (lease_task w (e_now env)
      (lease_until (e_now env) (or_default_int secs (lease_seconds (e_settings env))))) (tasks d)"
    using claim_tasks_tasks claim_tasks_fst assms(2) by (metis fst_conv snd_conv)
  have "False" if i: "i \<in> set ids" "i \<in> set ids'" for i
  proof -
    have "i \<in> set (claim_ids dialect' locked' env' tn' batch' d1)"
      using i(2) claim_tasks_fst assms(3) by (metis fst_conv)
    then obtain t where t: "t \<in> set (tasks d1)" "rt_id t = i" "claimable (e_now env') t" by (rule claim_ids_sound)
    then show False
      using i(1) assms(4) by (auto simp: tasks claimable_def lease_until_def elim!: upd_where_elim)
  qed
  then show ?thesis by blast
qed

theorem leases_exclude_witness:
  "set [sample_uuid 1] \<inter> set (fst (claim_tasks SQLite (\<lambda>_. False) (sample_env 100) ''w2'' None None None sample_claimed)) = {}"
proof (rule leases_exclude [OF sample_intake(2) sample_claim])
  show "claim_tasks SQLite (\<lambda>_. False) (sample_env 100) ''w2'' None None None sample_claimed =
    (fst (claim_tasks SQLite (\<lambda>_. False) (sample_env 100) ''w2'' None None None sample_claimed),
     snd (claim_tasks SQLite (\<lambda>_. False) (sample_env 100) ''w2'' None None None sample_claimed))" by simp
  show "e_now (sample_env 100) \<le> e_now (sample_env 5) +
      or_default_int None (lease_seconds (e_settings (sample_env 5))) * 1000000"
    by (simp add: sample_env_def or_default_int_def default_settings_def)
qed

text \<open>
  C8. A deletion that reports success is complete and scoped: no active record of the task's tenant,
  subject and source is left, the summary counts what was active, every record that was active is
  kept as deleted now, and every other record, of this tenant or of another, is unchanged.
\<close>

theorem delete_complete_and_scoped:
  assumes "keys_ok d" and "execute_delete env d task request = (Inr summary, d')"
  shows "active_records d' task request = [] \<and>
    summary = JObj [(''deleted_count'', JInt (int (length (active_records d task request)))),
                    (''remaining_count'', JInt 0), (''verified'', JBool True)] \<and>
    (\<forall>r \<in> set (records d).
       (if active_record task request r then r\<lparr>dr_deleted_at := Some (e_now env)\<rparr> else r) \<in> set (records d'))"
proof -
  have late: "filter (active_record task request) (e_late_records env) = []"
    using execute_delete_result [of env d task request] assms(2) by (auto split: if_splits)
  have d': "d' = d\<lparr>records := upd_where (\<lambda>r. dr_id r \<in> set (map dr_id (active_records d task request)))
          (\<lambda>r. r\<lparr>dr_deleted_at := Some (e_now env)\<rparr>) (records d) @ e_late_records env\<rparr>"
    using execute_delete_state [of env d task request] assms(2) by simp
  have same: "dr_id r \<in> set (map dr_id (active_records d task request)) \<longleftrightarrow> active_record task request r"
    if "r \<in> set (records d)" for r
    using assms(1) that key_inj [of dr_id "records d" r]
    by (auto simp: active_records_def keys_ok_def image_iff)
  have recs: "records d' = upd_where (\<lambda>r. dr_id r \<in> set (map dr_id (active_records d task request)))
          (\<lambda>r. r\<lparr>dr_deleted_at := Some (e_now env)\<rparr>) (records d) @ e_late_records env"
    using d' by simp
  have "active_records d' task request = filter (active_record task request) (records d')"
    by (rule active_records_def)
  also have "\<dots> = []" unfolding recs using late filter_active_marked [of task request d "e_now env"] by simp
  finally have "active_records d' task request = []" .
  moreover have "summary = JObj [(''deleted_count'', JInt (int (length (active_records d task request)))),
                    (''remaining_count'', JInt 0), (''verified'', JBool True)]"
    using execute_delete_result [of env d task request] assms(2) late by simp
  moreover have "(if active_record task request r then r\<lparr>dr_deleted_at := Some (e_now env)\<rparr> else r) \<in> set (records d')"
    if "r \<in> set (records d)" for r
    using that same [OF that] by (auto simp: d' in_upd_where)
  ultimately show ?thesis by blast
qed

theorem delete_complete_and_scoped_witness:
  "\<exists>summary d'. execute_delete (sample_env 7) (sample_claimed\<lparr>records := [\<lparr>dr_id = ''x'', dr_tenant_id = ''acme'',
        dr_subject_key_hash = pr_subject_key_hash sample_request, dr_source = ''jobs'', dr_payload = JNull,
        dr_deleted_at = None, dr_created_at = 0\<rparr>]\<rparr>) sample_running sample_request = (Inr summary, d') \<and>
     active_records d' sample_running sample_request = []"
proof -
  let ?d = "sample_claimed\<lparr>records := [\<lparr>dr_id = ''x'', dr_tenant_id = ''acme'',
        dr_subject_key_hash = pr_subject_key_hash sample_request, dr_source = ''jobs'', dr_payload = JNull,
        dr_deleted_at = None, dr_created_at = 0\<rparr>]\<rparr>"
  have k: "keys_ok ?d" using sample_claimed_ok by (simp add: cloud_ok_def core_ok_def keys_ok_def)
  have "\<not> isl (fst (execute_delete (sample_env 7) ?d sample_running sample_request))"
    unfolding execute_delete_result by (simp add: sample_env_def)
  then obtain summary d' where "execute_delete (sample_env 7) ?d sample_running sample_request = (Inr summary, d')"
    by (cases "execute_delete (sample_env 7) ?d sample_running sample_request"; cases
        "fst (execute_delete (sample_env 7) ?d sample_running sample_request)") auto
  with delete_complete_and_scoped [OF k this] show ?thesis by blast
qed

text \<open>
  C9. How an executed task is recorded: a result makes it succeeded with the result stored and the
  error cleared; a failure stores the error's text (at most 2000 characters) and makes it failed,
  or pending again when a regional source is used and the attempts are not exhausted. The lease is
  given up in every case, the attempts stay, and the outcome is audited.
\<close>

theorem executed_task_recorded:
  assumes "core_ok (e_sha256 env) d" and "late_ok env d" and "task \<in> set (tasks d)" and "rt_status task = T_RUNNING"
    and "rt_lease_owner task = Some w" and "request \<in> set (requests d)" and "pr_id request = rt_request_id task"
    and "execute_task env ex (rt_id task) w d st = (Inr ok, d', st')"
  shows "\<exists>t \<in> set (tasks d'). task_frame t = task_frame task \<and> rt_attempt t = rt_attempt task \<and>
    rt_lease_owner t = None \<and> rt_lease_expires_at t = None \<and>
    (\<exists>a \<in> set (audit d'). a \<notin> set (audit d) \<and> au_action a = task_action (rt_status t) \<and>
       au_request_id a = rt_request_id task) \<and>
    (case fst (run_source env ex task request d) of
       Inr result \<Rightarrow> ok \<and> rt_status t = T_SUCCEEDED \<and> rt_result_summary t = result \<and> rt_error t = None
     | Inl e \<Rightarrow> \<not> ok \<and> rt_error t = Some (take 2000 (exn_text e)) \<and>
         rt_status t = (if ex \<noteq> None \<and> rt_attempt task < max_task_attempts (e_settings env) then T_PENDING else T_FAILED))"
proof -
  have k: "keys_ok d" by (rule core_ok_keys [OF assms(1)])
  have "filter (\<lambda>t. rt_id t = rt_id task \<and> rt_status t = T_RUNNING \<and> rt_lease_owner t = Some w) (tasks d) =
      filter (\<lambda>t. rt_status t = T_RUNNING \<and> rt_lease_owner t = Some w) (filter (\<lambda>t. rt_id t = rt_id task) (tasks d))"
    by (simp add: conj_ac)
  also have "\<dots> = [task]" using k assms(3-5) by (simp add: keys_ok_def filter_key_singleton del: filter_filter)
  finally have load: "load_task d (rt_id task) w = Inr (Some task)" by (simp add: load_task_def)
  have "find (\<lambda>r. pr_id r = rt_request_id task) (requests d) = Some request"
    using find_key_Some [of pr_id "requests d" request] k assms(6,7) by (simp add: keys_ok_def)
  with load assms(8) have fin: "finish_task env ex task request d st = (Inr ok, d', st')"
    by (simp add: execute_task_def)
  let ?o = "fst (run_source env ex task request d)"
  note row = finish_task_row [OF assms(1-4) fin]
  show ?thesis
  proof (rule bexI [of _ "settle_task env ex task ?o task"])
    show "settle_task env ex task ?o task \<in> set (tasks d')" using row by blast
    show "task_frame (settle_task env ex task ?o task) = task_frame task \<and>
      rt_attempt (settle_task env ex task ?o task) = rt_attempt task \<and>
      rt_lease_owner (settle_task env ex task ?o task) = None \<and>
      rt_lease_expires_at (settle_task env ex task ?o task) = None \<and>
      (\<exists>a \<in> set (audit d'). a \<notin> set (audit d) \<and> au_action a = task_action (rt_status (settle_task env ex task ?o task)) \<and>
         au_request_id a = rt_request_id task) \<and>
      (case ?o of
         Inr result \<Rightarrow> ok \<and> rt_status (settle_task env ex task ?o task) = T_SUCCEEDED \<and>
           rt_result_summary (settle_task env ex task ?o task) = result \<and> rt_error (settle_task env ex task ?o task) = None
       | Inl e \<Rightarrow> \<not> ok \<and> rt_error (settle_task env ex task ?o task) = Some (take 2000 (exn_text e)) \<and>
           rt_status (settle_task env ex task ?o task) =
             (if ex \<noteq> None \<and> rt_attempt task < max_task_attempts (e_settings env) then T_PENDING else T_FAILED))"
      using row by (auto simp: settle_task_def orm_set_def failed_status_def task_frame_def split: sum.splits)
  qed
qed

theorem executed_task_recorded_witness:
  "\<exists>d'. execute_task (sample_env 7) (Some sample_down) (sample_uuid 1) ''w1'' sample_claimed () = (Inr False, d', ()) \<and>
     (\<exists>t \<in> set (tasks d'). rt_status t = T_PENDING \<and> rt_error t = Some ''slow'')"
proof -
  obtain d' where run: "execute_task (sample_env 7) (Some sample_down) (sample_uuid 1) ''w1'' sample_claimed () =
      (Inr False, d', ())" using sample_executed by blast
  have t: "sample_running \<in> set (tasks sample_claimed)" "rt_status sample_running = T_RUNNING"
    "rt_lease_owner sample_running = Some ''w1''" "rt_id sample_running = sample_uuid 1" "rt_attempt sample_running = 1"
    by (simp_all add: sample_claimed_tasks) (simp_all add: sample_running_def sample_task_def)
  have o: "fst (run_source (sample_env 7) (Some sample_down) sample_running sample_parent sample_claimed) =
      Inl (TimeoutError ''slow'')" by (simp add: run_source_def sample_down_def Let_def)
  have m: "max_task_attempts (e_settings (sample_env 7)) = 5" by (simp add: sample_env_def default_settings_def)
  have c: "core_ok (e_sha256 (sample_env 7)) sample_claimed"
    using sample_claimed_ok by (simp add: cloud_ok_def sample_env_def)
  show ?thesis
    using executed_task_recorded [OF c sample_late_ok t(1-3) sample_parent_facts(1,2), of "Some sample_down" "()" False d' "()"]
      run t(4,5) o m by auto
qed



section \<open>A request without sources\<close>

text \<open>
  An empty list of sources is accepted; the request then has no task, no claim ever starts it, and
  every refresh leaves it queued.
\<close>

lemma empty_sources_stay_queued:
  assumes "keys_ok d" and "r \<in> set (requests d)" and "request_tasks d (pr_id r) = []"
  shows "validate_sources [] = Inr [] \<and>
    (\<exists>d'. refresh_request_status env (pr_id r) d st = (Inr QUEUED, d', st) \<and> request_tasks d' (pr_id r) = [])"
proof -
  have q: "derived_status {} = QUEUED" by (simp add: derived_status_def)
  have "\<exists>d'. refresh_request_status env (pr_id r) d st = (Inr QUEUED, d', st) \<and> tasks d' = tasks d"
    by (simp add: refresh_request_status_def scalar_one_request [OF assms(1,2)] assms(3) q refresh_artifact_def
        needs_access_artifact_def became_terminal_def terminal_status_def Let_def)
  then show ?thesis using assms(3) by (auto simp: validate_sources_def request_tasks_def)
qed

end
