(* ===== verification/Queue_Props.thy ===== *)
theory Queue_Props
  imports Queue_Worker Worker_Props
begin

text \<open>
  The properties of the outbox relay, the queue adapters and the queue worker: what a relay pass
  publishes, that a task message survives the SQS encoding, that a message is acknowledged exactly
  when its handler succeeded, and that a duplicate delivery never runs a settled or leased task.
\<close>

section \<open>Reading a sorted object\<close>

lemma json_get_sorted:
  assumes "distinct (map fst kvs)"
  shows "json_get (sort_json (JObj kvs)) k = Inr (map_option sort_json (map_of kvs k))"
proof -
  let ?kvs = "map (\<lambda>kv. (fst kv, sort_json (snd kv))) kvs"
  have keys: "map fst ?kvs = map fst kvs" by simp
  then have d: "distinct (map fst ?kvs)" by (simp only: assms)
  have "mset (map fst (sort_key fst ?kvs)) = mset (map fst ?kvs)" by (simp only: mset_map mset_sort)
  then have "distinct (map fst (sort_key fst ?kvs))" using d mset_eq_imp_distinct_iff by blast
  then have "map_of (sort_key fst ?kvs) = map_of ?kvs" using d by (simp add: map_of_inject_set)
  moreover have "map_of ?kvs k = map_option sort_json (map_of kvs k)"
    by (induction kvs) auto
  ultimately show ?thesis by simp
qed

definition task_payload :: "string \<Rightarrow> string \<Rightarrow> string \<Rightarrow> json" where
  "task_payload task_id request_id source =
     JObj [(''task_id'', JStr task_id), (''request_id'', JStr request_id), (''source'', JStr source)]"

lemma ready_task_id:
  assumes "ob_event_type e = ''privacy_task.ready''" and "ob_payload e = task_payload i r s" and "i \<noteq> []"
  shows "message_task_id (event_envelope e) = Inr (Some i)"
    "message_task_id (sort_json (event_envelope e)) = Inr (Some i)"
proof -
  let ?p = "[(''task_id'', JStr i), (''request_id'', JStr r), (''source'', JStr s)]"
  show "message_task_id (event_envelope e) = Inr (Some i)"
    using assms by (simp add: message_task_id_def event_envelope_def json_get_or_def task_payload_def)
  have "json_get (sort_json (JObj ?p)) ''task_id'' = Inr (Some (JStr i))"
    by (subst json_get_sorted) simp_all
  moreover have "json_get (sort_json (event_envelope e)) ''event_type'' = Inr (Some (JStr ''privacy_task.ready''))"
    "json_get (sort_json (event_envelope e)) ''payload'' = Inr (Some (sort_json (JObj ?p)))"
    unfolding event_envelope_def
    by (subst json_get_sorted, simp, simp add: assms(1), subst json_get_sorted, simp)
       (use assms(2) in \<open>simp add: task_payload_def\<close>)
  ultimately show "message_task_id (sort_json (event_envelope e)) = Inr (Some i)"
    using assms(3) unfolding message_task_id_def json_get_or_def by simp
qed

section \<open>Publishing on the in-process queue\<close>

lemma local_publish_envelope:
  "publish local_task_queue (event_envelope e) q =
     (Inr (ob_id e), q\<lparr>lq_messages := lq_messages q @
        [\<lparr>message_id = ob_id e, receipt_handle = ob_id e, body = event_envelope e, receive_count = 1\<rparr>]\<rparr>)"
  by (simp add: local_task_queue_def local_publish_def event_envelope_def Let_def)

lemma local_relay_loop:
  "fst (relay_loop local_task_queue clock events published q) =
     published @ zip (map ob_id events) (map clock [length published..<length published + length events])"
proof (induction events arbitrary: published q)
  case (Cons e events)
  show ?case
    using Cons.IH [of "published @ [(ob_id e, clock (length published))]"]
    by (simp add: local_publish_envelope upt_conv_Cons del: upt_Suc)
qed simp

section \<open>Heartbeats on the in-process queue\<close>

lemma local_maintain:
  assumes "\<And>w. f w = (r, g w)"
  shows "maintain_visibility local_task_queue m vis (Some f) n None w q =
    (case r of
       Inl e \<Rightarrow> (if n = 0 then None else Some e, if n = 0 then w else g w,
         q\<lparr>lq_heartbeats := lq_heartbeats q @ replicate (if n = 0 then 0 else 1) (receipt_handle m, vis)\<rparr>)
     | Inr _ \<Rightarrow> (None, (g ^^ n) w,
         q\<lparr>lq_heartbeats := lq_heartbeats q @ replicate n (receipt_handle m, vis)\<rparr>))"
proof (induction n arbitrary: w q)
  case 0
  then show ?case by (cases r) simp_all
next
  case (Suc n)
  then show ?case
    using assms
    by (cases r) (auto simp: local_task_queue_def local_heartbeat_def funpow_swap1 split: sum.splits)
qed

text \<open>
  The heartbeat of a message whose body cannot be read changes nothing and fails; otherwise it
  extends the lease of the message's task when there is one.
\<close>

definition beat :: "'st env \<Rightarrow> string \<Rightarrow> int \<Rightarrow> json \<Rightarrow> cloud \<times> 'st \<Rightarrow> cloud \<times> 'st" where
  "beat env worker_id secs b w = snd (heartbeat_database_lease env worker_id secs b w)"

lemma heartbeat_as_beat:
  "heartbeat_database_lease env worker_id secs b w =
     ((case message_task_id b of Inl e \<Rightarrow> Inl e | Inr _ \<Rightarrow> Inr ()), beat env worker_id secs b w)"
  by (simp add: beat_def heartbeat_database_lease_def split: sum.splits option.splits)

lemma beat_unreadable: "message_task_id b = Inl e \<Longrightarrow> beat env worker_id secs b w = w"
  by (simp add: beat_def heartbeat_database_lease_def)

section \<open>Examples\<close>

definition sample_event :: outbox_event where
  "sample_event = \<lparr>ob_id = ''e1'', ob_tenant_id = ''acme'', ob_aggregate_id = ''t1'',
     ob_event_type = ''privacy_task.ready'', ob_payload = task_payload ''t1'' ''r1'' ''jobs'',
     ob_created_at = 0, ob_published_at = None\<rparr>"

definition sample_message :: "string \<Rightarrow> json" where
  "sample_message i = event_envelope (sample_event\<lparr>ob_payload := task_payload i ''r1'' ''jobs''\<rparr>)"

lemma sample_message_task: "i \<noteq> [] \<Longrightarrow> message_task_id (sample_message i) = Inr (Some i)"
  unfolding sample_message_def
  by (rule ready_task_id(1) [of _ i "''r1''" "''jobs''"]) (simp_all add: sample_event_def)

section \<open>Properties\<close>

text \<open>
  The relay on the in-process queue: every candidate (the oldest unpublished rows, at most the
  batch size, not locked by another relay) is appended to the queue in order of creation and marked
  published, none fails, and every other outbox row is unchanged.
\<close>

theorem relay_publishes_candidates:
  assumes "keys_ok d" and "relay_outbox_once local_task_queue dialect locked clock n d q = (res, d', q')"
  shows "map body (lq_messages q') = map body (lq_messages q) @ map event_envelope (relay_candidates dialect locked n d) \<and>
    r_published res = length (relay_candidates dialect locked n d) \<and> r_failed res = 0 \<and>
    unpublished_outbox_count d' + r_published res = unpublished_outbox_count d \<and>
    (\<forall>e \<in> set (outbox d'). ob_id e \<in> ob_id ` set (relay_candidates dialect locked n d) \<or> e \<in> set (outbox d))"
proof -
  let ?c = "relay_candidates dialect locked n d"
  from local_queue.relay_spec [OF assms] obtain new where new: "subseq new ?c" "length new = r_published res"
    "map body (lq_messages q') = map body (lq_messages q) @ map event_envelope new"
    "r_claimed res = length ?c" "r_published res + r_failed res = r_claimed res"
    "unpublished_outbox_count d' + length new = unpublished_outbox_count d"
    "\<forall>e \<in> set (outbox d'). ob_id e \<in> ob_id ` set new \<or> e \<in> set (outbox d)" by auto
  have "r_published res = length ?c"
    using assms(2) arg_cong [OF local_relay_loop [of clock ?c "[]" q], of length]
    by (auto simp: relay_outbox_once_def Let_def split: prod.splits)
  moreover from this new(1,2) have "new = ?c" by (metis subseq_same_length)
  ultimately show ?thesis using new by auto
qed

theorem relay_publishes_candidates_witness:
  "keys_ok sample_cloud \<and>
   r_published (fst (relay_outbox_once local_task_queue SQLite (\<lambda>_. False) (\<lambda>k. 9) 100 sample_cloud empty_local_queue)) =
     length (relay_candidates SQLite (\<lambda>_. False) 100 sample_cloud)"
proof -
  note k = sample_intake(2)
  obtain res d' q' where run: "relay_outbox_once local_task_queue SQLite (\<lambda>_. False) (\<lambda>k. 9) 100 sample_cloud
      empty_local_queue = (res, d', q')" by (metis prod_cases3)
  from relay_publishes_candidates [OF k run] k run show ?thesis by simp
qed



text \<open>
  A message is acknowledged exactly when its handler returned true: with the in-process queue
  the consumer returns what the handler returned (or raised) on the state its heartbeats left, adds
  the receipt to the acknowledged ones in the case of true, and leaves every waiting message.
\<close>

theorem acked_exactly_when_handled:
  "let beats = beat (envs 2) worker_id (lease_seconds (e_settings (envs 0))) (body m);
       w1 = (beats ^^ fst ticks) w;
       r = fst (handle_task_envelope envs ex worker_id (lease_seconds (e_settings (envs 0))) (body m) (fst w1) (snd w1));
       (res, w', q') = consume_task_message local_task_queue envs ex worker_id ticks m w q
   in res = r \<and> lq_acked q' = lq_acked q @ (if r = Inr True then [receipt_handle m] else []) \<and>
      lq_messages q' = lq_messages q"
proof -
  let ?secs = "lease_seconds (e_settings (envs 0))" and ?vis = "sqs_visibility_timeout_seconds (e_settings (envs 0))"
  let ?b = "beat (envs 2) worker_id ?secs (body m)"
  let ?handle = "\<lambda>b w. case handle_task_envelope envs ex worker_id ?secs b (fst w) (snd w) of (r, d, st) \<Rightarrow> (r, (d, st))"
  note main = local_maintain [where f = "heartbeat_database_lease (envs 2) worker_id ?secs (body m)"
      and g = ?b and m = m and vis = ?vis, OF heartbeat_as_beat]
  have ack: "ack local_task_queue h q = (Inr (), q\<lparr>lq_acked := lq_acked q @ [h]\<rparr>)" for h q
    by (simp add: local_task_queue_def local_ack_def)
  show ?thesis
  proof (cases "message_task_id (body m)")
    case (Inl e)
    have fp: "(?b ^^ n) x = x" for n x by (induction n) (simp_all add: beat_unreadable [OF Inl])
    have h: "handle_task_envelope envs ex worker_id ?secs (body m) d st = (Inl e, d, st)" for d st
      by (simp add: handle_task_envelope_def Inl)
    show ?thesis
      by (cases "fst ticks = 0"; cases "snd ticks = 0")
         (simp_all add: consume_task_message_def consume_with_heartbeat_def main Inl h fp Let_def beat_unreadable [OF Inl]
            del: maintain_visibility.simps(2,3))
  next
    case (Inr i)
    obtain r d st where h: "handle_task_envelope envs ex worker_id ?secs (body m)
        (fst ((?b ^^ fst ticks) w)) (snd ((?b ^^ fst ticks) w)) = (r, d, st)" by (metis prod_cases3)
    show ?thesis
      by (cases r) (simp_all add: consume_task_message_def consume_with_heartbeat_def main Inr h ack Let_def
            del: maintain_visibility.simps(2,3))
  qed
qed

text \<open>
  C14. At-least-once delivery is absorbed: a message for a task that is already settled runs nothing
  (tasks and records stay as they are) and is acknowledged unless the repair of its request raises;
  the repair leaves the request with the status its tasks determine.
\<close>

theorem settled_task_never_rerun:
  assumes "keys_ok d" and "t \<in> set (tasks d)" and "rt_status t \<in> {T_SUCCEEDED, T_FAILED}"
    and "message_task_id b = Inr (Some (rt_id t))"
    and "handle_task_envelope envs ex w secs b d st = (res, d', st')"
  shows "tasks d' = tasks d \<and> records d' = records d \<and> res \<noteq> Inr False \<and>
    (res = Inr True \<longrightarrow> (\<forall>r \<in> set (requests d'). pr_id r = rt_request_id t \<longrightarrow>
       pr_status r = derived_status (statuses d (rt_request_id t))))"
proof -
  have f: "find (\<lambda>s. rt_id s = rt_id t) (tasks d) = Some t"
    using find_key_Some [of rt_id "tasks d" t] assms(1,2) by (simp add: keys_ok_def)
  then have claim: "claim_message_task (envs 0) (rt_id t) w secs d = (TERMINAL_DUPLICATE, d)"
    using assms(3) by (simp add: claim_message_task_def claim_message_task_racing_def)
  obtain r d2 st2 where ref: "refresh_request_status (envs 1) (rt_request_id t) d st = (r, d2, st2)"
    by (metis prod_cases3)
  have out: "d' = d2" "res = (case r of Inl e \<Rightarrow> Inl e | Inr _ \<Rightarrow> Inr True)"
    using assms(5) by (auto simp: handle_task_envelope_def assms(4) claim f ref split: sum.splits simp del: One_nat_def)
  have "pr_status q = derived_status (statuses d (rt_request_id t))"
    if "r = Inr s" "q \<in> set (requests d2)" "pr_id q = rt_request_id t" for s q
  proof -
    from refresh_artifact_set [OF assms(1) ref [unfolded that(1)]] obtain p art where
      "s = derived_status (statuses d (rt_request_id t))"
      "requests d2 = upd_where (\<lambda>q. pr_id q = rt_request_id t) (refreshed (envs 1) p s art) (requests d)" by blast
    with that(2,3) show ?thesis by (auto simp: in_upd_where)
  qed
  then show ?thesis using out refresh_frame [OF assms(1) ref] by (auto split: sum.splits)
qed

theorem settled_task_never_rerun_witness:
  "\<exists>res d' st'. handle_task_envelope (\<lambda>_. sample_env 9) None ''w2'' 60 (sample_message (sample_uuid 1))
      (sample_claimed\<lparr>tasks := [sample_running\<lparr>rt_status := T_SUCCEEDED\<rparr>]\<rparr>) () = (res, d', st') \<and>
     tasks d' = [sample_running\<lparr>rt_status := T_SUCCEEDED\<rparr>] \<and> res \<noteq> Inr False"
proof -
  let ?t = "sample_running\<lparr>rt_status := T_SUCCEEDED\<rparr>" and ?d = "sample_claimed\<lparr>tasks := [sample_running\<lparr>rt_status := T_SUCCEEDED\<rparr>]\<rparr>"
  obtain res d' st' where h: "handle_task_envelope (\<lambda>_. sample_env 9) None ''w2'' 60 (sample_message (sample_uuid 1)) ?d () =
      (res, d', st')" by (metis prod_cases3)
  have k: "keys_ok ?d" using sample_claimed_ok by (simp add: cloud_ok_def core_ok_def keys_ok_def)
  have m: "message_task_id (sample_message (sample_uuid 1)) = Inr (Some (rt_id ?t))"
    using sample_message_task [of "sample_uuid 1"] by (simp add: sample_running_def sample_task_def sample_uuid_def)
  from settled_task_never_rerun [OF k _ _ m h] h show ?thesis by simp
qed

text \<open>
  A message for a task whose lease is still running, in the hands of any worker, changes
  nothing and is not acknowledged, so that the queue delivers it again.
\<close>

theorem leased_task_not_taken:
  assumes "keys_ok d" and "t \<in> set (tasks d)" and "rt_status t = T_RUNNING" and "rt_lease_expires_at t = Some x"
    and "e_now (envs 0) \<le> x" and "message_task_id b = Inr (Some (rt_id t))"
  shows "handle_task_envelope envs ex w secs b d st = (Inr False, d, st)"
proof -
  have f: "find (\<lambda>s. rt_id s = rt_id t) (tasks d) = Some t"
    using find_key_Some [of rt_id "tasks d" t] assms(1,2) by (simp add: keys_ok_def)
  have free: "\<not> claimable (e_now (envs 0)) t" using assms(3-5) by (simp add: claimable_def)
  have "\<not> claimable (e_now (envs 0)) s" if "s \<in> set (tasks d)" "rt_id s = rt_id t" for s
  proof -
    have "s = t" using assms(1,2) that key_inj [of rt_id "tasks d" s t] by (simp add: keys_ok_def)
    with free show ?thesis by simp
  qed
  then have "filter (\<lambda>s. rt_id s = rt_id t \<and> claimable (e_now (envs 0)) s) (tasks d) = []"
    by (auto simp: filter_empty_conv)
  then have "claim_message_task (envs 0) (rt_id t) w secs d = (BUSY, d)"
    using assms(3) f by (simp add: claim_message_task_def claim_message_task_racing_def)
  then show ?thesis using assms(6) by (simp add: handle_task_envelope_def)
qed

theorem leased_task_not_taken_witness:
  "handle_task_envelope (\<lambda>_. sample_env 9) None ''w2'' 60 (sample_message (sample_uuid 1)) sample_claimed () =
     (Inr False, sample_claimed, ())"
proof -
  have t: "sample_running \<in> set (tasks sample_claimed)" "rt_status sample_running = T_RUNNING"
    "rt_lease_expires_at sample_running = Some 60000005" "rt_id sample_running = sample_uuid 1"
    by (simp_all add: sample_claimed_tasks) (simp_all add: sample_running_def sample_task_def)
  have k: "keys_ok sample_claimed" using sample_claimed_ok by (simp add: cloud_ok_def core_ok_def)
  have m: "message_task_id (sample_message (sample_uuid 1)) = Inr (Some (rt_id sample_running))"
    unfolding t(4) by (rule sample_message_task) (simp add: sample_uuid_def)
  show ?thesis by (rule leased_task_not_taken [OF k t(1-3) _ m]) (simp add: sample_env_def)
qed

end
