(* ===== verification/System_Props.thy ===== *)
theory System_Props
  imports System Queue_Props
begin

text \<open>
  The properties of the whole control plane, over every interleaving of clients, workers, relay and
  consumers: the invariant of the tables, the meaning of a final status, that a settled task stays
  as it is while workers commit under their lease, and what a worker that lost its lease can do.
\<close>

section \<open>Settled tasks\<close>

definition settled :: "request_task \<Rightarrow> bool" where
  "settled t \<longleftrightarrow> rt_status t \<in> {T_SUCCEEDED, T_FAILED}"

lemma settled_not_claimable: "settled t \<Longrightarrow> \<not> claimable now t"
  by (auto simp: settled_def claimable_def)

lemma upd_keeps: "t \<in> set ts \<Longrightarrow> \<not> P t \<Longrightarrow> t \<in> set (upd_where P f ts)"
  by (auto simp: in_upd_where)

lemma create_keeps_tasks:
  assumes "keys_ok d0" and "keys_ok d"
    and "create_privacy_request_racing sha256 uuid now tn key c d0 d = (res, d')"
  shows "set (tasks d) \<subseteq> set (tasks d')"
proof (rule create_cases [OF assms], goal_cases existing refused created)
  case (created d1)
  from create_rows_spec [OF created(1)] obtain ts where "tasks d1 = tasks d @ ts" by auto
  with created(2) show ?case by simp
qed simp_all

lemma claim_keeps_settled:
  assumes "keys_ok d" and "t \<in> set (tasks d)" and "settled t"
  shows "t \<in> set (tasks (snd (claim_tasks dialect locked env w tn batch secs d)))"
proof -
  have "rt_id t \<notin> set (claim_ids dialect locked env tn batch d)"
    using claim_ids_claimable [OF assms(1,2)] settled_not_claimable [OF assms(3)] by blast
  then show ?thesis unfolding claim_tasks_tasks by (rule upd_keeps [OF assms(2)])
qed

lemma claim_message_keeps_settled:
  assumes "keys_ok d" and "t \<in> set (tasks d)" and "settled t"
    and "claim_message_task_racing env i w secs d0 d = (res, d')"
  shows "t \<in> set (tasks d')"
  using assms(1,4)
proof (cases rule: claim_message_cases)
  case (claimed u)
  have "rt_id t \<noteq> i"
    using claimed settled_not_claimable [OF assms(3)] assms(1,2) key_inj [of rt_id "tasks d" t u]
    by (auto simp: keys_ok_def)
  then show ?thesis using claimed(5) assms(2) by (simp add: start_requests_def upd_keeps)
qed (use assms(2) in simp)

lemma finish_keeps_settled:
  assumes "sys_ok fenced sha256 s" and "(task, request) \<in> set (loaded s)" and "still_leased (db s) task"
    and "e_sha256 env = sha256" and "late_ok env (db s)"
    and "finish_task env ex task request (db s) (store s) = (res, d', st')"
    and "t \<in> set (tasks (db s))" and "settled t"
  shows "t \<in> set (tasks d')"
proof -
  have core: "core_ok (e_sha256 env) (db s)" and lo: "loaded_ok (db s) (task, request)"
    using assms(1,2,4) by (auto simp: sys_ok_def)
  note k = core_ok_keys [OF core]
  obtain u where u: "u \<in> set (tasks (db s))" "rt_id u = rt_id task" "rt_status u = T_RUNNING"
    by (rule leased_row [OF k lo assms(3)])
  have "rt_id t \<noteq> rt_id task"
    using u assms(7,8) k key_inj [of rt_id "tasks (db s)" t u] by (auto simp: keys_ok_def settled_def)
  with finish_tasks [OF core loaded_snapshot [OF k lo] assms(5,6)] assms(7) show ?thesis
    by (auto simp: upd_keeps)
qed

lemma step_keeps_settled:
  assumes "step True sha256 Q s s'" and "sys_ok True sha256 s" and "t \<in> set (tasks (db s))" and "settled t"
  shows "t \<in> set (tasks (db s'))"
proof -
  have k: "keys_ok (db s)" using assms(2) by (auto simp: sys_ok_def core_ok_def)
  show ?thesis
    using assms(1)
  proof cases
    case (intake d0 uuid now tn key c res d')
    then show ?thesis using assms(3) create_keeps_tasks [OF intake(2) k intake(3)] by auto
  next
    case (claim dialect locked env w tn batch secs)
    then show ?thesis using claim_keeps_settled [OF k assms(3,4)] by simp
  next
    case (claim_message env i w secs d0 res d')
    then show ?thesis using claim_message_keeps_settled [OF k assms(3,4)] by simp
  next
    case (finish task request env ex res d' st')
    then show ?thesis using finish_keeps_settled [OF assms(2) _ _ _ _ _ assms(3,4)] by simp
  next
    case (refresh env i res d' st')
    then show ?thesis using refresh_frame [OF k refresh(3)] assms(3) by simp
  next
    case (extend env i w secs)
    then show ?thesis
      using assms(3,4) by (auto simp: extend_task_lease_def Let_def settled_def intro!: upd_keeps)
  next
    case (relay dialect locked clock n r d' q')
    then show ?thesis using relay_state [OF relay(2)] assms(3) mark_published_frame(1) by auto
  next
    case (seeding uuid now tn sc nr d')
    then show ?thesis using seed_tasks assms(3) by auto
  next
    case (clearing tn)
    then show ?thesis using assms(3) by (simp add: clear_seed_records_def)
  qed (use assms(3) in simp_all)
qed

section \<open>An example run\<close>

text \<open>A request is made, a first worker leases a task and loads it, and its lease runs out.\<close>

definition sample_sys :: "cloud \<Rightarrow> (request_task \<times> privacy_request) list \<Rightarrow> (unit, local_queue) sys" where
  "sample_sys d l = \<lparr>db = d, store = (), queue = empty_local_queue, loaded = l\<rparr>"

definition sample_taken :: cloud where
  "sample_taken = snd (claim_tasks SQLite (\<lambda>_. False) (sample_env 90000000) ''w2'' None (Some 1) None sample_claimed)"

lemma sample_created: "reachable fenced sample_digest local_task_queue (sample_sys sample_cloud [])"
proof -
  have "create_privacy_request_racing sample_digest sample_uuid 0 ''acme'' ''k1'' sample_delete empty_cloud
      (db (initial_sys () empty_local_queue)) = (Inr (Some sample_request, True), sample_cloud)"
    using sample_intake(1) by (simp add: create_privacy_request_def initial_sys_def)
  from step.intake [OF keys_ok_empty this] show ?thesis
    by (intro reachable.more [OF reachable.start [of _ _ _ "()" empty_local_queue]])
       (simp add: sample_sys_def initial_sys_def)
qed

lemma sample_leased: "reachable fenced sample_digest local_task_queue (sample_sys sample_claimed [])"
  using step.claim [of fenced sample_digest local_task_queue "sample_sys sample_cloud []" SQLite "\<lambda>_. False"
      "sample_env 5" "''w1''" None "Some 1" None]
  by (intro reachable.more [OF sample_created]) (simp add: sample_sys_def sample_claimed_def)

lemma sample_ids:
  "rt_request_id sample_running = sample_uuid 0" "rt_id sample_running = sample_uuid 1"
  "rt_status sample_running = T_RUNNING" "rt_lease_owner sample_running = Some ''w1''"
  by (simp_all add: sample_running_def sample_task_def)

lemma sample_loaded:
  "reachable fenced sample_digest local_task_queue (sample_sys sample_claimed [(sample_running, sample_parent)])"
proof -
  have "find (\<lambda>r. pr_id r = rt_request_id sample_running) (requests sample_claimed) = Some sample_parent"
    by (simp add: sample_claimed_requests sample_parent_facts sample_ids)
  with step.load [of "sample_sys sample_claimed []" "sample_uuid 1" "''w1''" sample_running sample_parent fenced
      sample_digest local_task_queue] sample_load show ?thesis
    by (intro reachable.more [OF sample_leased]) (simp add: sample_sys_def)
qed

lemma sample_overtaken:
  "reachable fenced sample_digest local_task_queue (sample_sys sample_taken [(sample_running, sample_parent)])"
  using step.claim [of fenced sample_digest local_task_queue "sample_sys sample_claimed [(sample_running, sample_parent)]"
      SQLite "\<lambda>_. False" "sample_env 90000000" "''w2''" None "Some 1" None]
  by (intro reachable.more [OF sample_loaded]) (simp add: sample_sys_def sample_taken_def)

lemma sample_taken_shape:
  "tasks sample_taken = [lease_task ''w2'' 90000000 150000000 sample_running, sample_task 2 ''devices'']"
  "requests sample_taken = [sample_parent]" "audit sample_taken = audit sample_cloud" "fresh sample_taken = 7"
proof -
  have ids: "claim_ids SQLite (\<lambda>_. False) (sample_env 90000000) None (Some 1) sample_claimed = [sample_uuid 1]"
    by (simp add: claim_ids_def claim_candidates_def sample_claimed_tasks sample_ids claimable_def or_default_nat_def)
       (simp add: sample_running_def sample_task_def sample_env_def lease_task_def)
  have neq: "rt_id (sample_task 2 ''devices'') = sample_uuid 2" by (simp add: sample_task_def)
  show "tasks sample_taken = [lease_task ''w2'' 90000000 150000000 sample_running, sample_task 2 ''devices'']"
    unfolding sample_taken_def claim_tasks_tasks ids
    by (simp add: sample_claimed_tasks sample_ids neq)
       (simp add: sample_env_def lease_until_def or_default_int_def default_settings_def)
  show "requests sample_taken = [sample_parent]"
    unfolding sample_taken_def claim_tasks_requests ids
    by (simp add: sample_claimed_requests sample_claimed_tasks sample_ids neq sample_parent_facts)
  show "audit sample_taken = audit sample_cloud" "fresh sample_taken = 7"
    by (simp_all add: sample_taken_def sample_claimed_def sample_shape)
qed

section \<open>Properties\<close>

text \<open>
  C1. What every interleaving of clients, workers, crashes, relays and consumers keeps: no two
  requests of a tenant share an idempotency key, no two tasks of a request share a source, every
  request has one task per requested source, every task has a request of its tenant and an outbox
  event that announces it, exactly the running tasks have a lease owner and an expiry, and the
  audit chain of every tenant verifies.
\<close>

theorem control_plane_invariant:
  assumes "reachable fenced sha256 Q s"
  shows "distinct (map (\<lambda>r. (pr_tenant_id r, pr_idempotency_key r)) (requests (db s))) \<and>
    distinct (map (\<lambda>t. (rt_request_id t, rt_source t)) (tasks (db s))) \<and>
    (\<forall>r \<in> set (requests (db s)). map rt_source (request_tasks (db s) (pr_id r)) = pr_requested_sources r) \<and>
    (\<forall>t \<in> set (tasks (db s)).
       (\<exists>r \<in> set (requests (db s)). pr_id r = rt_request_id t \<and> pr_tenant_id r = rt_tenant_id t) \<and>
       (\<exists>e \<in> set (outbox (db s)). ob_event_type e = ''privacy_task.ready'' \<and> ob_aggregate_id e = rt_id t \<and>
          ob_tenant_id e = rt_tenant_id t) \<and>
       (rt_status t = T_RUNNING \<longleftrightarrow> rt_lease_owner t \<noteq> None) \<and>
       (rt_status t = T_RUNNING \<longleftrightarrow> rt_lease_expires_at t \<noteq> None)) \<and>
    (\<forall>u. verify_audit_chain sha256 (db s) u)"
proof -
  have core: "core_ok sha256 (db s)" using reachable_sys_ok [OF assms] by (simp add: sys_ok_def)
  then have "keys_ok (db s)" by (rule core_ok_keys)
  then have "distinct (map (\<lambda>r. (pr_tenant_id r, pr_idempotency_key r)) (requests (db s)))"
    "distinct (map (\<lambda>t. (rt_request_id t, rt_source t)) (tasks (db s)))"
    by (simp_all add: keys_ok_def idem_key_def [abs_def] request_source_def [abs_def])
  moreover have "(rt_status t = T_RUNNING \<longleftrightarrow> rt_lease_owner t \<noteq> None) \<and>
      (rt_status t = T_RUNNING \<longleftrightarrow> rt_lease_expires_at t \<noteq> None)" if "t \<in> set (tasks (db s))" for t
  proof -
    have "task_ok t" using core that by (simp add: core_ok_def list_all_iff)
    then show ?thesis unfolding task_ok_def by argo
  qed
  ultimately show ?thesis
    using core unfolding core_ok_def parents_ok_def ready_ok_def chains_ok_def by blast
qed

theorem control_plane_invariant_witness:
  "reachable False sample_digest local_task_queue (sample_sys sample_taken [(sample_running, sample_parent)]) \<and>
   verify_audit_chain sample_digest sample_taken ''acme''"
  using control_plane_invariant [OF sample_overtaken [of False]] sample_overtaken [of False] by (simp add: sample_sys_def)



text \<open>
  A settled task is final: in every run in which workers commit while they hold their lease, no
  step of any client, worker or consumer changes a task that has succeeded or failed.
\<close>

theorem settled_tasks_final:
  assumes "reachable True sha256 Q s" and "step True sha256 Q s s'"
    and "t \<in> set (tasks (db s))" and "rt_status t \<in> {T_SUCCEEDED, T_FAILED}"
  shows "t \<in> set (tasks (db s'))"
  using step_keeps_settled [OF assms(2) reachable_sys_ok [OF assms(1)] assms(3)] assms(4) by (simp add: settled_def)

theorem settled_tasks_final_witness:
  "\<exists>d' t. reachable True sample_digest local_task_queue (sample_sys d' []) \<and> t \<in> set (tasks d') \<and> rt_status t = T_FAILED \<and>
     t \<in> set (tasks (snd (claim_tasks SQLite (\<lambda>_. False) (sample_env 90000000) ''w2'' None None None d')))"
proof -
  let ?env = "(sample_env 7)\<lparr>e_settings := default_settings\<lparr>max_task_attempts := 1\<rparr>\<rparr>"
  let ?s = "sample_sys sample_claimed [(sample_running, sample_parent)]"
  have env: "e_sha256 ?env = sample_digest" "e_uuid ?env = sample_uuid" by (simp_all add: sample_env_def)
  have core: "core_ok sample_digest sample_claimed" using sample_claimed_ok by (simp add: cloud_ok_def)
  have shape: "audit sample_claimed = audit sample_cloud" "fresh sample_claimed = 7"
    by (simp_all add: sample_claimed_def sample_shape)
  obtain d' where fin: "finish_task ?env (Some sample_down) sample_running sample_parent sample_claimed () = (Inr False, d', ())"
    using sample_finish [OF env core shape sample_claimed_requests sample_claimed_tasks sample_ids(2,1)] by blast
  have late: "late_ok ?env sample_claimed" using sample_late_ok by (simp add: late_ok_def sample_env_def)
  have held: "still_leased sample_claimed sample_running"
    by (simp add: still_leased_def sample_claimed_tasks sample_ids)
  have r: "reachable True sample_digest local_task_queue (sample_sys d' [])"
    using step.finish [of sample_running sample_parent ?s True ?env sample_digest "Some sample_down" "Inr False" d' "()"
        local_task_queue] late held fin env
    by (intro reachable.more [OF sample_loaded]) (simp add: sample_sys_def)
  let ?o = "fst (run_source ?env (Some sample_down) sample_running sample_parent sample_claimed)"
  let ?t = "settle_task ?env (Some sample_down) sample_running ?o sample_running"
  have snap: "snapshot_ok sample_claimed sample_running"
    using live_snapshot [OF core, of sample_running] by (simp add: sample_claimed_tasks sample_ids)
  have "?t \<in> set (tasks d')"
    using finish_tasks [OF core [folded env(1)] snap late fin] by (auto simp: in_upd_where sample_claimed_tasks)
  moreover have f: "rt_status ?t = T_FAILED"
    by (simp add: settle_task_def run_source_def sample_down_def Let_def failed_status_def sample_running_def sample_task_def)
  moreover have "step True sample_digest local_task_queue (sample_sys d' [])
      ((sample_sys d' [])\<lparr>db := snd (claim_tasks SQLite (\<lambda>_. False) (sample_env 90000000) ''w2'' None None None d')\<rparr>)"
    using step.claim [of True sample_digest local_task_queue "sample_sys d' []"] by (simp add: sample_sys_def)
  ultimately have "?t \<in> set (tasks (snd (claim_tasks SQLite (\<lambda>_. False) (sample_env 90000000) ''w2'' None None None d')))"
    using settled_tasks_final [OF r, of _ ?t] by (fastforce simp: sample_sys_def)
  with r f \<open>?t \<in> set (tasks d')\<close> show ?thesis by blast
qed

text \<open>
  C13. The code has no such fence: a worker commits the task it loaded by its primary key, whatever
  the row holds by then. The row of that task, settled by another worker or leased to it, loses its
  lease and takes the status of the late outcome.
\<close>

theorem stale_commit_overwrites:
  assumes "reachable False sha256 Q s" and "(task, request) \<in> set (loaded s)"
    and "e_sha256 env = sha256" and "late_ok env (db s)"
    and "finish_task env ex task request (db s) (store s) = (Inr ok, d', st')"
    and "t \<in> set (tasks (db s))" and "rt_id t = rt_id task"
  shows "step False sha256 Q s (s\<lparr>db := d', store := st', loaded := remove1 (task, request) (loaded s)\<rparr>) \<and>
    (\<exists>t' \<in> set (tasks d'). rt_id t' = rt_id task \<and> rt_lease_owner t' = None \<and>
       rt_status t' = (case fst (run_source env ex task request (db s)) of
                         Inr _ \<Rightarrow> T_SUCCEEDED | Inl _ \<Rightarrow> failed_status env ex task))"
proof -
  have core: "core_ok (e_sha256 env) (db s)" and lo: "loaded_ok (db s) (task, request)"
    using reachable_sys_ok [OF assms(1)] assms(2,3) by (auto simp: sys_ok_def)
  have "settle_task env ex task (fst (run_source env ex task request (db s))) t \<in> set (tasks d')"
    using finish_tasks [OF core loaded_snapshot [OF core_ok_keys [OF core] lo] assms(4,5)] assms(6,7)
    by (auto simp: in_upd_where)
  then show ?thesis
    using step.finish [OF assms(2) _ assms(3-5), of False Q] assms(7)
    by (intro conjI bexI [of _ "settle_task env ex task (fst (run_source env ex task request (db s))) t"])
       (simp_all add: settle_task_def)
qed

theorem stale_commit_overwrites_witness:
  "\<exists>d'. lease_task ''w2'' 90000000 150000000 sample_running \<in> set (tasks sample_taken) \<and>
     step False sample_digest local_task_queue (sample_sys sample_taken [(sample_running, sample_parent)]) (sample_sys d' []) \<and>
     (\<exists>t' \<in> set (tasks d'). rt_id t' = sample_uuid 1 \<and> rt_lease_owner t' = None \<and> rt_status t' = T_PENDING)"
proof -
  let ?s = "sample_sys sample_taken [(sample_running, sample_parent)]" and ?t = "lease_task ''w2'' 90000000 150000000 sample_running"
  have core: "core_ok sample_digest sample_taken"
    using reachable_sys_ok [OF sample_overtaken [of False]] by (simp add: sys_ok_def sample_sys_def)
  have l: "rt_id ?t = sample_uuid 1" "rt_request_id ?t = sample_uuid 0" by (simp_all add: sample_ids)
  obtain d' where fin: "finish_task (sample_env 91000000) (Some sample_down) sample_running sample_parent (db ?s) (store ?s) =
      (Inr False, d', ())"
    using sample_finish [OF _ _ core sample_taken_shape(3,4,2,1) l, of "sample_env 91000000"]
    by (auto simp: sample_sys_def sample_env_def)
  have "late_ok (sample_env 91000000) (db ?s)"
    using core by (simp add: late_ok_def sample_env_def core_ok_def keys_ok_def sample_sys_def)
  moreover have "?t \<in> set (tasks (db ?s))" by (simp add: sample_sys_def sample_taken_shape)
  moreover have "e_sha256 (sample_env 91000000) = sample_digest" by (simp add: sample_env_def)
  moreover have "(sample_running, sample_parent) \<in> set (loaded ?s)" by (simp add: sample_sys_def)
  ultimately have res: "step False sample_digest local_task_queue ?s (?s\<lparr>db := d', store := (), loaded := []\<rparr>) \<and>
    (\<exists>t' \<in> set (tasks d'). rt_id t' = rt_id sample_running \<and> rt_lease_owner t' = None \<and>
       rt_status t' = failed_status (sample_env 91000000) (Some sample_down) sample_running)"
    using stale_commit_overwrites [OF sample_overtaken [of False] _ _ _ fin, of ?t] l(1) sample_ids(2)
    by (simp add: run_source_def sample_down_def Let_def) (simp add: sample_sys_def)
  have "failed_status (sample_env 91000000) (Some sample_down) sample_running = T_PENDING"
    by (simp add: failed_status_def sample_running_def sample_task_def sample_env_def default_settings_def)
  with res show ?thesis
    by (intro exI [of _ d']) (simp add: sample_sys_def sample_taken_shape sample_ids)
qed

end
