(* ===== verification/Lifecycle.thy ===== *)
theory Lifecycle
  imports System_Props
begin

text \<open>
  The abstract specification of the control plane: a finite map from tasks to their status and
  attempts, on which tasks are created pending, leased, settled or given back. The abstraction
  forgets requests, records, outbox, audit, queue and time; every step of the system in which
  workers commit under their lease is a step of the specification.
\<close>

section \<open>The specification\<close>

type_synonym task_state = "task_status \<times> int"

inductive task_move :: "task_state \<Rightarrow> task_state \<Rightarrow> bool" where
  lease: "s = T_PENDING \<or> s = T_RUNNING \<Longrightarrow> task_move (s, n) (T_RUNNING, n + 1)"
| succeed: "task_move (T_RUNNING, n) (T_SUCCEEDED, n)"
| fail: "task_move (T_RUNNING, n) (T_FAILED, n)"
| retry: "task_move (T_RUNNING, n) (T_PENDING, n)"

inductive_cases task_move_from: "task_move (s, n) x"

type_synonym board = "string \<rightharpoonup> task_state"

inductive board_step :: "board \<Rightarrow> board \<Rightarrow> bool" where
  create: "finite I \<Longrightarrow> I \<inter> dom A = {} \<Longrightarrow> board_step A (\<lambda>i. if i \<in> I then Some (T_PENDING, 0) else A i)"
| move: "dom A' = dom A \<Longrightarrow> (\<And>i x y. A i = Some x \<Longrightarrow> A' i = Some y \<Longrightarrow> y = x \<or> task_move x y) \<Longrightarrow> board_step A A'"

lemma board_same: "board_step A A"
  by (rule board_step.move) auto

text \<open>On the board no task disappears, settled tasks are final and attempts never go down.\<close>

lemma task_move_mono:
  assumes "task_move (s, n) (s', n')"
  shows "s \<notin> {T_SUCCEEDED, T_FAILED}" and "n \<le> n'" and "n' \<le> n + 1"
  using assms by (auto elim: task_move_from)

lemma board_final:
  assumes "board_step A A'" and "A i = Some (s, n)" and "s \<in> {T_SUCCEEDED, T_FAILED}"
  shows "A' i = Some (s, n)"
  using assms(1)
proof cases
  case (create I)
  then show ?thesis using assms(2) by (auto simp: disjoint_iff domIff)
next
  case move
  from move(1) assms(2) obtain y where y: "A' i = Some y" by (metis domD domI)
  obtain s' n' where "y = (s', n')" by (cases y)
  with move(2) [OF assms(2) y] y assms(3) task_move_mono(1) [of s n s' n'] show ?thesis by auto
qed

section \<open>The abstraction\<close>

definition task_state_of :: "request_task \<Rightarrow> task_state" where
  "task_state_of t = (rt_status t, rt_attempt t)"

definition board_of :: "cloud \<Rightarrow> board" where
  "board_of d = map_of (map (\<lambda>t. (rt_id t, task_state_of t)) (tasks d))"

lemma board_of_Some:
  assumes "keys_ok d"
  shows "board_of d i = Some x \<longleftrightarrow> (\<exists>t \<in> set (tasks d). rt_id t = i \<and> task_state_of t = x)"
proof -
  have "distinct (map fst (map (\<lambda>t. (rt_id t, task_state_of t)) (tasks d)))"
    using assms by (simp add: keys_ok_def o_def)
  from map_of_eq_Some_iff [OF this, of i x] show ?thesis by (auto simp: board_of_def)
qed

lemma dom_board_of: "dom (board_of d) = rt_id ` set (tasks d)"
  by (simp add: board_of_def dom_map_of_conv_image_fst image_image)

lemma board_of_same: "tasks d' = tasks d \<Longrightarrow> board_step (board_of d) (board_of d')"
  by (simp add: board_of_def board_same)

lemma board_of_upd:
  assumes "keys_ok d" and "tasks d' = upd_where P f (tasks d)"
    and "\<And>t. t \<in> set (tasks d) \<Longrightarrow> P t \<Longrightarrow> rt_id (f t) = rt_id t \<and>
      (task_state_of (f t) = task_state_of t \<or> task_move (task_state_of t) (task_state_of (f t)))"
  shows "board_step (board_of d) (board_of d')"
proof (rule board_step.move)
  have ids: "map rt_id (tasks d') = map rt_id (tasks d)" using assms(2,3) by (auto simp: upd_where_def)
  then show "dom (board_of d') = dom (board_of d)" unfolding dom_board_of by (metis list.set_map)
  fix i x y assume x: "board_of d i = Some x" and y: "board_of d' i = Some y"
  from x obtain t where t: "t \<in> set (tasks d)" "rt_id t = i" "task_state_of t = x"
    using board_of_Some [OF assms(1)] by blast
  let ?t = "if P t then f t else t"
  have "?t \<in> set (tasks d')" "rt_id ?t = i" using t assms(2,3) by (auto simp: upd_where_def)
  moreover have "distinct (map rt_id (tasks d'))" using assms(1) ids by (simp add: keys_ok_def)
  ultimately have "board_of d' i = Some (task_state_of ?t)"
    unfolding board_of_def by (intro map_of_is_SomeI) (auto simp: o_def image_iff)
  then have "y = task_state_of ?t" using y by simp
  then show "y = x \<or> task_move x y" using assms(3) [OF t(1)] t(3) by auto
qed

section \<open>The steps\<close>

lemma lease_move:
  "claimable now t \<Longrightarrow> task_move (task_state_of t) (task_state_of (lease_task w now until t))"
  by (auto simp: claimable_def task_state_of_def lease_task_def intro: task_move.lease)

lemma settle_move:
  "rt_status t = T_RUNNING \<Longrightarrow> task_move (task_state_of t) (task_state_of (settle_task env ex task outcome t))"
  by (auto simp: task_state_of_def settle_task_def failed_status_def intro: task_move.intros split: sum.splits)

lemma create_board:
  assumes "keys_ok d0" and "keys_ok d"
    and "create_privacy_request_racing sha256 uuid now tn key c d0 d = (res, d')"
  shows "board_step (board_of d) (board_of d')"
proof (rule create_cases [OF assms], goal_cases existing refused created)
  case (created d1)
  from create_rows_spec [OF created(1)] obtain ts where ts: "tasks d1 = tasks d @ ts"
    "list_all (initial_task now tn (uuid (fresh d))) ts" "keys_ok d1" using assms(2) by auto
  let ?I = "rt_id ` set ts"
  have new: "task_state_of t = (T_PENDING, 0)" if "t \<in> set ts" for t
    using ts(2) that by (auto simp: list_all_iff initial_task_def task_state_of_def)
  have "board_of d' i = (if i \<in> ?I then Some (T_PENDING, 0) else board_of d i)" for i
  proof (cases "i \<in> ?I")
    case True
    then obtain t where t: "t \<in> set ts" "rt_id t = i" by auto
    then have "board_of d1 i = Some (T_PENDING, 0)" using ts(1,3) new board_of_Some [of d1] by fastforce
    with True created(2) show ?thesis by (simp add: board_of_def)
  next
    case False
    then have "map_of (map (\<lambda>t. (rt_id t, task_state_of t)) ts) i = None" by (auto simp: map_of_eq_None_iff)
    with False created(2) show ?thesis
      by (simp add: board_of_def ts(1) map_add_def split: option.splits)
  qed
  then have eq: "board_of d' = (\<lambda>i. if i \<in> ?I then Some (T_PENDING, 0) else board_of d i)" by (rule ext)
  have "?I \<inter> dom (board_of d) = {}" using ts(1,3) by (auto simp: dom_board_of keys_ok_def)
  then show ?case unfolding eq by (intro board_step.create) simp_all
qed (simp_all add: board_same)

lemma claim_board:
  assumes "keys_ok d"
  shows "board_step (board_of d) (board_of (snd (claim_tasks dialect locked env w tn batch secs d)))"
proof (rule board_of_upd [OF assms claim_tasks_tasks])
  fix t assume "t \<in> set (tasks d)" "rt_id t \<in> set (claim_ids dialect locked env tn batch d)"
  then have "claimable (e_now env) t" by (rule claim_ids_claimable(1) [OF assms])
  from lease_move [OF this, of w] show "rt_id (lease_task w (e_now env) (lease_until (e_now env)
      (or_default_int secs (lease_seconds (e_settings env)))) t) = rt_id t \<and>
    (task_state_of (lease_task w (e_now env) (lease_until (e_now env) (or_default_int secs (lease_seconds (e_settings env)))) t) =
       task_state_of t \<or>
     task_move (task_state_of t)
       (task_state_of (lease_task w (e_now env) (lease_until (e_now env) (or_default_int secs (lease_seconds (e_settings env)))) t)))"
    by simp
qed

lemma claim_message_board:
  assumes "keys_ok d" and "claim_message_task_racing env i w secs d0 d = (res, d')"
  shows "board_step (board_of d) (board_of d')"
  using assms
proof (cases rule: claim_message_cases)
  case (claimed t)
  then have "tasks d' = upd_where (\<lambda>s. rt_id s = i)
      (lease_task w (e_now env) (lease_until (e_now env) secs)) (tasks d)"
    by (simp add: start_requests_def)
  then show ?thesis
  proof (rule board_of_upd [OF assms(1)])
    fix s assume "s \<in> set (tasks d)" "rt_id s = i"
    then have "s = t" using assms(1) claimed(2,3) key_inj [of rt_id "tasks d" s t] by (simp add: keys_ok_def)
    then show "rt_id (lease_task w (e_now env) (lease_until (e_now env) secs) s) = rt_id s \<and>
      (task_state_of (lease_task w (e_now env) (lease_until (e_now env) secs) s) = task_state_of s \<or>
       task_move (task_state_of s) (task_state_of (lease_task w (e_now env) (lease_until (e_now env) secs) s)))"
      using lease_move [OF claimed(4)] by simp
  qed
qed (simp add: board_same)

lemma finish_board:
  assumes "sys_ok fenced sha256 s" and "(task, request) \<in> set (loaded s)" and "still_leased (db s) task"
    and "e_sha256 env = sha256" and "late_ok env (db s)"
    and "finish_task env ex task request (db s) (store s) = (res, d', st')"
  shows "board_step (board_of (db s)) (board_of d')"
proof -
  have core: "core_ok (e_sha256 env) (db s)" and lo: "loaded_ok (db s) (task, request)"
    using assms(1,2,4) by (auto simp: sys_ok_def)
  note k = core_ok_keys [OF core]
  obtain u where u: "u \<in> set (tasks (db s))" "rt_id u = rt_id task" "rt_status u = T_RUNNING"
    by (rule leased_row [OF k lo assms(3)])
  let ?f = "settle_task env ex task (fst (run_source env ex task request (db s)))"
  from finish_tasks [OF core loaded_snapshot [OF k lo] assms(5,6)] show ?thesis
  proof (elim disjE conjE)
    assume "tasks d' = upd_where (\<lambda>t. rt_id t = rt_id task) ?f (tasks (db s))"
    then show ?thesis
    proof (rule board_of_upd [OF k])
      fix t assume "t \<in> set (tasks (db s))" "rt_id t = rt_id task"
      then have "t = u" using k u(1,2) key_inj [of rt_id "tasks (db s)" t u] by (simp add: keys_ok_def)
      then show "rt_id (?f t) = rt_id t \<and> (task_state_of (?f t) = task_state_of t \<or> task_move (task_state_of t) (task_state_of (?f t)))"
        using settle_move [OF u(3), of env ex task "fst (run_source env ex task request (db s))"] by simp
    qed
  qed (rule board_of_same)
qed

section \<open>Refinement\<close>

lemma step_board:
  assumes "step True sha256 Q s s'" and "sys_ok True sha256 s"
  shows "board_step (board_of (db s)) (board_of (db s'))"
proof -
  have k: "keys_ok (db s)" using assms(2) by (auto simp: sys_ok_def core_ok_def)
  show ?thesis
    using assms(1)
  proof cases
    case (intake d0 uuid now tn key c res d')
    then show ?thesis using create_board [OF intake(2) k intake(3)] by simp
  next
    case (claim dialect locked env w tn batch secs)
    then show ?thesis using claim_board [OF k] by simp
  next
    case (claim_message env i w secs d0 res d')
    then show ?thesis using claim_message_board [OF k claim_message(2)] by simp
  next
    case (finish task request env ex res d' st')
    then show ?thesis using finish_board [OF assms(2) finish(2) _ finish(4-6)] by simp
  next
    case (refresh env i res d' st')
    then show ?thesis using refresh_frame [OF k refresh(3)] by (simp add: board_of_same)
  next
    case (extend env i w secs)
    then show ?thesis
      by (simp, intro board_of_upd [OF k, where P = "\<lambda>t. rt_id t = i \<and> rt_status t = T_RUNNING \<and> rt_lease_owner t = Some w"
            and f = "\<lambda>t. t\<lparr>rt_lease_expires_at := Some (lease_until (e_now env) secs), rt_updated_at := e_now env\<rparr>"])
         (simp_all add: extend_task_lease_def Let_def task_state_of_def)
  next
    case (relay dialect locked clock n r d' q')
    then show ?thesis using relay_state [OF relay(2)] mark_published_frame(1) by (auto intro: board_of_same)
  next
    case (seeding uuid now tn sc nr d')
    then show ?thesis using seed_tasks [OF seeding(2)] by (simp add: board_of_same)
  next
    case (clearing tn)
    then show ?thesis by (simp add: board_of_same clear_seed_records_def)
  qed (simp_all add: board_same)
qed

section \<open>Properties\<close>

text \<open>
  C2. The control plane refines its specification: in every run in which workers commit while they
  hold their lease, every step, seen through the abstraction to the status and the attempts of each
  task, is a step of the board: new tasks appear pending with no attempt, no task disappears, a
  pending or running task is leased with one attempt more, and only a running one succeeds, fails or
  goes back to pending with its attempts kept.
\<close>

theorem control_plane_refines_board:
  assumes "reachable True sha256 Q s" and "step True sha256 Q s s'"
  shows "board_step (board_of (db s)) (board_of (db s'))"
  by (rule step_board [OF assms(2) reachable_sys_ok [OF assms(1)]])

theorem control_plane_refines_board_witness:
  "board_step (board_of sample_cloud) (board_of sample_claimed) \<and>
   board_of sample_cloud (sample_uuid 1) = Some (T_PENDING, 0) \<and> board_of sample_claimed (sample_uuid 1) = Some (T_RUNNING, 1)"
proof -
  have "step True sample_digest local_task_queue (sample_sys sample_cloud []) (sample_sys sample_claimed [])"
    using step.claim [of True sample_digest local_task_queue "sample_sys sample_cloud []" SQLite "\<lambda>_. False"
      "sample_env 5" "''w1''" None "Some 1" None] by (simp add: sample_sys_def sample_claimed_def)
  from control_plane_refines_board [OF sample_created this]
  have "board_step (board_of sample_cloud) (board_of sample_claimed)" by (simp add: sample_sys_def)
  moreover have "board_of sample_cloud (sample_uuid 1) = Some (T_PENDING, 0)" "board_of sample_claimed (sample_uuid 1) = Some (T_RUNNING, 1)"
    by (simp_all add: board_of_def sample_shape sample_claimed_tasks)
       (simp_all add: sample_task_def sample_running_def task_state_of_def lease_task_def)
  ultimately show ?thesis by blast
qed

end
