(* ===== verification/Progress.thy ===== *)
theory Progress
  imports System_Props
begin

text \<open>
  Progress of a worker pass over the database source: every claimed task is settled in the pass, so
  the number of open tasks goes down by the number of claimed ones, and nothing that could be
  claimed is left out but for the batch size.
\<close>

section \<open>Counting open tasks\<close>

definition open_tasks :: "cloud \<Rightarrow> nat" where
  "open_tasks d = length (filter (\<lambda>t. \<not> settled t) (tasks d))"

lemma filter_upd_one:
  assumes "distinct (map k xs)" and "x \<in> set xs" and "P x" and "\<not> P (f x)"
  shows "length (filter P (upd_where (\<lambda>y. k y = k x) f xs)) + 1 = length (filter P xs)"
  using assms
proof (induction xs)
  case (Cons y ys)
  show ?case
  proof (cases "y = x")
    case True
    then have "upd_where (\<lambda>z. k z = k x) f ys = ys" using Cons.prems(1) by (intro upd_where_none) (auto simp: image_iff)
    then show ?thesis using True Cons.prems(3,4) by simp
  next
    case False
    then have "x \<in> set ys" and "k y \<noteq> k x" using Cons.prems(1,2) by (auto simp: image_iff)
    then show ?thesis using Cons by simp
  qed
qed simp

lemma length_filter_upd_where:
  assumes "\<And>x. x \<in> set xs \<Longrightarrow> P x \<Longrightarrow> Q (f x) = Q x"
  shows "length (filter Q (upd_where P f xs)) = length (filter Q xs)"
  using assms by (induction xs) auto

lemma claim_open:
  assumes "keys_ok d"
  shows "open_tasks (snd (claim_tasks dialect locked env w tn batch secs d)) = open_tasks d"
  unfolding open_tasks_def claim_tasks_tasks
proof (rule length_filter_upd_where)
  fix t assume "t \<in> set (tasks d)" "rt_id t \<in> set (claim_ids dialect locked env tn batch d)"
  then have "\<not> settled t" using claim_ids_claimable(1) [OF assms] settled_not_claimable by blast
  then show "(\<not> settled (lease_task w (e_now env) (lease_until (e_now env)
      (or_default_int secs (lease_seconds (e_settings env)))) t)) = (\<not> settled t)"
    by (simp add: settled_def lease_task_def)
qed

section \<open>A leased task is settled by its execution\<close>

definition leased_to :: "string \<Rightarrow> cloud \<Rightarrow> string \<Rightarrow> bool" where
  "leased_to w d i \<longleftrightarrow> (\<exists>t \<in> set (tasks d). rt_id t = i \<and> rt_status t = T_RUNNING \<and> rt_lease_owner t = Some w)"

lemma claim_distinct:
  assumes "keys_ok d"
  shows "distinct (fst (claim_tasks dialect locked env w tn batch secs d))"
proof -
  have "card (set (fst (claim_tasks dialect locked env w tn batch secs d))) =
      card (set (claim_ids dialect locked env tn batch d))" by (simp add: claim_tasks_fst)
  also have "\<dots> = length (claim_ids dialect locked env tn batch d)"
    using assms by (intro distinct_card) (simp add: claim_ids_def distinct_claim_candidates keys_ok_def)
  finally show ?thesis by (metis card_distinct claim_length [OF assms])
qed

lemma claim_leased:
  assumes "i \<in> set (fst (claim_tasks dialect locked env w tn batch secs d))"
  shows "leased_to w (snd (claim_tasks dialect locked env w tn batch secs d)) i"
proof -
  have i: "i \<in> set (claim_ids dialect locked env tn batch d)" using assms by (simp add: claim_tasks_fst)
  then obtain t where t: "t \<in> set (tasks d)" "rt_id t = i" by (rule claim_ids_sound)
  let ?f = "lease_task w (e_now env) (lease_until (e_now env) (or_default_int secs (lease_seconds (e_settings env))))"
  have "?f t \<in> set (tasks (snd (claim_tasks dialect locked env w tn batch secs d)))"
    using t i by (auto simp: in_upd_where)
  then show ?thesis unfolding leased_to_def by (rule bexI [rotated]) (simp add: lease_task_def t(2))
qed

lemma load_leased:
  assumes "keys_ok d" and "t \<in> set (tasks d)" and "rt_status t = T_RUNNING" and "rt_lease_owner t = Some w"
  shows "load_task d (rt_id t) w = Inr (Some t)"
proof -
  have "filter (\<lambda>s. rt_id s = rt_id t \<and> rt_status s = T_RUNNING \<and> rt_lease_owner s = Some w) (tasks d) =
      filter (\<lambda>s. rt_status s = T_RUNNING \<and> rt_lease_owner s = Some w) (filter (\<lambda>s. rt_id s = rt_id t) (tasks d))"
    by (simp add: conj_ac)
  also have "\<dots> = [t]" using assms by (simp add: keys_ok_def filter_key_singleton del: filter_filter)
  finally show ?thesis by (simp add: load_task_def)
qed

lemma execute_leased_finish:
  assumes "core_ok sha256 d" and "leased_to w d i" and "execute_task env None i w d st = (res, d', st')"
  obtains t request where "t \<in> set (tasks d)" "rt_id t = i" "rt_status t = T_RUNNING"
    "request \<in> set (requests d)" "pr_id request = rt_request_id t" "finish_task env None t request d st = (res, d', st')"
proof -
  from assms(2) obtain t where t: "t \<in> set (tasks d)" "rt_id t = i" "rt_status t = T_RUNNING" "rt_lease_owner t = Some w"
    by (auto simp: leased_to_def)
  have k: "keys_ok d" by (rule core_ok_keys [OF assms(1)])
  from assms(1) t(1) obtain r where r: "r \<in> set (requests d)" "pr_id r = rt_request_id t"
    unfolding core_ok_def parents_ok_def by blast
  then have "find (\<lambda>q. pr_id q = rt_request_id t) (requests d) = Some r"
    using find_key_Some [of pr_id "requests d" r] k by (simp add: keys_ok_def)
  with load_leased [OF k t(1,3,4)] t(2) assms(3) have "finish_task env None t r d st = (res, d', st')"
    by (simp add: execute_task_def)
  with that t r show ?thesis by blast
qed

lemma execute_leased_rows:
  assumes "core_ok (e_sha256 env) d" and "late_ok env d" and "leased_to w d i"
    and "execute_task env None i w d st = (Inr ok, d', st')"
  obtains t f where "t \<in> set (tasks d)" "rt_id t = i" "\<not> settled t" "\<And>s. settled (f s)"
    "\<And>s. task_frame (f s) = task_frame s" "tasks d' = upd_where (\<lambda>s. rt_id s = rt_id t) f (tasks d)"
proof -
  from execute_leased_finish [OF assms(1,3,4)] obtain t request where t: "t \<in> set (tasks d)" "rt_id t = i" "rt_status t = T_RUNNING"
    and fin: "finish_task env None t request d st = (Inr ok, d', st')" by metis
  let ?f = "settle_task env None t (fst (run_source env None t request d))"
  have "tasks d' = upd_where (\<lambda>s. rt_id s = rt_id t) ?f (tasks d)"
    using finish_tasks [OF assms(1) live_snapshot [OF assms(1) t(1,3)] assms(2) fin] by simp
  moreover have "settled (?f s)" for s by (auto simp: settled_def settle_task_def failed_status_def split: sum.splits)
  moreover have "\<not> settled t" using t(3) by (simp add: settled_def)
  ultimately show ?thesis using that [of t ?f] t(1,2) by simp
qed

lemma execute_leased:
  assumes "core_ok (e_sha256 env) d" and "late_ok env d" and "leased_to w d i"
    and "execute_task env None i w d st = (Inr ok, d', st')"
  shows "open_tasks d' + 1 = open_tasks d" and "leased_to w d j \<Longrightarrow> j \<noteq> i \<Longrightarrow> leased_to w d' j"
    and "t \<in> set (tasks d') \<Longrightarrow> \<not> settled t \<Longrightarrow> t \<in> set (tasks d) \<and> rt_id t \<noteq> i"
proof -
  from execute_leased_rows [OF assms] obtain r f where r: "r \<in> set (tasks d)" "rt_id r = i" "\<not> settled r"
    and f: "\<And>s. settled (f s)" and ts: "tasks d' = upd_where (\<lambda>s. rt_id s = rt_id r) f (tasks d)" by metis
  show "open_tasks d' + 1 = open_tasks d"
    using filter_upd_one [of rt_id "tasks d" r "\<lambda>s. \<not> settled s" f] core_ok_keys [OF assms(1)] r f
    by (simp add: open_tasks_def ts keys_ok_def)
  show "t \<in> set (tasks d') \<Longrightarrow> \<not> settled t \<Longrightarrow> t \<in> set (tasks d) \<and> rt_id t \<noteq> i"
    unfolding ts using f r(2) by (auto elim: upd_where_elim)
  show "leased_to w d' j" if j: "leased_to w d j" "j \<noteq> i"
  proof -
    from j(1) obtain s where "s \<in> set (tasks d)" "rt_id s = j" "rt_status s = T_RUNNING" "rt_lease_owner s = Some w"
      by (auto simp: leased_to_def)
    with j(2) r(2) show ?thesis unfolding leased_to_def ts by (intro bexI [of _ s] upd_keeps) auto
  qed
qed

lemma execute_all_settles:
  assumes "execute_all envs w ids k n d st = (Inr m, d', st')" and "cloud_ok sha256 d" and "distinct ids"
    and "\<And>i. i \<in> set ids \<Longrightarrow> leased_to w d i"
    and "\<And>k. e_sha256 (envs k) = sha256" and "\<And>k. e_late_records (envs k) = []"
  shows "open_tasks d' + length ids = open_tasks d"
  using assms(1-4)
proof (induction ids arbitrary: k n d st)
  case (Cons i ids)
  obtain r d1 st1 where run: "execute_task (envs k) None i w d st = (r, d1, st1)" by (metis prod_cases3)
  then obtain ok where r: "r = Inr ok" and rest: "execute_all envs w ids (k + 1) (n + (if ok then 1 else 0)) d1 st1 = (Inr m, d', st')"
    using Cons.prems(1) by (auto split: sum.splits)
  have core: "core_ok (e_sha256 (envs k)) d" using Cons.prems(2) by (simp add: cloud_ok_def assms(5))
  then have late: "late_ok (envs k) d" by (simp add: late_ok_def assms(6) core_ok_def keys_ok_def)
  have li: "leased_to w d i" using Cons.prems(4) by simp
  note ex = execute_leased [OF core late li run [unfolded r]]
  have "cloud_ok sha256 d1" using execute_task_ok [OF _ late run] Cons.prems(2) assms(5) by simp
  moreover have "leased_to w d1 j" if "j \<in> set ids" for j
    using ex(2) [of j] Cons.prems(3,4) that by auto
  ultimately have "open_tasks d' + length ids = open_tasks d1" using Cons.IH [OF rest] Cons.prems(3) by simp
  with ex(1) show ?case by simp
qed simp

section \<open>When a pass returns\<close>

text \<open>
  The commit of an outcome raises only when an identifier or a digest clashes or when the artifact
  store fails.
\<close>

definition store_accepts :: "'st env \<Rightarrow> bool" where
  "store_accepts env \<longleftrightarrow> (\<forall>t r doc st. \<exists>ref st'. e_put_json env t r doc st = (Inr ref, st'))"

lemma write_returns:
  assumes "store_accepts env"
  shows "\<exists>uri st'. write_artifact env r ts st = (Inr uri, st')"
proof -
  obtain ref st' where "e_put_json env (pr_tenant_id r) (pr_id r)
     (JObj [(''request_id'', JStr (pr_id r)), (''tenant_id'', JStr (pr_tenant_id r)),
              (''kind'', JStr (kind_value (pr_kind r))), (''policy_version'', JStr (pr_policy_version r)),
              (''sources'', JObj (map (\<lambda>t. (rt_source t, rt_result_summary t)) ts)),
              (''generated_at'', JStr (isoformat (e_now env)))]) st = (Inr ref, st')"
    using assms unfolding store_accepts_def by blast
  then show ?thesis by (simp add: write_artifact_def)
qed

lemma ids_unused_same:
  assumes "ids_unused uuid d" and "fresh d' = fresh d" and "map pr_id (requests d') = map pr_id (requests d)"
    and "map task_frame (tasks d') = map task_frame (tasks d)" and "outbox d' = outbox d" and "audit d' = audit d"
  shows "ids_unused uuid d'"
proof -
  have "map rt_id (tasks d') = map rt_id (tasks d)" "map rt_request_id (tasks d') = map rt_request_id (tasks d)"
    using arg_cong [OF assms(4), of "map fst"] arg_cong [OF assms(4), of "map (fst \<circ> snd)"]
    by (simp_all add: task_frame_def o_def)
  with assms show ?thesis by (simp add: ids_unused_def del: set_map)
qed

lemma append_audit_total_step:
  assumes "core_ok sha256 d" and "ids_unused uuid d" and "\<not> collision sha256"
  shows "\<exists>d'. append_audit sha256 uuid now t r act pl d = Inr d' \<and> ids_unused uuid d'"
proof -
  have "list_all (\<lambda>a. event_envelope_hash sha256 a = au_event_hash a) (audit d)"
    using assms(1) by (intro chains_hashes) (simp add: core_ok_def)
  from hashes_ok_append [OF assms(3,2) this] obtain d' where d': "append_audit sha256 uuid now t r act pl d = Inr d'" by blast
  have "uuid n \<noteq> uuid (fresh d)" if "fresh d < n" for n
    using assms(2) that by (auto simp: ids_unused_def dest: injD)
  then have "ids_unused uuid d'"
    using append_audit_eq [OF d'] assms(2) by (auto simp: ids_unused_def audit_row_def Let_def)
  with d' show ?thesis by blast
qed

lemma refresh_returns:
  assumes "core_ok (e_sha256 env) d" and "ids_unused (e_uuid env) d" and "\<not> collision (e_sha256 env)" and "store_accepts env"
    and "r \<in> set (requests d)"
  shows "\<exists>status d' st'. refresh_request_status env (pr_id r) d st = (Inr status, d', st') \<and> ids_unused (e_uuid env) d'"
proof -
  have k: "keys_ok d" by (rule core_ok_keys [OF assms(1)])
  let ?ts = "request_tasks d (pr_id r)"
  let ?s = "derived_status (set (map rt_status ?ts))"
  have "\<exists>art st'. refresh_artifact env r ?s ?ts st = (Inr art, st')"
    using write_returns [OF assms(4), of r ?ts st] by (auto simp: refresh_artifact_def)
  then obtain art st' where art: "refresh_artifact env r ?s ?ts st = (Inr art, st')" by blast
  let ?d1 = "d\<lparr>requests := upd_where (\<lambda>s. pr_id s = pr_id r) (refreshed env r ?s art) (requests d)\<rparr>"
  have u1: "ids_unused (e_uuid env) ?d1"
    by (rule ids_unused_same [OF assms(2)]) (simp_all add: map_upd_where)
  show ?thesis
  proof (cases "became_terminal ?s (pr_status r)")
    case False
    then have "refresh_request_status env (pr_id r) d st = (Inr ?s, ?d1, st')"
      by (simp add: refresh_request_status_def scalar_one_request [OF k assms(5)] art Let_def del: set_map)
    with u1 show ?thesis by blast
  next
    case True
    from enqueue_outbox_total [OF u1] obtain d2 where
      d2: "enqueue_outbox (e_uuid env) (e_now env) (pr_tenant_id r) (pr_id r) (''privacy_request.'' @ status_value ?s)
        (Some (terminal_summary ?s ?ts)) ?d1 = Inr d2" "ids_unused (e_uuid env) d2" "audit d2 = audit d" by fastforce
    have "list_all (\<lambda>a. event_envelope_hash (e_sha256 env) a = au_event_hash a) (audit d2)"
      using assms(1) d2(3) by (simp add: chains_hashes core_ok_def)
    from hashes_ok_append [OF assms(3) d2(2) this] obtain d3 where
      d3: "append_audit (e_sha256 env) (e_uuid env) (e_now env) (pr_tenant_id r) (pr_id r) (''request.'' @ status_value ?s)
        (Some (terminal_summary ?s ?ts)) d2 = Inr d3" by blast
    have "e_uuid env n \<noteq> e_uuid env (fresh d2)" if "fresh d2 < n" for n
      using d2(2) that by (auto simp: ids_unused_def dest: injD)
    then have "ids_unused (e_uuid env) (d3\<lparr>m_request_completed := x\<rparr>)" for x
      using append_audit_eq [OF d3] d2(2) by (auto simp: ids_unused_def audit_row_def Let_def)
    moreover have ann: "announce_terminal env r ?s ?ts ?d1 =
        Inr (d3\<lparr>m_request_completed := m_request_completed d3 @ [(pr_kind r, ?s)]\<rparr>)"
      by (simp only: announce_terminal_def d2(1) d3 sum.case)
    have "refresh_request_status env (pr_id r) d st =
        (Inr ?s, d3\<lparr>m_request_completed := m_request_completed d3 @ [(pr_kind r, ?s)]\<rparr>, st')"
      using True ann by (simp add: refresh_request_status_def scalar_one_request [OF k assms(5)] art Let_def del: set_map)
    ultimately show ?thesis by blast
  qed
qed

lemma run_source_fresh:
  "run_source env ex task request d = (outcome, d1) \<Longrightarrow> fresh d1 = fresh d"
  by (auto simp: run_source_def Let_def split: option.splits sum.splits if_splits
      dest!: arg_cong [where f = snd] simp: execute_delete_state)

lemma finish_returns:
  assumes "core_ok (e_sha256 env) d" and "ids_unused (e_uuid env) d" and "\<not> collision (e_sha256 env)" and "store_accepts env"
    and "late_ok env d" and "task \<in> set (tasks d)" and "rt_status task = T_RUNNING"
    and "request \<in> set (requests d)" and "pr_id request = rt_request_id task"
  shows "\<exists>ok d' st'. finish_task env ex task request d st = (Inr ok, d', st') \<and> ids_unused (e_uuid env) d'"
proof -
  obtain outcome d1 where run: "run_source env ex task request d = (outcome, d1)" by (metis prod.collapse)
  let ?s = "settle_task env ex task outcome task"
  define d2 where "d2 = d1\<lparr>tasks := upd_where (\<lambda>t. rt_id t = rt_id task) (settle_task env ex task outcome) (tasks d1),
      m_task_duration := m_task_duration d @ [(rt_source task, pr_kind request)]\<rparr>"
  have core2: "core_ok (e_sha256 env) d2"
    by (rule committed_core [OF assms(1) live_snapshot [OF assms(1,6,7)] assms(5) run d2_def])
  have frame: "map request_frame (requests d2) = map request_frame (requests d)"
    using run_source_frame(4) [OF run] by (simp add: d2_def)
  have ids: "map pr_id (requests d2) = map pr_id (requests d)"
    using arg_cong [OF frame, of "map fst"] by (simp add: request_frame_def o_def)
  have u2: "ids_unused (e_uuid env) d2"
    by (rule ids_unused_same [OF assms(2) _ ids])
       (use run_source_frame [OF run] run_source_fresh [OF run] in \<open>simp_all add: d2_def map_upd_where task_frame_def settle_task_def\<close>)
  obtain d3 where d3: "append_audit (e_sha256 env) (e_uuid env) (e_now env) (rt_tenant_id task) (rt_request_id task)
      (task_action (rt_status ?s)) (Some (audit_payload task ?s)) d2 = Inr d3" "ids_unused (e_uuid env) d3"
    using append_audit_total_step [OF core2 u2 assms(3)] by blast
  have core3: "core_ok (e_sha256 env) d3" by (rule append_audit_core [OF d3(1) core2])
  have "requests d3 = requests d2" using append_audit_eq [OF d3(1)] by simp
  then have "pr_id request \<in> set (map pr_id (requests d3))" using ids assms(8) by simp
  then obtain r where r: "r \<in> set (requests d3)" "pr_id r = rt_request_id task" using assms(9) by auto
  from refresh_returns [OF core3 d3(2) assms(3,4) r(1), of st] obtain status d' st' where
    ref: "refresh_request_status env (rt_request_id task) d3 st = (Inr status, d', st')" "ids_unused (e_uuid env) d'"
    using r(2) by auto
  have "finish_task env ex task request d st = (Inr (rt_status ?s = T_SUCCEEDED), d', st')"
    using run d3(1) ref(1) by (simp add: finish_task_def Let_def d2_def)
  with ref(2) show ?thesis by blast
qed

lemma execute_returns:
  assumes "core_ok (e_sha256 env) d" and "ids_unused (e_uuid env) d" and "\<not> collision (e_sha256 env)" and "store_accepts env"
    and "late_ok env d" and "leased_to w d i"
  shows "\<exists>ok d' st'. execute_task env ex i w d st = (Inr ok, d', st') \<and> ids_unused (e_uuid env) d'"
proof -
  from assms(6) obtain t where t: "t \<in> set (tasks d)" "rt_id t = i" "rt_status t = T_RUNNING" "rt_lease_owner t = Some w"
    by (auto simp: leased_to_def)
  have k: "keys_ok d" by (rule core_ok_keys [OF assms(1)])
  from assms(1) t(1) obtain r where r: "r \<in> set (requests d)" "pr_id r = rt_request_id t"
    unfolding core_ok_def parents_ok_def by blast
  then have "find (\<lambda>q. pr_id q = rt_request_id t) (requests d) = Some r"
    using find_key_Some [of pr_id "requests d" r] k by (simp add: keys_ok_def)
  with load_leased [OF k t(1,3,4)] t(2) have "execute_task env ex i w d st = finish_task env ex t r d st"
    by (simp add: execute_task_def)
  with finish_returns [OF assms(1-5) t(1,3) r, of ex st] show ?thesis by simp
qed

lemma execute_all_returns:
  assumes "cloud_ok sha256 d" and "ids_unused uuid d" and "\<not> collision sha256" and "distinct ids"
    and "\<And>i. i \<in> set ids \<Longrightarrow> leased_to w d i" and "\<And>k. store_accepts (envs k)"
    and "\<And>k. e_sha256 (envs k) = sha256" and "\<And>k. e_uuid (envs k) = uuid" and "\<And>k. e_late_records (envs k) = []"
  shows "\<exists>m d' st'. execute_all envs w ids k n d st = (Inr m, d', st') \<and> ids_unused uuid d'"
  using assms(1,2,4,5)
proof (induction ids arbitrary: k n d st)
  case (Cons i ids)
  have core: "core_ok (e_sha256 (envs k)) d" using Cons.prems(1) by (simp add: cloud_ok_def assms(7))
  then have late: "late_ok (envs k) d" by (simp add: late_ok_def assms(9) core_ok_def keys_ok_def)
  have li: "leased_to w d i" using Cons.prems(4) by simp
  obtain ok d1 st1 where run: "execute_task (envs k) None i w d st = (Inr ok, d1, st1)" and u1: "ids_unused uuid d1"
    using execute_returns [OF core _ _ assms(6) late li, of None st] Cons.prems(2) assms(3,7,8) by auto
  have "cloud_ok sha256 d1" using execute_task_ok [OF _ late run] Cons.prems(1) assms(7) by simp
  moreover have "leased_to w d1 j" if "j \<in> set ids" for j
    using execute_leased(2) [OF core late li run, of j] Cons.prems(3,4) that by auto
  ultimately show ?case using Cons.IH [OF _ u1] Cons.prems(3) run by simp
qed simp

lemma claim_unused:
  "ids_unused uuid d \<Longrightarrow> ids_unused uuid (snd (claim_tasks dialect locked env w tn batch secs d))"
  by (erule ids_unused_same) (simp_all add: claim_tasks_requests map_upd_where task_frame_def)

text \<open>The two halves of a pass, with what is known between them.\<close>

lemma pass_returns:
  assumes "cloud_ok sha256 d" and "ids_unused uuid d" and "\<not> collision sha256" and "\<And>k. store_accepts (envs k)"
    and "\<And>k. e_sha256 (envs k) = sha256" and "\<And>k. e_uuid (envs k) = uuid" and "\<And>k. e_late_records (envs k) = []"
  obtains ids d1 m d' st' where "claim_tasks dialect locked (envs 0) w tn batch None d = (ids, d1)"
    "execute_all envs w ids 1 0 d1 st = (Inr m, d', st')" "cloud_ok sha256 d1" "distinct ids"
    "\<And>i. i \<in> set ids \<Longrightarrow> leased_to w d1 i" "cloud_ok sha256 d'" "ids_unused uuid d'"
    "process_once dialect locked envs w tn batch d st =
       (Inr \<lparr>p_claimed = length ids, p_succeeded = m, p_failed = length ids - m\<rparr>, d', st')"
proof -
  obtain ids d1 where claim: "claim_tasks dialect locked (envs 0) w tn batch None d = (ids, d1)"
    by (cases "claim_tasks dialect locked (envs 0) w tn batch None d")
  have d1: "d1 = snd (claim_tasks dialect locked (envs 0) w tn batch None d)"
    and ids: "ids = fst (claim_tasks dialect locked (envs 0) w tn batch None d)" using claim by simp_all
  have k: "keys_ok d" using assms(1) by (simp add: cloud_ok_def core_ok_def)
  have ok1: "cloud_ok sha256 d1" using assms(1) claim_core claim_status unfolding d1 cloud_ok_def by blast
  have dist: "distinct ids" using claim_distinct [OF k] ids by simp
  have leased: "leased_to w d1 i" if "i \<in> set ids" for i
    using claim_leased [of i dialect locked "envs 0" w tn batch None d] that unfolding ids d1 by simp
  have u1: "ids_unused uuid d1" unfolding d1 by (rule claim_unused [OF assms(2)])
  have "\<exists>m d' st'. execute_all envs w ids 1 0 d1 st = (Inr m, d', st') \<and> ids_unused uuid d'"
    by (rule execute_all_returns [OF ok1 u1 assms(3) dist]) (use leased assms(4-7) in simp_all)
  then obtain m d' st' where run: "execute_all envs w ids 1 0 d1 st = (Inr m, d', st')" "ids_unused uuid d'" by blast
  have "cloud_ok sha256 d'" by (rule execute_all_ok [OF run(1) ok1 assms(5,7)])
  with that [OF claim run(1) ok1 dist leased _ run(2)] show ?thesis using claim run(1) by (simp add: process_once_def)
qed

section \<open>A pass\<close>

text \<open>
  A worker pass over the database source makes progress: unless identifiers or digests clash or
  the artifact store fails it returns, and it has then settled exactly the tasks it claimed, so that
  the number of open tasks has gone down by their number; it claims as many as the batch size allows
  of the tenant's claimable tasks (on SQLite, where no row is skipped), and the succeeded and failed
  ones it reports add up to the claimed ones.
\<close>

theorem worker_pass_progress:
  assumes "cloud_ok sha256 d" and "ids_unused uuid d" and "\<not> collision sha256" and "\<And>k. store_accepts (envs k)"
    and "\<And>k. e_sha256 (envs k) = sha256" and "\<And>k. e_uuid (envs k) = uuid" and "\<And>k. e_late_records (envs k) = []"
  shows "\<exists>res d' st'. process_once SQLite locked envs w tn batch d st = (Inr res, d', st') \<and>
    open_tasks d' + p_claimed res = open_tasks d \<and>
    p_claimed res = min (or_default_nat batch (worker_batch_size (e_settings (envs 0))))
      (length (filter (\<lambda>t. claimable (e_now (envs 0)) t \<and> (\<forall>u. tn = Some u \<longrightarrow> rt_tenant_id t = u)) (tasks d))) \<and>
    p_succeeded res + p_failed res = p_claimed res"
proof -
  have k: "keys_ok d" using assms(1) by (simp add: cloud_ok_def core_ok_def)
  obtain ids d1 m d' st' where p: "claim_tasks SQLite locked (envs 0) w tn batch None d = (ids, d1)"
    "execute_all envs w ids 1 0 d1 st = (Inr m, d', st')" "cloud_ok sha256 d1" "distinct ids"
    "\<And>i. i \<in> set ids \<Longrightarrow> leased_to w d1 i"
    "process_once SQLite locked envs w tn batch d st =
       (Inr \<lparr>p_claimed = length ids, p_succeeded = m, p_failed = length ids - m\<rparr>, d', st')"
    by (rule pass_returns [where envs = envs, OF assms]) blast
  have "open_tasks d' + length ids = open_tasks d1"
    by (rule execute_all_settles [OF p(2,3,4,5) assms(5,7)])
  moreover have "open_tasks d1 = open_tasks d" using claim_open [OF k, of SQLite locked "envs 0" w tn batch None] p(1) by simp
  moreover have "length ids = min (or_default_nat batch (worker_batch_size (e_settings (envs 0))))
      (length (filter (\<lambda>t. claimable (e_now (envs 0)) t \<and> (\<forall>u. tn = Some u \<longrightarrow> rt_tenant_id t = u)) (tasks d)))"
    using claim_length [OF k, of SQLite locked "envs 0" w tn batch None] p(1)
    by (cases tn) (simp_all add: claim_ids_def claim_candidates_def min.commute)
  moreover have "m \<le> length ids" using execute_all_count [OF p(2)] by simp
  ultimately show ?thesis using p(6) by auto
qed

lemma sample_ids_unused: "ids_unused sample_uuid sample_cloud"
proof -
  have "map rt_id (tasks sample_cloud) = [sample_uuid 1, sample_uuid 2]"
    "map rt_request_id (tasks sample_cloud) = [sample_uuid 0, sample_uuid 0]"
    by (simp_all add: sample_shape) (simp_all add: sample_task_def)
  moreover have "map pr_id (requests sample_cloud) = [sample_uuid 0]"
    using sample_parent_facts(3) by (simp add: sample_intake(3) sample_parent_def)
  moreover have "inj sample_uuid" by (auto simp: inj_def)
  ultimately show ?thesis by (simp add: ids_unused_def sample_shape del: set_map)
qed

theorem worker_pass_progress_witness:
  "\<exists>res d'. process_once SQLite (\<lambda>_. False) (\<lambda>k. sample_env 5) ''w1'' None None sample_cloud () = (Inr res, d', ()) \<and>
     p_claimed res = 2 \<and> open_tasks d' + 2 = open_tasks sample_cloud"
proof -
  have ok: "cloud_ok sample_digest sample_cloud"
    using reachable_sys_ok [OF sample_created [of True]] by (simp add: sys_ok_def cloud_ok_def sample_sys_def)
  note u = sample_ids_unused
  have acc: "store_accepts (sample_env 5)" by (simp add: store_accepts_def sample_env_def)
  have n: "or_default_nat None (worker_batch_size (e_settings (sample_env 5))) \<ge> 2"
    by (simp add: or_default_nat_def sample_env_def default_settings_def)
  have "filter (\<lambda>t. claimable (e_now (sample_env 5)) t \<and> (\<forall>u. None = Some u \<longrightarrow> rt_tenant_id t = u)) (tasks sample_cloud) =
      tasks sample_cloud" by (simp add: sample_shape sample_task_def claimable_def)
  then have two: "length (filter (\<lambda>t. claimable (e_now (sample_env 5)) t \<and> (\<forall>u. None = Some u \<longrightarrow> rt_tenant_id t = u)) (tasks sample_cloud)) = 2"
    by (simp add: sample_shape)
  have "\<exists>res d' st'. process_once SQLite (\<lambda>_. False) (\<lambda>k. sample_env 5) ''w1'' None None sample_cloud () = (Inr res, d', st') \<and>
    open_tasks d' + p_claimed res = open_tasks sample_cloud \<and>
    p_claimed res = min (or_default_nat None (worker_batch_size (e_settings (sample_env 5))))
      (length (filter (\<lambda>t. claimable (e_now (sample_env 5)) t \<and> (\<forall>u. None = Some u \<longrightarrow> rt_tenant_id t = u)) (tasks sample_cloud))) \<and>
    p_succeeded res + p_failed res = p_claimed res"
    by (rule worker_pass_progress [OF ok u sample_digest_injective acc]) (simp_all add: sample_env_def)
  then show ?thesis unfolding two using n by (auto simp: min_absorb2)
qed

end
