(* ===== verification/Isolation.thy ===== *)
theory Isolation
  imports Worker_Invariant
begin

text \<open>
  Tenant isolation: the rows of the other tenants, as one tenant's commands and worker passes leave
  them. \<open>foreign_rows tn d\<close> are all rows of all tables that do not belong to \<open>tn\<close>; every transaction made
  for \<open>tn\<close> keeps them in place and in order.
\<close>

section \<open>The rows of the other tenants\<close>

type_synonym rows =
  "privacy_request list \<times> request_task list \<times> outbox_event list \<times> audit_event list \<times> device_cloud_record list"

definition foreign_rows :: "string \<Rightarrow> cloud \<Rightarrow> rows" where
  "foreign_rows tn d =
     (filter (\<lambda>r. pr_tenant_id r \<noteq> tn) (requests d), filter (\<lambda>t. rt_tenant_id t \<noteq> tn) (tasks d),
      filter (\<lambda>e. ob_tenant_id e \<noteq> tn) (outbox d), filter (\<lambda>a. au_tenant_id a \<noteq> tn) (audit d),
      filter (\<lambda>r. dr_tenant_id r \<noteq> tn) (records d))"

lemma append_audit_others:
  "append_audit sha256 uuid now tn rid act pl d = Inr d' \<Longrightarrow> foreign_rows tn d' = foreign_rows tn d"
  by (drule append_audit_eq) (simp add: foreign_rows_def)

section \<open>Claims\<close>

lemma claim_others:
  assumes "core_ok sha256 d"
  shows "foreign_rows tn (snd (claim_tasks dialect locked env w (Some tn) batch secs d)) = foreign_rows tn d"
proof -
  let ?ids = "claim_ids dialect locked env (Some tn) batch d"
  let ?own = "filter (\<lambda>t. rt_id t \<in> set ?ids) (tasks d)"
  have k: "keys_ok d" by (rule core_ok_keys [OF assms])
  have t: "rt_tenant_id t = tn" if "t \<in> set (tasks d)" "rt_id t \<in> set ?ids" for t
    using claim_ids_claimable [OF k that] by simp
  have r: "pr_tenant_id r = tn" if r: "r \<in> set (requests d)" "pr_id r \<in> set (map rt_request_id ?own)" for r
  proof -
    from r(2) obtain t where t': "t \<in> set (tasks d)" "rt_id t \<in> set ?ids" "rt_request_id t = pr_id r" by auto
    with assms obtain q where q: "q \<in> set (requests d)" "pr_id q = rt_request_id t" "pr_tenant_id q = rt_tenant_id t"
      unfolding core_ok_def parents_ok_def by blast
    then have "q = r" using k key_inj [of pr_id "requests d" q r] r(1) t'(3) by (simp add: keys_ok_def)
    with q(3) t [OF t'(1,2)] show ?thesis by simp
  qed
  have "filter (\<lambda>t. rt_tenant_id t \<noteq> tn) (tasks (snd (claim_tasks dialect locked env w (Some tn) batch secs d))) =
      filter (\<lambda>t. rt_tenant_id t \<noteq> tn) (tasks d)"
    unfolding claim_tasks_tasks by (rule filter_upd_where_other) (simp add: t)
  moreover have "filter (\<lambda>r. pr_tenant_id r \<noteq> tn) (requests (snd (claim_tasks dialect locked env w (Some tn) batch secs d))) =
      filter (\<lambda>r. pr_tenant_id r \<noteq> tn) (requests d)"
    unfolding claim_tasks_requests by (rule filter_upd_where_other) (use r in auto)
  ultimately show ?thesis by (simp add: foreign_rows_def)
qed

section \<open>Executing a task\<close>

lemma request_others:
  assumes "keys_ok d" and "r \<in> set (requests d)" and "pr_tenant_id r = tn" and "\<And>s. pr_tenant_id (f s) = pr_tenant_id s"
  shows "filter (\<lambda>r. pr_tenant_id r \<noteq> tn) (upd_where (\<lambda>s. pr_id s = pr_id r) f (requests d)) =
    filter (\<lambda>r. pr_tenant_id r \<noteq> tn) (requests d)"
proof (rule filter_upd_where_other)
  fix s assume "s \<in> set (requests d)" "pr_id s = pr_id r"
  then have "s = r" using assms(1,2) key_inj [of pr_id "requests d" s r] by (simp add: keys_ok_def)
  then show "\<not> pr_tenant_id s \<noteq> tn \<and> \<not> pr_tenant_id (f s) \<noteq> tn" using assms(3,4) by simp
qed

lemma refresh_others:
  assumes "keys_ok d" and "r \<in> set (requests d)" and "pr_tenant_id r = tn"
    and "refresh_request_status env (pr_id r) d st = (res, d', st')"
  shows "foreign_rows tn d' = foreign_rows tn d"
proof (rule refresh_cases [OF assms(1,2,4) refl refl], goal_cases store_error refused terminal plain)
  case (terminal artifact)
  from announce_terminal_spec(1) [OF terminal(4)] obtain e a n where
    "d' = d\<lparr>requests := upd_where (\<lambda>s. pr_id s = pr_id r)
        (refreshed env r (derived_status (set (map rt_status (request_tasks d (pr_id r))))) artifact) (requests d),
      outbox := outbox d @ [e], audit := audit d @ [a], fresh := n,
      m_request_completed := m_request_completed d @
        [(pr_kind r, derived_status (set (map rt_status (request_tasks d (pr_id r)))))]\<rparr>"
    "ob_tenant_id e = tn" "au_tenant_id a = tn" using assms(3) by auto
  then show ?case using request_others [OF assms(1-3)] by (simp add: foreign_rows_def)
next
  case (plain artifact)
  then show ?case using request_others [OF assms(1-3)] by (simp add: foreign_rows_def)
qed simp_all

lemma run_source_others:
  assumes "keys_ok d" and "request \<in> set (requests d)" and "pr_tenant_id request = tn" and "rt_tenant_id task = tn"
    and "e_late_records env = []" and "run_source env ex task request d = (outcome, d1)"
  shows "foreign_rows tn d1 = foreign_rows tn d"
proof -
  have req: "filter (\<lambda>r. pr_tenant_id r \<noteq> tn) (requests d1) = filter (\<lambda>r. pr_tenant_id r \<noteq> tn) (requests d)"
    using run_source_requests [OF assms(6)] request_others [OF assms(1-3)]
    by (auto simp: verifying_def)
  have "filter (\<lambda>r. dr_tenant_id r \<noteq> tn) (records d1) = filter (\<lambda>r. dr_tenant_id r \<noteq> tn) (records d)"
  proof (cases "ex = None \<and> pr_kind request \<noteq> ACCESS")
    case True
    then have recs: "records d1 = upd_where (\<lambda>r. dr_id r \<in> set (map dr_id (active_records (verifying env request d) task request)))
          (\<lambda>r. r\<lparr>dr_deleted_at := Some (e_now env)\<rparr>) (records d)"
      using assms(5,6) execute_delete_state [of env "verifying env request d" task request] by (simp add: run_source_def)
    have own: "dr_tenant_id r = tn" if "r \<in> set (records d)"
        "dr_id r \<in> set (map dr_id (active_records (verifying env request d) task request))" for r
    proof -
      from that(2) obtain s where s: "s \<in> set (records d)" "dr_id s = dr_id r" "active_record task request s"
        by (auto simp: active_records_def)
      then have "s = r" using assms(1) that(1) key_inj [of dr_id "records d" s r] by (simp add: keys_ok_def)
      with s(3) assms(4) show ?thesis by (simp add: active_record_def)
    qed
    show ?thesis unfolding recs by (rule filter_upd_where_other) (use own in auto)
  next
    case False
    then have "records d1 = records d"
      using assms(6) by (auto simp: run_source_def Let_def split: option.splits sum.splits if_splits)
    then show ?thesis by simp
  qed
  with req show ?thesis using run_source_frame [OF assms(6)] by (simp add: foreign_rows_def)
qed

lemma finish_others:
  assumes "core_ok (e_sha256 env) d" and "task \<in> set (tasks d)" and "rt_status task = T_RUNNING" and "rt_tenant_id task = tn"
    and "request \<in> set (requests d)" and "pr_id request = rt_request_id task" and "e_late_records env = []"
    and "finish_task env ex task request d st = (res, d', st')"
  shows "foreign_rows tn d' = foreign_rows tn d"
proof -
  have k: "keys_ok d" by (rule core_ok_keys [OF assms(1)])
  have late: "late_ok env d" using assms(7) k by (simp add: late_ok_def keys_ok_def)
  from assms(1,2) obtain q where "q \<in> set (requests d)" "pr_id q = rt_request_id task" "pr_tenant_id q = rt_tenant_id task"
    unfolding core_ok_def parents_ok_def by blast
  moreover from this have "q = request"
    using k key_inj [of pr_id "requests d" q request] assms(5,6) by (simp add: keys_ok_def)
  ultimately have tn: "pr_tenant_id request = tn" using assms(4) by simp
  show ?thesis
    using assms(8)
  proof (cases rule: finish_task_cases)
    case (refused outcome d1)
    have "drop (length (records d)) (records d1) = []" using run_source_records [OF refused(1)] assms(7) by auto
    with refused(4) show ?thesis by (simp add: foreign_rows_def)
  next
    case (committed outcome d1 d2 d3 r)
    have t1: "tasks d1 = tasks d" by (rule run_source_frame(1) [OF committed(1)])
    have o1: "foreign_rows tn d1 = foreign_rows tn d"
      by (rule run_source_others [OF k assms(5) tn assms(4,7) committed(1)])
    have "filter (\<lambda>t. rt_tenant_id t \<noteq> tn) (upd_where (\<lambda>t. rt_id t = rt_id task) (settle_task env ex task outcome) (tasks d)) =
        filter (\<lambda>t. rt_tenant_id t \<noteq> tn) (tasks d)"
    proof (rule filter_upd_where_other)
      fix t assume "t \<in> set (tasks d)" "rt_id t = rt_id task"
      then have "t = task" using k assms(2) key_inj [of rt_id "tasks d" t task] by (simp add: keys_ok_def)
      then show "\<not> rt_tenant_id t \<noteq> tn \<and> \<not> rt_tenant_id (settle_task env ex task outcome t) \<noteq> tn"
        using assms(4) by (simp add: settle_task_def)
    qed
    then have o2: "foreign_rows tn d2 = foreign_rows tn d" using o1 committed(2) t1 by (simp add: foreign_rows_def)
    have o3: "foreign_rows tn d3 = foreign_rows tn d2" using append_audit_others [OF committed(3)] assms(4) by simp
    have c2: "core_ok (e_sha256 env) d2"
      by (rule committed_core [OF assms(1) live_snapshot [OF assms(1-3)] late committed(1,2)])
    then have k3: "keys_ok d3" using append_audit_core [OF committed(3)] core_ok_keys by blast
    have "map request_frame (requests d3) = map request_frame (requests d)"
      using append_audit_eq [OF committed(3)] committed(2) run_source_frame(4) [OF committed(1)] by simp
    then have "request_frame request \<in> request_frame ` set (requests d3)" using assms(5) by (metis image_eqI list.set_map)
    then obtain r' where r': "r' \<in> set (requests d3)" "pr_id r' = pr_id request" "pr_tenant_id r' = tn"
      using tn by (auto simp: request_frame_def)
    have "foreign_rows tn d' = foreign_rows tn d3"
      using refresh_others [OF k3 r'(1,3), of env st r d' st'] committed(4) r'(2) assms(6) by simp
    with o2 o3 show ?thesis by simp
  qed
qed

lemma execute_task_others:
  assumes "core_ok (e_sha256 env) d" and "e_late_records env = []" and "\<And>t. t \<in> set (tasks d) \<Longrightarrow> rt_id t = i \<Longrightarrow> rt_tenant_id t = tn"
    and "execute_task env ex i w d st = (res, d', st')"
  shows "foreign_rows tn d' = foreign_rows tn d"
  using assms(4)
proof (cases rule: execute_task_cases)
  case (ran task request)
  then show ?thesis using finish_others [OF assms(1) ran(1,3) assms(3) ran(5,6) assms(2) ran(7)] by simp
qed simp

lemma execute_task_frames:
  assumes "core_ok (e_sha256 env) d" and "late_ok env d" and "execute_task env ex i w d st = (res, d', st')"
  shows "map task_frame (tasks d') = map task_frame (tasks d)"
  using assms(3)
proof (cases rule: execute_task_cases)
  case (ran task request)
  from ran(7) show ?thesis
  proof (cases rule: finish_task_cases)
    case (committed outcome d1 d2 d3 r)
    have "keys_ok d3"
      using append_audit_core [OF committed(3) committed_core [OF assms(1) live_snapshot [OF assms(1) ran(1,3)] assms(2) committed(1,2)]]
      by (rule core_ok_keys)
    then have "tasks d' = tasks d3" using refresh_frame [OF _ committed(4)] by blast
    then show ?thesis
      using append_audit_eq [OF committed(3)] committed(2) run_source_frame(1) [OF committed(1)]
      by (simp add: map_upd_where)
  qed simp
qed simp

lemma frame_tenant:
  assumes "map task_frame (tasks d') = map task_frame (tasks d)"
    and "\<And>t. t \<in> set (tasks d) \<Longrightarrow> rt_id t \<in> I \<Longrightarrow> rt_tenant_id t = tn" and "t \<in> set (tasks d')" and "rt_id t \<in> I"
  shows "rt_tenant_id t = tn"
proof -
  have "task_frame t \<in> task_frame ` set (tasks d)" using assms(1,3) by (metis image_eqI list.set_map)
  then obtain s where "s \<in> set (tasks d)" "task_frame s = task_frame t" by auto
  with assms(2) [of s] assms(4) show ?thesis by (simp add: task_frame_def)
qed

lemma execute_all_others:
  assumes "execute_all envs w ids k n d st = (res, d', st')" and "cloud_ok sha256 d"
    and "\<And>k. e_sha256 (envs k) = sha256" and "\<And>k. e_late_records (envs k) = []"
    and "\<And>t. t \<in> set (tasks d) \<Longrightarrow> rt_id t \<in> set ids \<Longrightarrow> rt_tenant_id t = tn"
  shows "foreign_rows tn d' = foreign_rows tn d"
  using assms(1,2,5)
proof (induction ids arbitrary: k n d st)
  case (Cons i ids)
  obtain r d1 st1 where run: "execute_task (envs k) None i w d st = (r, d1, st1)" by (metis prod_cases3)
  have core: "core_ok (e_sha256 (envs k)) d" using Cons.prems(2) by (simp add: cloud_ok_def assms(3))
  then have late: "late_ok (envs k) d" by (simp add: late_ok_def assms(4) core_ok_def keys_ok_def)
  have ok1: "cloud_ok sha256 d1" using execute_task_ok [OF _ late run] Cons.prems(2) assms(3) by simp
  have o1: "foreign_rows tn d1 = foreign_rows tn d" by (rule execute_task_others [OF core assms(4) _ run]) (simp add: Cons.prems(3))
  have "rt_tenant_id t = tn" if "t \<in> set (tasks d1)" "rt_id t \<in> set ids" for t
    using frame_tenant [OF execute_task_frames [OF core late run], of "set ids" tn t] Cons.prems(3) that by simp
  with Cons.IH [OF _ ok1] Cons.prems(1) run o1 show ?case by (auto split: sum.splits)
qed simp

lemma process_once_others:
  assumes "cloud_ok sha256 d" and "\<And>k. e_sha256 (envs k) = sha256" and "\<And>k. e_late_records (envs k) = []"
    and "process_once dialect locked envs w (Some tn) batch d st = (res, d', st')"
  shows "foreign_rows tn d' = foreign_rows tn d"
proof -
  obtain ids d1 where claim: "claim_tasks dialect locked (envs 0) w (Some tn) batch None d = (ids, d1)"
    by (cases "claim_tasks dialect locked (envs 0) w (Some tn) batch None d")
  have core: "core_ok sha256 d" and k: "keys_ok d" using assms(1) by (simp_all add: cloud_ok_def core_ok_def)
  have d1: "d1 = snd (claim_tasks dialect locked (envs 0) w (Some tn) batch None d)" using claim by simp
  have ok1: "cloud_ok sha256 d1"
    using assms(1) claim_core claim_status unfolding d1 cloud_ok_def by blast
  have ids: "set ids = set (claim_ids dialect locked (envs 0) (Some tn) batch d)"
    using claim_tasks_fst [of dialect locked "envs 0" w "Some tn" batch None d] claim by simp
  have "map task_frame (tasks d1) = map task_frame (tasks d)"
    unfolding d1 claim_tasks_tasks by (simp add: map_upd_where task_frame_def)
  moreover have "rt_tenant_id t = tn" if "t \<in> set (tasks d)" "rt_id t \<in> set ids" for t
    using claim_ids_claimable(2) [OF k that(1) that(2) [unfolded ids] refl] .
  ultimately have own: "rt_tenant_id t = tn" if "t \<in> set (tasks d1)" "rt_id t \<in> set ids" for t
    using frame_tenant [of d1 d "set ids" tn t] that by blast
  have "foreign_rows tn d2 = foreign_rows tn d1" if "execute_all envs w ids 1 0 d1 st = (x, d2, st2)" for x d2 st2
    by (rule execute_all_others [OF that ok1 assms(2,3)]) (fact own)+
  moreover have "foreign_rows tn d1 = foreign_rows tn d" unfolding d1 by (rule claim_others [OF core])
  moreover obtain x d2 st2 where "execute_all envs w ids 1 0 d1 st = (x, d2, st2)" by (metis prod_cases3)
  moreover from this have "d' = d2" using assms(4) claim by (auto simp: process_once_def split: sum.splits)
  ultimately show ?thesis by simp
qed

section \<open>Intake and seeding\<close>

lemma list_all2_in_set2: "list_all2 R xs ys \<Longrightarrow> y \<in> set ys \<Longrightarrow> \<exists>x \<in> set xs. R x y"
  by (induction rule: list_all2_induct) auto

lemma create_others:
  assumes "keys_ok d0" and "keys_ok d"
    and "create_privacy_request_racing sha256 uuid now tn key c d0 d = (res, d')"
  shows "foreign_rows tn d' = foreign_rows tn d"
proof (rule create_cases [OF assms], goal_cases existing refused created)
  case (created d1)
  from create_rows_spec [OF created(1)] obtain ts es e0 es' a n where
    d1: "d1 = d\<lparr>requests := requests d @ [new_request sha256 uuid now tn key c d],
       tasks := tasks d @ ts, outbox := outbox d @ es, audit := audit d @ [a], fresh := n\<rparr>" and
    ts: "list_all (initial_task now tn (uuid (fresh d))) ts" and
    es: "es = e0 # es'" "ob_tenant_id e0 = tn" "list_all2 (ready_event now) ts es'" and a: "au_tenant_id a = tn"
    by blast
  have t: "rt_tenant_id t = tn" if "t \<in> set ts" for t
    using ts that by (auto simp: list_all_iff initial_task_def)
  have "ob_tenant_id e = tn" if "e \<in> set es'" for e
  proof -
    from es(3) that obtain t where "t \<in> set ts" "ready_event now t e" by (metis list_all2_in_set2)
    with t show ?thesis by (simp add: ready_event_def)
  qed
  then have "filter (\<lambda>e. ob_tenant_id e \<noteq> tn) es = []" "filter (\<lambda>t. rt_tenant_id t \<noteq> tn) ts = []"
    using t es by (auto simp: filter_empty_conv)
  then show ?case
    using a unfolding created(2) d1 by (simp add: foreign_rows_def new_request_def)
qed simp_all

lemma seed_others:
  assumes "seed_records sha256 uuid now tn c d = (res, d')"
  shows "foreign_rows tn d' = foreign_rows tn d"
proof (cases "insert_seed_rows uuid now tn (hash_subject sha256 (s_subject_key c)) (seed_plan (s_records_per_source c)) d")
  case (Inl e)
  with assms show ?thesis by (simp add: seed_records_def)
next
  case (Inr d1)
  with assms have "d' = d1" by (simp add: seed_records_def Let_def)
  with insert_seed_rows_spec [OF Inr] obtain rs ps where
    d': "d' = d\<lparr>records := records d @ rs, fresh := fresh d + length (seed_plan (s_records_per_source c))\<rparr>" and
    rs: "list_all2 (seeded_row now tn (hash_subject sha256 (s_subject_key c))) ps rs" by blast
  have "dr_tenant_id r = tn" if "r \<in> set rs" for r
    using list_all2_in_set2 [OF rs that] by (auto simp: seeded_row_def)
  then have "filter (\<lambda>r. dr_tenant_id r \<noteq> tn) rs = []" by (auto simp: filter_empty_conv)
  then show ?thesis by (simp add: d' foreign_rows_def)
qed

end
