(* ===== verification/Paths.thy ===== *)
theory Paths
  imports Routes
begin

text \<open>
  Paths of the local artifact store and the check of the download route: printing a path and reading
  it back, where the store puts a document, and which of these the route serves.
\<close>

section \<open>Splitting and joining\<close>

lemma split_on_free [simp]: "c \<notin> set s \<Longrightarrow> split_on c s = [s]"
  by (induction s) auto

lemma split_on_append: "c \<notin> set s \<Longrightarrow> split_on c (s @ c # r) = s # split_on c r"
  by (induction s) auto

lemma split_on_parts: "p \<in> set (split_on c s) \<Longrightarrow> c \<notin> set p"
  by (induction s arbitrary: p) (auto split: if_splits list.splits)

lemma split_on_join:
  "ps \<noteq> [] \<Longrightarrow> \<forall>p \<in> set ps. c \<notin> set p \<Longrightarrow> split_on c (join [c] ps) = ps"
proof (induction ps)
  case (Cons p ps)
  show ?case
  proof (cases "ps = []")
    case False
    with Cons show ?thesis by (simp add: join_Cons split_on_append)
  qed (use Cons in simp)
qed simp

section \<open>Printing and reading a path\<close>

definition wf_path :: "path \<Rightarrow> bool" where
  "wf_path p \<longleftrightarrow> fst p \<in> {'''', ''/'', ''//''} \<and> snd p \<noteq> [] \<and>
     (\<forall>q \<in> set (snd p). q \<noteq> [] \<and> q \<noteq> ''.'' \<and> CHR ''/'' \<notin> set q)"

lemma join_first:
  assumes "ps \<noteq> []" and "\<forall>q \<in> set ps. q \<noteq> [] \<and> CHR ''/'' \<notin> set q"
  shows "\<exists>c r. join ''/'' ps = c # r \<and> c \<noteq> CHR ''/''"
proof -
  obtain q qs where q: "ps = q # qs" using assms(1) by (cases ps) auto
  moreover obtain c r where "q = c # r" using assms(2) q by (cases q) auto
  ultimately show ?thesis using assms(2) by (cases qs) auto
qed

lemma make_path_text:
  assumes "wf_path p"
  shows "make_path (path_text p) = p"
proof -
  obtain r ps where p: "p = (r, ps)" by (cases p)
  have ps: "ps \<noteq> []" "\<forall>q \<in> set ps. q \<noteq> [] \<and> CHR ''/'' \<notin> set q" and r: "r \<in> {'''', ''/'', ''//''}"
    and flt: "filter (\<lambda>q. q \<noteq> [] \<and> q \<noteq> ''.'') ps = ps"
    using assms by (auto simp: wf_path_def p intro: filter_True)
  have split: "split_on CHR ''/'' (join ''/'' ps) = ps" using ps by (intro split_on_join) auto
  obtain c x where j: "join ''/'' ps = c # x" "c \<noteq> CHR ''/''" using join_first [OF ps] by blast
  have "path_root (r @ join ''/'' ps) = r" using r j by (auto simp: path_root_def py_startswith_def)
  moreover have "filter (\<lambda>q. q \<noteq> [] \<and> q \<noteq> ''.'') (split_on CHR ''/'' (r @ join ''/'' ps)) = ps"
    using r split flt by auto
  ultimately show ?thesis using ps(1) by (simp add: make_path_def path_text_def p)
qed

lemma path_text_nonempty:
  assumes "wf_path p"
  shows "path_text p \<noteq> []"
proof
  assume "path_text p = []"
  with make_path_text [OF assms] have "p = make_path []" by simp
  then have "snd p = []" by (simp add: make_path_def)
  with assms show False by (simp add: wf_path_def)
qed

lemma path_text_not_s3:
  assumes "wf_path p"
  shows "\<not> py_startswith (path_text p) ''s3://''"
proof
  assume s3: "py_startswith (path_text p) ''s3://''"
  obtain r ps where p: "p = (r, ps)" by (cases p)
  have ps: "ps \<noteq> []" "\<forall>q \<in> set ps. q \<noteq> [] \<and> CHR ''/'' \<notin> set q" and r: "r \<in> {'''', ''/'', ''//''}"
    using assms by (auto simp: wf_path_def p)
  have "r = []" using s3 r ps(1) by (auto simp: py_startswith_def path_text_def p)
  then have "take 5 (join ''/'' ps) = ''s3://''" using s3 ps(1) by (simp add: py_startswith_def path_text_def p eval_nat_numeral)
  then obtain x where "join ''/'' ps = ''s3:'' @ CHR ''/'' # CHR ''/'' # x" by (metis append_take_drop_id append_Cons append_Nil)
  moreover have "split_on CHR ''/'' (join ''/'' ps) = ps" using ps by (intro split_on_join) auto
  ultimately have "[] \<in> set ps" using split_on_append [of "CHR ''/''" "''s3:''" "CHR ''/'' # x"] by auto
  with ps(2) show False by blast
qed

section \<open>Where the store puts a document\<close>

lemma make_path_parts: "q \<in> set (snd (make_path s)) \<Longrightarrow> q \<noteq> [] \<and> q \<noteq> ''.'' \<and> CHR ''/'' \<notin> set q"
  by (auto simp: make_path_def dest: split_on_parts)

lemma make_path_root: "fst (make_path s) \<in> {'''', ''/'', ''//''}"
  by (simp add: make_path_def path_root_def)

definition plain_name :: "string \<Rightarrow> bool" where
  "plain_name s \<longleftrightarrow> s \<noteq> [] \<and> s \<noteq> ''.'' \<and> CHR ''/'' \<notin> set s"

lemma make_path_name:
  assumes "plain_name s"
  shows "make_path s = ([], [s])"
proof -
  have "path_root s = []" using assms by (cases s) (auto simp: plain_name_def path_root_def py_startswith_def)
  then show ?thesis using assms by (simp add: make_path_def plain_name_def)
qed

lemma plain_json_name: "CHR ''/'' \<notin> set r \<Longrightarrow> plain_name (r @ ''.json'')"
  by (auto simp: plain_name_def append_eq_Cons_conv)

lemma local_path_plain:
  assumes "plain_name tn" and "CHR ''/'' \<notin> set rid"
  shows "local_path base tn rid = (fst (make_path base), snd (make_path base) @ [tn, rid @ ''.json''])"
  by (simp add: local_path_def join_path_def make_path_name [OF assms(1)]
      make_path_name [OF plain_json_name [OF assms(2)]] Let_def)

lemma local_path_wf:
  assumes "plain_name tn" and "CHR ''/'' \<notin> set rid"
  shows "wf_path (local_path base tn rid)"
  using assms plain_json_name [OF assms(2)] make_path_root [of base]
  by (auto simp: local_path_plain [OF assms] wf_path_def plain_name_def dest: make_path_parts)

lemma local_put_uri:
  "local_put_json sha256 base tn rid document fs = (res, fs') \<Longrightarrow>
   \<exists>ref. res = Inr ref \<and> ref_uri ref = path_text (local_path base tn rid)"
  by (auto simp: local_put_json_def Let_def split: prod.splits)

section \<open>Resolving\<close>

lemma resolve_parts_append: "resolve_parts acc (xs @ ys) = resolve_parts (resolve_parts acc xs) ys"
  by (induction xs arbitrary: acc) auto

lemma resolve_local:
  assumes "plain_name tn" and "CHR ''/'' \<notin> set rid"
  shows "resolve cwd (path_text (local_path base tn rid)) =
    resolve_parts (resolve cwd base) [tn, rid @ ''.json'']"
  using make_path_text [OF local_path_wf [OF assms]]
  by (simp add: resolve_def local_path_plain [OF assms] Let_def resolve_parts_append)

lemma resolve_local_inside:
  assumes "plain_name tn" and "tn \<noteq> ''..''" and "CHR ''/'' \<notin> set rid"
  shows "is_parent (resolve cwd base) (resolve cwd (path_text (local_path base tn rid)))"
proof -
  have "rid @ ''.json'' \<noteq> ''..''" by (auto simp: append_eq_Cons_conv)
  then show ?thesis by (simp add: resolve_local [OF assms(1,3)] assms(2) is_parent_def)
qed

end
