(* ===== verification/Routes_Props.thy ===== *)
theory Routes_Props
  imports Paths Isolation Worker_Props
begin

text \<open>
  The properties of the HTTP interface: no route serves a caller without the API key, a tenant's
  calls leave the other tenants' rows alone, a repeated command gets the first one's answer, and the
  download route serves what the store wrote and nothing outside the artifact directory.
\<close>

section \<open>Authentication\<close>

text \<open>
  How a call without the right key is refused: 401 when the header is missing, or when the tenant
  header is valid and both keys are ASCII; a key that is not ASCII makes the comparison raise.
\<close>

definition rejected :: "settings \<Rightarrow> headers \<Rightarrow> reply \<Rightarrow> bool" where
  "rejected cfg hs rep \<longleftrightarrow>
     fst rep \<in> {401, 422, 500} \<and>
     (h_api_key hs = None \<longrightarrow> rep = (401, Detail ''invalid API key'')) \<and>
     (case h_api_key hs of None \<Rightarrow> True | Some k \<Rightarrow>
        if check_length ''x-tenant-id'' [''header'', ''x-tenant-id''] 2 64 (h_tenant_id hs) \<noteq> [] then fst rep = 422
        else if py_isascii k \<and> py_isascii (api_key cfg) then rep = (401, Detail ''invalid API key'')
        else fst rep = 500)"

lemma tenant_length:
  "check_length nm loc low high v = [] \<longleftrightarrow> (\<exists>s. v = Some s \<and> low \<le> length s \<and> length s \<le> high)"
  by (auto simp: check_length_def split: option.splits if_splits)

lemma with_tenant_rejects:
  assumes "h_api_key hs \<noteq> Some (api_key cfg)" and "\<not> missing_api_key others"
  shows "rejected cfg hs (fst (with_tenant cfg hs others handler w)) \<and> snd (with_tenant cfg hs others handler w) = w"
proof -
  let ?c = "check_length ''x-tenant-id'' [''header'', ''x-tenant-id''] 2 64 (h_tenant_id hs)"
  have c: "\<not> missing_api_key ?c" by (auto simp: check_length_def missing_api_key_def split: option.splits)
  show ?thesis
  proof (cases "h_api_key hs")
    case None
    then have "tenant_errors hs \<noteq> []" "missing_api_key (tenant_errors hs @ others)"
      by (simp_all add: tenant_errors_def missing_api_key_def)
    then show ?thesis using None by (simp add: with_tenant_def rejected_def authentication_validation_handler_def)
  next
    case (Some k)
    then have te: "tenant_errors hs = ?c" by (simp add: tenant_errors_def)
    show ?thesis
    proof (cases "?c = []")
      case False
      have "\<not> missing_api_key (?c @ others)" using c assms(2) by (simp add: missing_api_key_def)
      then show ?thesis using False Some te
        by (simp add: with_tenant_def rejected_def authentication_validation_handler_def)
    next
      case True
      then obtain tn where tn: "h_tenant_id hs = Some tn" "2 \<le> length tn" "length tn \<le> 64"
        by (auto simp: tenant_length)
      have "k \<noteq> api_key cfg" using assms(1) Some by simp
      then show ?thesis using True Some te tn
        by (auto simp: with_tenant_def rejected_def tenant_context_def compare_digest_def)
    qed
  qed
qed

lemma with_tenant_accepts:
  assumes "h_api_key hs = Some (api_key cfg)" and "py_isascii (api_key cfg)" and "h_tenant_id hs = Some tn"
    and "2 \<le> length tn" and "length tn \<le> 64"
  shows "with_tenant cfg hs [] handler w = handler tn"
  using assms by (simp add: with_tenant_def tenant_errors_def check_length_def tenant_context_def compare_digest_def)

text \<open>Whether the handler is reached depends on the headers and the parameters only.\<close>

definition reaches :: "settings \<Rightarrow> headers \<Rightarrow> validation_error list \<Rightarrow> string \<Rightarrow> bool" where
  "reaches cfg hs errs tn \<longleftrightarrow> tenant_errors hs = [] \<and> errs = [] \<and>
     tenant_context (api_key cfg) (the (h_tenant_id hs)) (the (h_api_key hs)) = Inr tn"

lemma with_tenant_reaches: "reaches cfg hs errs tn \<Longrightarrow> with_tenant cfg hs errs handler w = handler tn"
  by (simp add: reaches_def with_tenant_def)

text \<open>What a call that reaches its handler has shown.\<close>

lemma with_tenant_cases:
  obtains (stopped) rep where "with_tenant cfg hs others handler w = (rep, w)"
      "fst rep \<in> {401, 422, 500} \<or> (\<exists>c m. rep = (c, Detail m))"
    | (served) tn where "h_tenant_id hs = Some tn" "h_api_key hs = Some (api_key cfg)" "reaches cfg hs others tn"
proof (cases "tenant_errors hs = []")
  case False
  then show ?thesis
    by (intro stopped [of "authentication_validation_handler (tenant_errors hs @ others)"])
       (simp_all add: with_tenant_def authentication_validation_handler_def)
next
  case True
  then obtain tn k where h: "h_tenant_id hs = Some tn" "h_api_key hs = Some k"
    by (auto simp: tenant_errors_def tenant_length split: option.splits)
  show ?thesis
  proof (cases "tenant_context (api_key cfg) tn k")
    case (Inl e)
    moreover have "fst (error_reply e) \<in> {401, 422, 500} \<or> (\<exists>c m. error_reply e = (c, Detail m))" by (cases e) auto
    ultimately show ?thesis using True h by (intro stopped [of "error_reply e"]) (simp_all add: with_tenant_def)
  next
    case (Inr t)
    then have "t = tn" "k = api_key cfg"
      by (auto simp: tenant_context_def compare_digest_def split: if_splits sum.splits bool.splits)
    then show ?thesis using True h Inr served [of tn] stopped [of "authentication_validation_handler others"]
      by (cases "others = []") (auto simp: reaches_def with_tenant_def authentication_validation_handler_def)
  qed
qed

lemma with_tenant_served:
  assumes "with_tenant cfg hs errs handler w = (rep, w')" and "fst rep \<notin> {401, 422, 500}" and "\<And>c m. rep \<noteq> (c, Detail m)"
  obtains tn where "h_tenant_id hs = Some tn" "h_api_key hs = Some (api_key cfg)" "reaches cfg hs errs tn" "handler tn = (rep, w')"
proof (rule with_tenant_cases [of cfg hs errs handler w], goal_cases stopped served)
  case (stopped r)
  then show ?case using assms by auto
next
  case (served tn)
  then show ?case using that [of tn] assms(1) by (simp add: with_tenant_reaches)
qed

lemma with_tenant_state:
  assumes "\<And>tn. h_tenant_id hs = Some tn \<Longrightarrow> others = [] \<Longrightarrow> P (snd (handler tn))" and "P w"
  shows "P (snd (with_tenant cfg hs others handler w))"
  by (rule with_tenant_cases [of cfg hs others handler w])
     (use assms in \<open>auto simp: with_tenant_reaches, auto simp: reaches_def\<close>)

lemma create_fresh_row:
  assumes "keys_ok d" and "create_privacy_request_racing sha256 uuid now tn key c d d = (Inr (Some r, True), d1)"
  shows "r \<in> set (requests d1) \<and> pr_tenant_id r = tn \<and> pr_idempotency_key r = key \<and> same_command sha256 r c \<and> keys_ok d1"
proof (rule create_cases [OF assms(1,1,2)], goal_cases existing refused created)
  case (existing r')
  then show ?case by (auto simp: existing_result_def split: if_splits)
next
  case (created d')
  from create_rows_spec [OF created(1)] assms(1) have "r \<in> set (requests d')" "keys_ok d'" using created(3) by auto
  then show ?case
    using created(2,3) by (simp add: new_request_def same_command_def keys_ok_def)
qed simp

section \<open>Validation errors of a route's own parameters\<close>

lemma own_errors [simp]:
  "\<not> missing_api_key []" "\<not> missing_api_key (command_errors c)"
  "loc \<noteq> [''header'', ''x-api-key''] \<Longrightarrow> \<not> missing_api_key (check_length nm loc low high v)"
  "missing_api_key (xs @ ys) \<longleftrightarrow> missing_api_key xs \<or> missing_api_key ys"
  "ve_type e \<noteq> ''missing'' \<Longrightarrow> missing_api_key (e # xs) \<longleftrightarrow> missing_api_key xs"
  by (auto simp: missing_api_key_def command_errors_def check_length_def split: sum.splits option.splits)

section \<open>The download route\<close>

lemma artifact_reply_file:
  assumes "\<not> py_startswith uri ''s3://''" and "uri \<noteq> []"
    and "is_parent (resolve cwd (artifact_dir cfg)) (resolve cwd uri)" and "is_file (resolve cwd uri)"
  shows "artifact_reply cfg client cwd is_file i s uri d = ((200, File (''/'' @ join ''/'' (resolve cwd uri)) (i @ ''.json'')), d)"
  using assms by (simp add: artifact_reply_def)

section \<open>Examples\<close>

definition sample_headers :: headers where
  "sample_headers = \<lparr>h_tenant_id = Some ''acme'', h_api_key = Some (api_key default_settings), h_idempotency_key = Some ''k1''\<rparr>"

lemma sample_key: "py_isascii (api_key default_settings)"
  by (simp add: default_settings_def py_isascii_def)

lemma sample_reaches: "reaches default_settings sample_headers [] ''acme''"
  using sample_key
  by (simp add: reaches_def tenant_errors_def check_length_def sample_headers_def tenant_context_def compare_digest_def)

definition sample_s3 :: "unit s3_client" where
  "sample_s3 = \<lparr>put_object = (\<lambda>args s. (Inr (), s)),
     generate_presigned_url = (\<lambda>bucket key expires s. Inr (''https://'' @ bucket @ ''/'' @ key))\<rparr>"

definition sample_uri :: string where
  "sample_uri = path_text (local_path (artifact_dir default_settings) ''acme'' (sample_uuid 0))"

definition sample_stored :: privacy_request where
  "sample_stored = sample_request\<lparr>pr_artifact_path := Some sample_uri\<rparr>"

definition sample_files :: cloud where
  "sample_files = sample_cloud\<lparr>requests := [sample_stored]\<rparr>"

lemma sample_stored_facts:
  "pr_id sample_stored = sample_uuid 0" "pr_tenant_id sample_stored = ''acme''"
  "pr_artifact_path sample_stored = Some sample_uri" "sample_stored \<in> set (requests sample_files)"
  "keys_ok sample_files" "plain_name ''acme''" "CHR ''/'' \<notin> set (sample_uuid 0)"
proof -
  show "keys_ok sample_files" using sample_intake(2) by (simp add: sample_files_def keys_ok_def)
qed (simp_all add: sample_stored_def sample_files_def sample_request_def new_request_def plain_name_def,
     simp_all add: empty_cloud_def sample_uuid_def)

section \<open>Properties\<close>



text \<open>
  C5. Tenants are isolated: whatever a caller does under a tenant's header (creating requests,
  seeding, running a worker pass, with success or error), every row of every table that belongs to
  another tenant stays as it is, in place.
\<close>

theorem tenant_isolation:
  assumes "cloud_ok sha256 d" and "h_tenant_id hs = Some tn"
    and "\<And>k. e_sha256 (envs k) = sha256" and "\<And>k. e_late_records (envs k) = []"
  shows "foreign_rows tn (snd (create_request cfg sha256 uuid now hs c d)) = foreign_rows tn d \<and>
    foreign_rows tn (snd (seed cfg sha256 uuid now hs sc d)) = foreign_rows tn d \<and>
    foreign_rows tn (fst (snd (run_worker_once cfg dialect locked envs hs w batch (d, st)))) = foreign_rows tn d"
proof -
  have k: "keys_ok d" using assms(1) by (simp add: cloud_ok_def core_ok_def)
  have "foreign_rows tn (snd (create_request cfg sha256 uuid now hs c d)) = foreign_rows tn d"
    unfolding create_request_def
    by (rule with_tenant_state)
       (use assms(2) create_others [OF k k] in
         \<open>auto simp: create_privacy_request_def create_reply_def split: prod.splits sum.splits option.splits error.splits\<close>)
  moreover have "foreign_rows tn (snd (seed cfg sha256 uuid now hs sc d)) = foreign_rows tn d"
    unfolding seed_def
    by (rule with_tenant_state)
       (use assms(2) seed_others [of sha256 uuid now tn "projr sc" d] in \<open>auto split: prod.splits sum.splits\<close>)
  moreover have "foreign_rows tn (fst (snd (run_worker_once cfg dialect locked envs hs w batch (d, st)))) = foreign_rows tn d"
    unfolding run_worker_once_def
    by (rule with_tenant_state [where P = "\<lambda>w. foreign_rows tn (fst w) = foreign_rows tn d"])
       (use assms(2) process_once_others [OF assms(1,3,4), where tn = tn] in \<open>auto simp: Let_def split: prod.splits sum.splits\<close>)
  ultimately show ?thesis by blast
qed

text \<open>A database with a request of one tenant and a second tenant that seeds and works.\<close>

theorem tenant_isolation_witness:
  "cloud_ok sample_digest sample_claimed \<and>
   foreign_rows ''beta'' (snd (create_request default_settings sample_digest sample_uuid 9
       (sample_headers\<lparr>h_tenant_id := Some ''beta''\<rparr>) (Inr sample_delete) sample_claimed)) = foreign_rows ''beta'' sample_claimed \<and>
   sample_running \<in> set (fst (snd (foreign_rows ''beta'' sample_claimed)))"
proof -
  have "foreign_rows ''beta'' (snd (create_request default_settings sample_digest sample_uuid 9
       (sample_headers\<lparr>h_tenant_id := Some ''beta''\<rparr>) (Inr sample_delete) sample_claimed)) = foreign_rows ''beta'' sample_claimed"
    by (rule tenant_isolation [OF sample_claimed_ok, where envs = "\<lambda>_. sample_env 9", THEN conjunct1])
       (simp_all add: sample_env_def)
  moreover have "sample_running \<in> set (fst (snd (foreign_rows ''beta'' sample_claimed)))"
    by (simp add: foreign_rows_def sample_claimed_tasks) (simp add: sample_running_def sample_task_def)
  ultimately show ?thesis using sample_claimed_ok by blast
qed

text \<open>
  A repeated command gets the first one's answer: after a call of the creation route answered
  201, the same call, at any later time and with any fresh identifiers, answers 200 with the same
  view and changes nothing.
\<close>

theorem create_request_replay:
  assumes "keys_ok d" and "create_request cfg sha256 uuid now hs c d = ((201, View v), d1)"
  shows "create_request cfg sha256 uuid' now' hs c d1 = ((200, View v), d1)"
proof -
  let ?errs = "create_errors hs c"
  let ?key = "the (h_idempotency_key hs)" and ?c = "projr c"
  let ?h = "\<lambda>uuid now d tn. create_reply (create_privacy_request sha256 uuid now tn ?key ?c d)"
  have route: "create_request cfg sha256 uuid now hs c d = with_tenant cfg hs ?errs (?h uuid now d) d" for uuid now d
    by (simp add: create_request_def)
  have noview: "error_reply e \<noteq> (201, View v)" for e by (cases e) auto
  show ?thesis
  proof (rule with_tenant_cases [of cfg hs ?errs "?h uuid now d" d], goal_cases stopped served)
    case (stopped rep)
    then show ?case using assms(2) by (auto simp: route)
  next
    case (served tn)
    then have run: "?h uuid now d tn = ((201, View v), d1)" using assms(2) by (simp add: route with_tenant_reaches)
    then obtain r where made: "create_privacy_request sha256 uuid now tn ?key ?c d = (Inr (Some r, True), d1)"
      and v: "v = view_request d1 r"
      using noview by (auto simp: create_reply_def split: prod.splits sum.splits option.splits error.splits if_splits)
    from made have r: "r \<in> set (requests d1)" "pr_tenant_id r = tn" "pr_idempotency_key r = ?key"
      "same_command sha256 r ?c" and k1: "keys_ok d1"
      using create_fresh_row [OF assms(1)] unfolding create_privacy_request_def by blast+
    have "create_privacy_request sha256 uuid' now' tn ?key ?c d1 = (Inr (Some r, False), d1)"
      using create_replay [OF k1 r(1-3)] r(4) by (simp add: create_privacy_request_def existing_result_def)
    moreover have "create_request cfg sha256 uuid' now' hs c d1 = ?h uuid' now' d1 tn"
      using served(3) by (simp add: route with_tenant_reaches)
    ultimately show ?case by (simp add: v create_reply_def)
  qed
qed

theorem create_request_replay_witness:
  "\<exists>v. create_request default_settings sample_digest sample_uuid 0 sample_headers (Inr sample_delete) empty_cloud =
       ((201, View v), sample_cloud) \<and>
     create_request default_settings sample_digest sample_uuid 8 sample_headers (Inr sample_delete) sample_cloud =
       ((200, View v), sample_cloud)"
proof -
  have e: "create_errors sample_headers (Inr sample_delete) = []"
    by (simp add: create_errors_def command_errors_def check_length_def sample_headers_def)
  have h: "the (h_idempotency_key sample_headers) = ''k1''" by (simp add: sample_headers_def)
  have made: "create_request default_settings sample_digest sample_uuid 0 sample_headers (Inr sample_delete) empty_cloud =
      ((201, View (view_request sample_cloud sample_request)), sample_cloud)"
    unfolding create_request_def e using sample_intake(1) by (simp add: with_tenant_reaches [OF sample_reaches] h create_reply_def)
  from create_request_replay [OF keys_ok_empty this] made show ?thesis by blast
qed

text \<open>
  C23. A download is confined: when the route serves a file, the caller has the API key, the request
  is one of the caller's tenant, the file is the one its artifact path names, it exists, and it lies
  strictly inside the resolved artifact directory.
\<close>

theorem download_confined:
  assumes "keys_ok d" and "download_artifact cfg client cwd is_file hs i s d = ((200, File p nm), d')"
  shows "\<exists>r uri. r \<in> set (requests d) \<and> pr_id r = i \<and> h_tenant_id hs = Some (pr_tenant_id r) \<and>
    h_api_key hs = Some (api_key cfg) \<and> pr_artifact_path r = Some uri \<and> p = ''/'' @ join ''/'' (resolve cwd uri) \<and>
    is_file (resolve cwd uri) \<and> is_parent (resolve cwd (artifact_dir cfg)) (resolve cwd uri) \<and> d' = d"
proof -
  have no: "error_reply e \<noteq> (200, File p nm)" for e by (cases e) auto
  obtain tn where h: "h_tenant_id hs = Some tn" "h_api_key hs = Some (api_key cfg)"
    and run: "(case get_privacy_request d tn i of
            Inl e \<Rightarrow> (error_reply e, d)
          | Inr None \<Rightarrow> ((404, Detail ''privacy request not found''), d)
          | Inr (Some r) \<Rightarrow>
              (case pr_artifact_path r of
                 None \<Rightarrow> ((409, Detail ''artifact is not ready''), d)
               | Some uri \<Rightarrow> artifact_reply cfg client cwd is_file i s uri d)) = ((200, File p nm), d')"
    using assms(2) unfolding download_artifact_def by (rule with_tenant_served) auto
  obtain r where r: "get_privacy_request d tn i = Inr (Some r)"
    using run no by (auto split: sum.splits option.splits)
  then have rd: "r \<in> set (requests d)" "pr_id r = i" "pr_tenant_id r = tn"
    using get_privacy_request_eq [OF assms(1)] by (auto simp: find_Some_iff split: option.splits if_splits)
  obtain uri where uri: "pr_artifact_path r = Some uri" "artifact_reply cfg client cwd is_file i s uri d = ((200, File p nm), d')"
    using run r by (auto split: option.splits)
  from uri(2) have "p = ''/'' @ join ''/'' (resolve cwd uri) \<and> is_file (resolve cwd uri) \<and>
      is_parent (resolve cwd (artifact_dir cfg)) (resolve cwd uri) \<and> d' = d"
    using no by (auto simp: artifact_reply_def Let_def split: if_splits sum.splits option.splits artifact_store_kind.splits)
  with rd h uri(1) show ?thesis by blast
qed

theorem download_confined_witness:
  "\<exists>p nm r. download_artifact default_settings sample_s3 [''srv''] (\<lambda>_. True) sample_headers (sample_uuid 0) ()
       sample_files = ((200, File p nm), sample_files) \<and>
     r \<in> set (requests sample_files) \<and> pr_id r = sample_uuid 0 \<and> pr_tenant_id r = ''acme''"
proof -
  note f = sample_stored_facts
  have wf: "wf_path (local_path (artifact_dir default_settings) ''acme'' (sample_uuid 0))" by (rule local_path_wf [OF f(6,7)])
  have rep: "artifact_reply default_settings sample_s3 [''srv''] (\<lambda>_. True) (sample_uuid 0) () sample_uri sample_files =
      ((200, File (''/'' @ join ''/'' (resolve [''srv''] sample_uri)) (sample_uuid 0 @ ''.json'')), sample_files)"
    unfolding sample_uri_def
    by (rule artifact_reply_file [OF path_text_not_s3 [OF wf] path_text_nonempty [OF wf] resolve_local_inside [OF f(6) _ f(7)]]) simp_all
  then have run: "download_artifact default_settings sample_s3 [''srv''] (\<lambda>_. True) sample_headers (sample_uuid 0) ()
      sample_files = ((200, File (''/'' @ join ''/'' (resolve [''srv''] sample_uri)) (sample_uuid 0 @ ''.json'')), sample_files)"
    using get_privacy_request_Some [OF f(5,4)] f(1-3)
    by (simp add: download_artifact_def with_tenant_reaches [OF sample_reaches])
  from download_confined [OF f(5) run] have "\<exists>r. r \<in> set (requests sample_files) \<and> pr_id r = sample_uuid 0 \<and> pr_tenant_id r = ''acme''"
    by (auto simp: sample_headers_def)
  with run show ?thesis by blast
qed

text \<open>
  C24. What the local store wrote is served: for a tenant whose name is a plain path component, the
  document that the store wrote for a request is downloaded by that tenant under the path the store
  returned, and the file holds the encoded document.
\<close>

theorem local_artifact_served:
  assumes "keys_ok d" and "r \<in> set (requests d)" and "reaches cfg hs [] (pr_tenant_id r)"
    and "plain_name (pr_tenant_id r)" and "pr_tenant_id r \<noteq> ''..''" and "CHR ''/'' \<notin> set (pr_id r)"
    and "local_put_json sha256 (artifact_dir cfg) (pr_tenant_id r) (pr_id r) document fs = (Inr ref, fs')"
    and "pr_artifact_path r = Some (ref_uri ref)" and "is_file (resolve cwd (ref_uri ref))"
  shows "download_artifact cfg client cwd is_file hs (pr_id r) s d =
      ((200, File (''/'' @ join ''/'' (resolve cwd (ref_uri ref))) (pr_id r @ ''.json'')), d) \<and>
    fs' (ref_uri ref) = Some (fst (encode_artifact sha256 document))"
proof -
  let ?p = "local_path (artifact_dir cfg) (pr_tenant_id r) (pr_id r)"
  have uri: "ref_uri ref = path_text ?p"
    using local_put_uri [OF assms(7)] by simp
  have wf: "wf_path ?p" by (rule local_path_wf [OF assms(4,6)])
  have "artifact_reply cfg client cwd is_file (pr_id r) s (ref_uri ref) d =
      ((200, File (''/'' @ join ''/'' (resolve cwd (ref_uri ref))) (pr_id r @ ''.json'')), d)"
  proof (rule artifact_reply_file)
    show "\<not> py_startswith (ref_uri ref) ''s3://''" unfolding uri by (rule path_text_not_s3 [OF wf])
    show "ref_uri ref \<noteq> []" unfolding uri by (rule path_text_nonempty [OF wf])
    show "is_parent (resolve cwd (artifact_dir cfg)) (resolve cwd (ref_uri ref))"
      unfolding uri by (rule resolve_local_inside [OF assms(4-6)])
  qed (rule assms(9))
  moreover have "fs' (ref_uri ref) = Some (fst (encode_artifact sha256 document))"
    by (rule local_store.put_stored [OF assms(7)])
  ultimately show ?thesis
    using get_privacy_request_Some [OF assms(1,2)] assms(8)
    by (simp add: download_artifact_def with_tenant_reaches [OF assms(3)])
qed

theorem local_artifact_served_witness:
  "\<exists>ref fs'. local_put_json sample_digest (artifact_dir default_settings) ''acme'' (sample_uuid 0) JNull (\<lambda>_. None) = (Inr ref, fs') \<and>
     fst (fst (download_artifact default_settings sample_s3 [''srv''] (\<lambda>_. True) sample_headers (sample_uuid 0) ()
       sample_files)) = 200 \<and>
     fs' (ref_uri ref) = Some (fst (encode_artifact sample_digest JNull))"
proof -
  note f = sample_stored_facts
  obtain res fs' where put: "local_put_json sample_digest (artifact_dir default_settings) ''acme'' (sample_uuid 0) JNull (\<lambda>_. None) = (res, fs')"
    by (metis prod.collapse)
  from local_put_uri [OF put] obtain ref where ref: "res = Inr ref" "ref_uri ref = sample_uri" by (auto simp: sample_uri_def)
  have "download_artifact default_settings sample_s3 [''srv''] (\<lambda>_. True) sample_headers (sample_uuid 0) () sample_files =
      ((200, File (''/'' @ join ''/'' (resolve [''srv''] (ref_uri ref))) (sample_uuid 0 @ ''.json'')), sample_files) \<and>
    fs' (ref_uri ref) = Some (fst (encode_artifact sample_digest JNull))"
    using local_artifact_served [OF f(5,4), of default_settings sample_headers sample_digest JNull "\<lambda>_. None" ref fs'
        "\<lambda>_. True" "[''srv'']" sample_s3 "()"] put ref f sample_reaches by simp
  with put ref show ?thesis by auto
qed

text \<open>
  A tenant named \<open>..\<close> (a valid header: two characters) leaves the artifact directory: unless the
  directory is the root of the file system, the store writes its documents beside the directory,
  outside of it, and the download route then refuses to serve them.
\<close>

theorem dotdot_tenant_escapes:
  assumes "local_put_json sha256 (artifact_dir cfg) ''..'' rid document fs = (Inr ref, fs')"
    and "CHR ''/'' \<notin> set rid" and "resolve cwd (artifact_dir cfg) \<noteq> []"
  shows "resolve cwd (ref_uri ref) = butlast (resolve cwd (artifact_dir cfg)) @ [rid @ ''.json''] \<and>
    fst (artifact_reply cfg client cwd is_file rid s (ref_uri ref) d) = (404, Detail ''artifact file not found'')"
proof -
  let ?p = "local_path (artifact_dir cfg) ''..'' rid"
  have pn: "plain_name ''..''" by (simp add: plain_name_def)
  have uri: "ref_uri ref = path_text ?p"
    using local_put_uri [OF assms(1)] by simp
  have wf: "wf_path ?p" by (rule local_path_wf [OF pn assms(2)])
  have ne: "ref_uri ref \<noteq> []" unfolding uri by (rule path_text_nonempty [OF wf])
  have "rid @ ''.json'' \<noteq> ''..''" by (auto simp: append_eq_Cons_conv)
  then have res: "resolve cwd (ref_uri ref) = butlast (resolve cwd (artifact_dir cfg)) @ [rid @ ''.json'']"
    unfolding uri by (simp add: resolve_local [OF pn assms(2)])
  then have "\<not> is_parent (resolve cwd (artifact_dir cfg)) (resolve cwd (ref_uri ref))"
    using assms(3) by (simp add: is_parent_def)
  then show ?thesis
    using res ne path_text_not_s3 [OF wf] by (simp add: artifact_reply_def uri)
qed

theorem dotdot_tenant_escapes_witness:
  "\<exists>ref fs'. local_put_json sample_digest (artifact_dir (default_settings\<lparr>artifact_dir := ''data''\<rparr>)) ''..'' ''r1'' JNull (\<lambda>_. None) =
       (Inr ref, fs') \<and>
     resolve [''srv''] (ref_uri ref) = [''srv'', ''r1.json'']"
proof -
  let ?cfg = "default_settings\<lparr>artifact_dir := ''data''\<rparr>"
  have base: "resolve [''srv''] (artifact_dir ?cfg) = [''srv'', ''data'']"
    by (simp add: resolve_def make_path_def path_root_def py_startswith_def Let_def)
  obtain ref fs' where put: "local_put_json sample_digest (artifact_dir ?cfg) ''..'' ''r1'' JNull (\<lambda>_. None) = (Inr ref, fs')"
    using local_put_uri by (metis prod.collapse)
  have "resolve [''srv''] (ref_uri ref) = butlast (resolve [''srv''] (artifact_dir ?cfg)) @ [''r1'' @ ''.json'']"
    by (rule dotdot_tenant_escapes [OF put, THEN conjunct1]) (use base in simp_all)
  with base have "resolve [''srv''] (ref_uri ref) = [''srv'', ''r1.json'']" by simp
  with put show ?thesis by blast
qed

text \<open>
  C25. Artifacts in S3 are encrypted and addressable: with a configured S3 store a successful write
  has put the encoded document under the tenant's and request's key with KMS encryption under a
  non-empty key identifier and the document's digest as metadata, and a download of the returned
  address asks for a signed link to exactly that object.
\<close>

theorem s3_artifact_encrypted:
  assumes "build_artifact_store cfg = Inr (S3Store store)"
    and "s3_put_json client sha256 store tn rid document s = (Inr ref, s')"
  shows "\<exists>args. put_object client args s = (Inr (), s') \<and>
    put_Bucket args = s3_bucket cfg \<and> put_Key args = strip_char CHR ''/'' (s3_prefix cfg) @ ''/'' @ tn @ ''/'' @ rid @ ''.json'' \<and>
    put_ServerSideEncryption args = ''aws:kms'' \<and> put_SSEKMSKeyId args = s3_kms_key_id cfg \<and> s3_kms_key_id cfg \<noteq> [] \<and>
    put_Body args = utf8_encode (json_dumps False document) \<and>
    put_Metadata args = [(''sha256'', ref_sha256 ref)] \<and> ref_sha256 ref = hexdigest sha256 (put_Body args) \<and>
    s3_presign_get client store (ref_uri ref) expires s2 =
      (case generate_presigned_url client (put_Bucket args) (put_Key args) expires s2 of Inl e \<Rightarrow> Inl e | Inr url \<Rightarrow> Inr (Some url))"
proof -
  have store: "store = \<lparr>s3_store_bucket = s3_bucket cfg, s3_store_kms_key_id = s3_kms_key_id cfg,
      s3_store_key_prefix = strip_char CHR ''/'' (s3_prefix cfg)\<rparr>" "s3_kms_key_id cfg \<noteq> []"
    using assms(1) by (auto simp: build_artifact_store_def make_s3_store_def split: if_splits)
  let ?body = "utf8_encode (json_dumps False document)" and ?key = "s3_key store tn rid"
  let ?args = "\<lparr>put_Bucket = s3_store_bucket store, put_Key = ?key, put_Body = ?body,
      put_ContentType = ''application/json'', put_ServerSideEncryption = ''aws:kms'',
      put_SSEKMSKeyId = s3_store_kms_key_id store, put_Metadata = [(''sha256'', hexdigest sha256 ?body)]\<rparr>"
  have put: "put_object client ?args s = (Inr (), s')" and ref: "ref_uri ref = ''s3://'' @ s3_store_bucket store @ ''/'' @ ?key"
    "ref_sha256 ref = hexdigest sha256 ?body"
    using assms(2) by (auto simp: s3_put_json_def encode_artifact_def Let_def split: prod.splits sum.splits)
  have "s3_presign_get client store (ref_uri ref) expires s2 =
      (case generate_presigned_url client (s3_store_bucket store) ?key expires s2 of Inl e \<Rightarrow> Inl e | Inr url \<Rightarrow> Inr (Some url))"
    using s3_uri_roundtrip [of "s3_store_bucket store" ?key] s3_uri_prefix [of "s3_store_bucket store" ?key]
    by (simp only: s3_presign_get_def Let_def ref(1) not_True_eq_False if_False)
  then show ?thesis using put ref(2) store by (intro exI [of _ ?args]) (simp add: s3_key_def)
qed

theorem s3_artifact_encrypted_witness:
  "\<exists>store ref. build_artifact_store (default_settings\<lparr>artifact_backend := ''s3'', s3_bucket := ''b'', s3_kms_key_id := ''k''\<rparr>) =
       Inr (S3Store store) \<and>
     s3_put_json sample_s3 sample_digest store ''acme'' ''r1'' JNull () = (Inr ref, ()) \<and>
     s3_presign_get sample_s3 store (ref_uri ref) 60 () = Inr (Some ''https://b/privacy-artifacts/acme/r1.json'')"
proof -
  let ?cfg = "default_settings\<lparr>artifact_backend := ''s3'', s3_bucket := ''b'', s3_kms_key_id := ''k''\<rparr>"
  obtain store where store: "build_artifact_store ?cfg = Inr (S3Store store)"
    by (simp add: build_artifact_store_def make_s3_store_def)
  have "\<not> isl (fst (s3_put_json sample_s3 sample_digest store ''acme'' ''r1'' JNull ()))"
    by (simp add: s3_put_json_def sample_s3_def Let_def split: prod.splits)
  then obtain ref where put: "s3_put_json sample_s3 sample_digest store ''acme'' ''r1'' JNull () = (Inr ref, ())"
    by (cases "s3_put_json sample_s3 sample_digest store ''acme'' ''r1'' JNull ()"; cases
        "fst (s3_put_json sample_s3 sample_digest store ''acme'' ''r1'' JNull ())") auto
  have "strip_char CHR ''/'' (s3_prefix ?cfg) = ''privacy-artifacts''"
    by (simp add: default_settings_def strip_char_def rstrip_char_def)
  with s3_artifact_encrypted [OF store put, of 60 "()"] store put show ?thesis
    by (auto simp: sample_s3_def)
qed

end
