(* ===== verification/Application.thy ===== *)
theory Application
  imports Isolation Routes_Props
begin

text \<open>
  \<open>main.py\<close> and \<open>db.py\<close>: the engine that the settings ask for, the start of the application, and the
  middleware that serializes write requests on SQLite. A handler is a program whose steps are its
  database transactions; the requests of many clients interleave step by step. What the routes do
  when nothing interferes are the functions of \<open>Routes\<close>.
\<close>

section \<open>The engine\<close>

text \<open>
  \<open>create_async_engine\<close> with its arguments; the pool arguments are passed or left out together.
\<close>

record pool_arguments =
  pool_size :: int
  max_overflow :: int
  pool_timeout :: int

record engine =
  eng_url :: string
  eng_pool_pre_ping :: bool
  eng_pool :: "pool_arguments option"

definition build_engine :: "settings \<Rightarrow> string option \<Rightarrow> engine" where
  "build_engine cfg url_argument =
     (let url = (case url_argument of None \<Rightarrow> database_url cfg | Some u \<Rightarrow> if u = [] then database_url cfg else u)
      in \<lparr>eng_url = url, eng_pool_pre_ping = True,
          eng_pool = (if py_startswith url ''sqlite'' then None
                      else Some \<lparr>pool_size = database_pool_size cfg, max_overflow = database_max_overflow cfg,
                                  pool_timeout = database_pool_timeout_seconds cfg\<rparr>)\<rparr>)"

text \<open>The start of the application: \<open>create_all\<close> creates the tables that are missing and keeps the others.\<close>

definition create_all :: "cloud option \<Rightarrow> cloud" where
  "create_all existing = (case existing of None \<Rightarrow> empty_cloud | Some d \<Rightarrow> d)"

section \<open>Handlers as programs\<close>

text \<open>
  \<open>Tx f k\<close> is one transaction: it takes the state \<open>w\<close> to \<open>f w\<close> and goes on with \<open>k w\<close>, which has seen
  what the transaction read.
\<close>

datatype 'w program = Answer reply | Tx "'w \<Rightarrow> 'w" "'w \<Rightarrow> 'w program"

primrec run :: "'w program \<Rightarrow> 'w \<Rightarrow> reply \<times> 'w" where
  "run (Answer r) = (\<lambda>w. (r, w))"
| "run (Tx f k) = (\<lambda>w. run (k w) (f w))"

primrec read_only :: "'w program \<Rightarrow> bool" where
  "read_only (Answer r) = True"
| "read_only (Tx f k) = (f = id \<and> (\<forall>w. read_only (k w)))"

text \<open>The tenant dependency in front of a program, as \<open>with_tenant\<close> is in front of a handler.\<close>

definition guarded ::
    "settings \<Rightarrow> headers \<Rightarrow> validation_error list \<Rightarrow> (string \<Rightarrow> 'w program) \<Rightarrow> 'w program" where
  "guarded cfg hs others handler =
     (if tenant_errors hs \<noteq> [] then Answer (authentication_validation_handler (tenant_errors hs @ others))
      else case tenant_context (api_key cfg) (the (h_tenant_id hs)) (the (h_api_key hs)) of
             Inl e \<Rightarrow> Answer (error_reply e)
           | Inr tenant_id \<Rightarrow>
               if others \<noteq> [] then Answer (authentication_validation_handler others) else handler tenant_id)"

lemma run_guarded: "run (guarded cfg hs others handler) w = with_tenant cfg hs others (\<lambda>tn. run (handler tn) w) w"
  by (simp add: guarded_def with_tenant_def split: sum.splits)

text \<open>A handler that reads and answers.\<close>

definition reading :: "('w \<Rightarrow> reply) \<Rightarrow> 'w program" where
  "reading answer = Tx id (\<lambda>w. Answer (answer w))"

lemma reading_simps [simp]: "run (reading answer) w = (answer w, w)" "read_only (reading answer)"
  by (simp_all add: reading_def)

section \<open>The interface of the application\<close>

text \<open>
  What a deployment fixes: the settings, the digest, the stream of identifiers, the dialect, the
  artifact store, the S3 client, the printing of the metrics and the file system as the download route
  sees them.
\<close>

record 'st site =
  si_settings :: settings
  si_sha256 :: digest_fn
  si_uuid :: uuid_stream
  si_dialect :: dialect
  si_row_locked :: "string \<Rightarrow> bool"
  si_put_json :: "string \<Rightarrow> string \<Rightarrow> json \<Rightarrow> 'st \<Rightarrow> (error + artifact_reference) \<times> 'st"
  si_s3 :: "'st s3_client"
  si_generate_latest :: "sample list \<Rightarrow> string"
  si_cwd :: "string list"
  si_is_file :: "'st \<Rightarrow> string list \<Rightarrow> bool"

definition site_env :: "'st site \<Rightarrow> time \<Rightarrow> 'st env" where
  "site_env site now = \<lparr>e_sha256 = si_sha256 site, e_uuid = si_uuid site, e_now = now, e_settings = si_settings site,
     e_put_json = si_put_json site, e_late_records = []\<rparr>"

text \<open>
  A call of one of the routes: its headers, its parameters before validation, and the readings of
  the clock while it is served.
\<close>

datatype api_call =
    CreateRequest headers string string "string list option" time
  | ListRequests headers "string option" int int
  | GetRequest headers string
  | DownloadArtifact headers string
  | Seed headers string "int option" time
  | ProcessOnce headers string "int option" "nat \<Rightarrow> time"
  | AuditChain headers
  | Healthz
  | HealthAlias
  | MetricsPage

fun method_of :: "api_call \<Rightarrow> string" where
  "method_of (CreateRequest hs key kind sources now) = ''POST''"
| "method_of (ListRequests hs status n offset) = ''GET''"
| "method_of (GetRequest hs request_id) = ''GET''"
| "method_of (DownloadArtifact hs request_id) = ''GET''"
| "method_of (Seed hs key n now) = ''POST''"
| "method_of (ProcessOnce hs worker_id batch_size clock) = ''POST''"
| "method_of (AuditChain hs) = ''GET''"
| "method_of Healthz = ''GET''"
| "method_of HealthAlias = ''GET''"
| "method_of MetricsPage = ''GET''"

text \<open>The path under the prefix that \<open>create_app\<close> mounts the router at.\<close>

fun path_of :: "api_call \<Rightarrow> string" where
  "path_of (CreateRequest hs key kind sources now) = ''/v1/privacy-requests''"
| "path_of (ListRequests hs status n offset) = ''/v1/privacy-requests''"
| "path_of (GetRequest hs request_id) = ''/v1/privacy-requests/'' @ request_id"
| "path_of (DownloadArtifact hs request_id) = ''/v1/privacy-requests/'' @ request_id @ ''/artifact''"
| "path_of (Seed hs key n now) = ''/v1/admin/seed''"
| "path_of (ProcessOnce hs worker_id batch_size clock) = ''/v1/admin/process-once''"
| "path_of (AuditChain hs) = ''/v1/tenants/audit-chain''"
| "path_of Healthz = ''/v1/healthz''"
| "path_of HealthAlias = ''/v1/health''"
| "path_of MetricsPage = ''/v1/metrics''"

text \<open>What a call does when nothing interferes: the route's function on the whole state.\<close>

definition on_db :: "(cloud \<Rightarrow> reply \<times> cloud) \<Rightarrow> cloud \<times> 'st \<Rightarrow> reply \<times> cloud \<times> 'st" where
  "on_db f w = (case f (fst w) of (r, d) \<Rightarrow> (r, d, snd w))"

fun serve :: "'st site \<Rightarrow> api_call \<Rightarrow> cloud \<times> 'st \<Rightarrow> reply \<times> cloud \<times> 'st" where
  "serve site (CreateRequest hs key kind sources now) w =
     on_db (create_request (si_settings site) (si_sha256 site) (si_uuid site) now hs
       (make_privacy_request_create key kind sources)) w"
| "serve site (ListRequests hs status n offset) w = on_db (list_requests (si_settings site) hs status n offset) w"
| "serve site (GetRequest hs request_id) w = on_db (get_request (si_settings site) hs request_id) w"
| "serve site (DownloadArtifact hs request_id) w =
     on_db (download_artifact (si_settings site) (si_s3 site) (si_cwd site) (si_is_file site (snd w)) hs request_id (snd w)) w"
| "serve site (Seed hs key n now) w =
     on_db (seed (si_settings site) (si_sha256 site) (si_uuid site) now hs (make_seed_records_request key n)) w"
| "serve site (ProcessOnce hs worker_id batch_size clock) w =
     run_worker_once (si_settings site) (si_dialect site) (si_row_locked site) (\<lambda>k. site_env site (clock k)) hs
       worker_id batch_size w"
| "serve site (AuditChain hs) w = on_db (audit_chain (si_settings site) (si_sha256 site) hs) w"
| "serve site Healthz w = on_db health w"
| "serve site HealthAlias w = on_db health_alias w"
| "serve site MetricsPage w = on_db (metrics (si_generate_latest site)) w"

section \<open>The transactions of a call\<close>

text \<open>The intake reads the key first and inserts in a second transaction.\<close>

definition create_program ::
    "'st site \<Rightarrow> headers \<Rightarrow> error + privacy_request_create \<Rightarrow> time \<Rightarrow> (cloud \<times> 'st) program" where
  "create_program site hs command now =
     guarded (si_settings site) hs (create_errors hs command)
       (\<lambda>tenant_id. Tx id (\<lambda>w0.
          let intake = (\<lambda>w. create_reply (create_privacy_request_racing (si_sha256 site) (si_uuid site) now tenant_id
                               (the (h_idempotency_key hs)) (projr command) (fst w0) (fst w)))
          in Tx (\<lambda>w. (snd (intake w), snd w)) (\<lambda>w. Answer (fst (intake w)))))"

definition seed_program ::
    "'st site \<Rightarrow> headers \<Rightarrow> error + seed_records_request \<Rightarrow> time \<Rightarrow> (cloud \<times> 'st) program" where
  "seed_program site hs command now =
     guarded (si_settings site) hs (command_errors command)
       (\<lambda>tenant_id.
          let rows = (\<lambda>w. seed_records (si_sha256 site) (si_uuid site) now tenant_id (projr command) (fst w))
          in Tx (\<lambda>w. (snd (rows w), snd w))
               (\<lambda>w. Answer (case fst (rows w) of Inl e \<Rightarrow> error_reply e | Inr n \<Rightarrow> (201, Created n))))"

text \<open>A worker pass loads each claimed task in one transaction and commits its outcome in the next.\<close>

fun execute_program ::
    "(nat \<Rightarrow> 'st env) \<Rightarrow> string \<Rightarrow> nat \<Rightarrow> string list \<Rightarrow> nat \<Rightarrow> nat \<Rightarrow> (cloud \<times> 'st) program" where
  "execute_program envs worker_id claimed [] k succeeded =
     Answer (200, Pass \<lparr>p_claimed = claimed, p_succeeded = succeeded, p_failed = claimed - succeeded\<rparr>)"
| "execute_program envs worker_id claimed (task_id # ids) k succeeded =
     Tx id (\<lambda>w0.
       case load_task (fst w0) task_id worker_id of
         Inl e \<Rightarrow> Answer (error_reply e)
       | Inr None \<Rightarrow> execute_program envs worker_id claimed ids (k + 1) succeeded
       | Inr (Some task) \<Rightarrow>
           (case find (\<lambda>r. pr_id r = rt_request_id task) (requests (fst w0)) of
              None \<Rightarrow> Answer (error_reply (AttributeError ''kind''))
            | Some request \<Rightarrow>
                (let finish = (\<lambda>w. finish_task (envs k) None task request (fst w) (snd w)) in
                 Tx (\<lambda>w. snd (finish w))
                    (\<lambda>w. case fst (finish w) of
                           Inl e \<Rightarrow> Answer (error_reply e)
                         | Inr ok \<Rightarrow> execute_program envs worker_id claimed ids (k + 1)
                                        (succeeded + (if ok then 1 else 0))))))"

definition worker_program ::
    "'st site \<Rightarrow> headers \<Rightarrow> string \<Rightarrow> int option \<Rightarrow> (nat \<Rightarrow> time) \<Rightarrow> (cloud \<times> 'st) program" where
  "worker_program site hs worker_id batch_size clock =
     (let envs = (\<lambda>k. site_env site (clock k)) in
      guarded (si_settings site) hs (worker_errors worker_id batch_size)
        (\<lambda>tenant_id.
           let owner = scoped_worker_id tenant_id worker_id;
               claim = (\<lambda>w. claim_tasks (si_dialect site) (si_row_locked site) (envs 0) owner (Some tenant_id)
                              (map_option nat batch_size) None (fst w))
           in Tx (\<lambda>w. (snd (claim w), snd w))
                (\<lambda>w. execute_program envs owner (length (fst (claim w))) (fst (claim w)) 1 0)))"

fun program_of :: "'st site \<Rightarrow> api_call \<Rightarrow> (cloud \<times> 'st) program" where
  "program_of site (CreateRequest hs key kind sources now) =
     create_program site hs (make_privacy_request_create key kind sources) now"
| "program_of site (Seed hs key n now) = seed_program site hs (make_seed_records_request key n) now"
| "program_of site (ProcessOnce hs worker_id batch_size clock) = worker_program site hs worker_id batch_size clock"
| "program_of site call = reading (\<lambda>w. fst (serve site call w))"

text \<open>Run without interference, the transactions of a call do what the route does.\<close>

lemma run_create:
  "run (create_program site hs command now) w =
     on_db (create_request (si_settings site) (si_sha256 site) (si_uuid site) now hs command) w"
  unfolding create_program_def run_guarded create_request_def on_db_def create_privacy_request_def
  by (auto simp: with_tenant_def Let_def split: sum.splits prod.splits)

lemma run_seed:
  "run (seed_program site hs command now) w =
     on_db (seed (si_settings site) (si_sha256 site) (si_uuid site) now hs command) w"
  unfolding seed_program_def run_guarded seed_def on_db_def
  by (auto simp: with_tenant_def Let_def split: sum.splits prod.splits)

lemma run_execute:
  "run (execute_program envs worker_id claimed ids k n) (d, st) =
     (case execute_all envs worker_id ids k n d st of
        (Inl e, w') \<Rightarrow> (error_reply e, w')
      | (Inr m, w') \<Rightarrow> ((200, Pass \<lparr>p_claimed = claimed, p_succeeded = m, p_failed = claimed - m\<rparr>), w'))"
proof (induction ids arbitrary: k n d st)
  case (Cons i ids)
  then show ?case
    by (auto simp: execute_task_def Let_def split: sum.splits option.splits prod.splits)
qed simp

lemma run_worker_program:
  "run (worker_program site hs worker_id batch_size clock) w =
     run_worker_once (si_settings site) (si_dialect site) (si_row_locked site) (\<lambda>k. site_env site (clock k)) hs
       worker_id batch_size w"
  unfolding worker_program_def run_worker_once_def Let_def run_guarded
  by (auto simp: with_tenant_def process_once_def run_execute split: sum.splits prod.splits)

lemma read_routes:
  "snd (on_db (list_requests cfg hs status n offset) w) = w"
  "snd (on_db (get_request cfg hs i) w) = w"
  "snd (on_db (download_artifact cfg client cwd is_file hs i s) w) = w"
  "snd (on_db (audit_chain cfg sha256 hs) w) = w"
  "snd (on_db health w) = w" "snd (on_db health_alias w) = w" "snd (on_db (metrics generate_latest) w) = w"
  by (auto simp: on_db_def list_requests_def get_request_def download_artifact_def artifact_reply_def audit_chain_def
      health_def health_alias_def metrics_def with_tenant_def Let_def split: sum.splits option.splits prod.splits if_splits)

lemma run_program_of: "run (program_of site call) w = serve site call w"
  by (cases call) (simp_all add: run_create run_seed run_worker_program read_routes prod_eq_iff)

section \<open>The middleware\<close>

fun dialect_name :: "dialect \<Rightarrow> string" where
  "dialect_name PostgreSQL = ''postgresql''"
| "dialect_name SQLite = ''sqlite''"

text \<open>Whether \<open>serialize_sqlite_writes\<close> takes the lock around the call.\<close>

definition takes_lock :: "dialect \<Rightarrow> api_call \<Rightarrow> bool" where
  "takes_lock dialect call \<longleftrightarrow>
     dialect_name dialect = ''sqlite'' \<and> method_of call \<in> {''POST'', ''PUT'', ''PATCH'', ''DELETE''}"

text \<open>
  The application while it serves: the state, the asyncio lock with the calls that wait for it, the
  calls whose handlers run with what is left of their programs, and three logs: the calls that take
  the lock in the order of arrival (those that gave up waiting left out), in the order in which they
  got it, and the replies.
\<close>

record 'st app =
  a_state :: "cloud \<times> 'st"
  a_locked :: bool
  a_waiters :: "api_call list"
  a_running :: "(api_call \<times> (cloud \<times> 'st) program) list"
  a_arrived :: "api_call list"
  a_entered :: "api_call list"
  a_replies :: "(api_call \<times> reply) list"

definition start_app :: "cloud option \<Rightarrow> 'st \<Rightarrow> 'st app" where
  "start_app existing st = \<lparr>a_state = (create_all existing, st), a_locked = False, a_waiters = [], a_running = [],
     a_arrived = [], a_entered = [], a_replies = []\<rparr>"

text \<open>A call gets the lock and its handler begins.\<close>

definition enter :: "'st site \<Rightarrow> api_call \<Rightarrow> 'st app \<Rightarrow> 'st app" where
  "enter site call s = s\<lparr>a_locked := True, a_running := a_running s @ [(call, program_of site call)],
     a_entered := a_entered s @ [call]\<rparr>"

text \<open>
  The lock is taken at once only when it is free and nobody waits; a release wakes the waiter at the
  front. A waiter may be cancelled.
\<close>

inductive app_step :: "'st site \<Rightarrow> 'st app \<Rightarrow> 'st app \<Rightarrow> bool"
  for site :: "'st site" where
  unlocked: "\<not> takes_lock (si_dialect site) call \<Longrightarrow>
     app_step site s (s\<lparr>a_running := a_running s @ [(call, program_of site call)]\<rparr>)"
| acquire: "takes_lock (si_dialect site) call \<Longrightarrow> \<not> a_locked s \<Longrightarrow> a_waiters s = [] \<Longrightarrow>
     app_step site s (enter site call (s\<lparr>a_arrived := a_arrived s @ [call]\<rparr>))"
| enqueue: "takes_lock (si_dialect site) call \<Longrightarrow> a_locked s \<or> a_waiters s \<noteq> [] \<Longrightarrow>
     app_step site s (s\<lparr>a_waiters := a_waiters s @ [call], a_arrived := a_arrived s @ [call]\<rparr>)"
| wake: "\<not> a_locked s \<Longrightarrow> a_waiters s = call # cs \<Longrightarrow>
     app_step site s (enter site call (s\<lparr>a_waiters := cs\<rparr>))"
| cancel: "a_waiters s = xs @ call # ys \<Longrightarrow>
     app_step site s (s\<lparr>a_waiters := xs @ ys, a_arrived := a_entered s @ xs @ ys\<rparr>)"
| transaction: "a_running s = xs @ (call, Tx f k) # ys \<Longrightarrow>
     app_step site s (s\<lparr>a_state := f (a_state s), a_running := xs @ (call, k (a_state s)) # ys\<rparr>)"
| answer: "a_running s = xs @ (call, Answer r) # ys \<Longrightarrow>
     app_step site s (s\<lparr>a_running := xs @ ys, a_replies := a_replies s @ [(call, r)],
       a_locked := (if takes_lock (si_dialect site) call then False else a_locked s)\<rparr>)"

inductive app_reachable :: "'st site \<Rightarrow> cloud \<times> 'st \<Rightarrow> 'st app \<Rightarrow> bool"
  for site :: "'st site" and w0 :: "cloud \<times> 'st" where
  start: "w0 = (create_all existing, st) \<Longrightarrow> app_reachable site w0 (start_app existing st)"
| more: "app_reachable site w0 s \<Longrightarrow> app_step site s s' \<Longrightarrow> app_reachable site w0 s'"

section \<open>Serial execution\<close>

text \<open>The calls served one after the other.\<close>

fun serve_all :: "'st site \<Rightarrow> api_call list \<Rightarrow> cloud \<times> 'st \<Rightarrow> reply list \<times> cloud \<times> 'st" where
  "serve_all site [] w = ([], w)"
| "serve_all site (call # calls) w =
     (case serve site call w of (r, w1) \<Rightarrow> (case serve_all site calls w1 of (rs, w2) \<Rightarrow> (r # rs, w2)))"

lemma serve_all_snoc:
  "serve_all site (calls @ [call]) w =
     (case serve_all site calls w of (rs, w1) \<Rightarrow> (case serve site call w1 of (r, w2) \<Rightarrow> (rs @ [r], w2)))"
  by (induction calls arbitrary: w) (auto split: prod.splits)

text \<open>
  The writers that run, the replies they have got, and what both come to when the running writer
  is left alone until it answers.
\<close>

definition writing :: "'st site \<Rightarrow> api_call \<times> 'x \<Rightarrow> bool" where
  "writing site x \<longleftrightarrow> takes_lock (si_dialect site) (fst x)"

fun left_alone :: "reply list \<Rightarrow> (api_call \<times> (cloud \<times> 'st) program) list \<Rightarrow> cloud \<times> 'st \<Rightarrow> reply list \<times> cloud \<times> 'st" where
  "left_alone rs [] w = (rs, w)"
| "left_alone rs ((call, p) # ps) w = (case run p w of (r, w') \<Rightarrow> (rs @ [r], w'))"

definition settled_outcome :: "'st site \<Rightarrow> 'st app \<Rightarrow> reply list \<times> cloud \<times> 'st" where
  "settled_outcome site s =
     left_alone (map snd (filter (writing site) (a_replies s))) (filter (writing site) (a_running s)) (a_state s)"

definition app_ok :: "'st site \<Rightarrow> cloud \<times> 'st \<Rightarrow> 'st app \<Rightarrow> bool" where
  "app_ok site w0 s \<longleftrightarrow>
     length (filter (writing site) (a_running s)) = (if a_locked s then 1 else 0) \<and>
     list_all (\<lambda>x. \<not> writing site x \<longrightarrow> read_only (snd x)) (a_running s) \<and>
     list_all (takes_lock (si_dialect site)) (a_waiters s) \<and>
     a_arrived s = a_entered s @ a_waiters s \<and>
     settled_outcome site s = serve_all site (a_entered s) w0"

lemma sqlite_writers: "si_dialect site = SQLite \<Longrightarrow> \<not> takes_lock (si_dialect site) call \<Longrightarrow> read_only (program_of site call)"
  by (cases call) (simp_all add: takes_lock_def)

lemma enter_ok:
  assumes "app_ok site w0 s" and "\<not> a_locked s" and "takes_lock (si_dialect site) call"
    and "list_all (takes_lock (si_dialect site)) ws" and "s0 = s\<lparr>a_waiters := ws, a_arrived := a_entered s @ call # ws\<rparr>"
  shows "app_ok site w0 (enter site call s0)"
proof -
  have none: "filter (writing site) (a_running s) = []" using assms(1,2) by (simp add: app_ok_def)
  have w: "writing site (call, p)" for p :: "(cloud \<times> 'a) program" using assms(3) by (simp add: writing_def)
  have "serve_all site (a_entered s) w0 = (map snd (filter (writing site) (a_replies s)), a_state s)"
    using assms(1) none by (simp add: app_ok_def settled_outcome_def)
  then show ?thesis
    using assms none w
    by (simp add: app_ok_def enter_def settled_outcome_def serve_all_snoc run_program_of split: prod.splits)
qed

lemma app_step_ok:
  assumes "si_dialect site = SQLite" and "app_ok site w0 s" and "app_step site s s'"
  shows "app_ok site w0 s'"
  using assms(3)
proof cases
  case (unlocked call)
  then have "\<not> writing site (call, p)" for p :: "(cloud \<times> 'a) program" by (simp add: writing_def)
  then show ?thesis using assms(2) unlocked sqlite_writers [OF assms(1) unlocked(2)]
    by (simp add: app_ok_def settled_outcome_def)
next
  case (acquire call)
  then have "s\<lparr>a_arrived := a_arrived s @ [call]\<rparr> = s\<lparr>a_waiters := [], a_arrived := a_entered s @ [call]\<rparr>"
    using assms(2) by (simp add: app_ok_def)
  from enter_ok [OF assms(2) acquire(3,2) _ this] show ?thesis unfolding acquire(1) by simp
next
  case (enqueue call)
  then show ?thesis using assms(2) by (simp add: app_ok_def settled_outcome_def)
next
  case (wake call cs)
  then have "s\<lparr>a_waiters := cs\<rparr> = s\<lparr>a_waiters := cs, a_arrived := a_entered s @ call # cs\<rparr>"
    using assms(2) by (simp add: app_ok_def)
  from enter_ok [OF assms(2) wake(2) _ _ this] show ?thesis
    using assms(2) wake(3) unfolding wake(1) by (simp add: app_ok_def)
next
  case (cancel xs call ys)
  then show ?thesis using assms(2) by (simp add: app_ok_def settled_outcome_def)
next
  case (transaction xs call f k ys)
  show ?thesis
  proof (cases "takes_lock (si_dialect site) call")
    case True
    then have "filter (writing site) xs = []" "filter (writing site) ys = []" 
      using assms(2) transaction by (simp_all add: app_ok_def writing_def split: if_splits)
    then show ?thesis using True assms(2) transaction by (simp add: app_ok_def settled_outcome_def writing_def)
  next
    case False
    then have "read_only (Tx f k)" using assms(2) transaction by (simp add: app_ok_def writing_def)
    then have "f = id" "read_only (k (a_state s))" by (metis read_only.simps(2))+
    with False show ?thesis using assms(2) transaction by (simp add: app_ok_def settled_outcome_def writing_def)
  qed
next
  case (answer xs call r ys)
  show ?thesis
  proof (cases "takes_lock (si_dialect site) call")
    case True
    then have "filter (writing site) xs = []" "filter (writing site) ys = []" "a_locked s"
      using assms(2) answer by (simp_all add: app_ok_def writing_def split: if_splits)
    then show ?thesis using True assms(2) answer by (simp add: app_ok_def settled_outcome_def writing_def)
  next
    case False
    with assms(2) answer show ?thesis by (simp add: app_ok_def settled_outcome_def writing_def)
  qed
qed

lemma app_reachable_ok:
  assumes "app_reachable site w0 s" and "si_dialect site = SQLite"
  shows "app_ok site w0 s"
  using assms(1)
proof (induction rule: app_reachable.induct)
  case (start existing st)
  then show ?case by (simp add: app_ok_def start_app_def settled_outcome_def)
next
  case (more s s')
  then show ?case using app_step_ok [OF assms(2)] by blast
qed

section \<open>Properties\<close>

text \<open>
  C12. On SQLite the write requests are serial: whatever requests arrive and however their
  transactions interleave with those of the reads, at most one write handler runs at a time, the
  writers enter in the order of arrival, and the replies and the final state are those of the
  routes called one after the other in that order (for the writer that runs, once it is left alone
  until it answers). Nobody waits in vain: while calls wait, a writer runs or the first of them can
  enter.
\<close>

theorem sqlite_writes_serial:
  assumes "app_reachable site w0 s" and "si_dialect site = SQLite"
  shows "length (filter (writing site) (a_running s)) \<le> 1 \<and>
    a_arrived s = a_entered s @ a_waiters s \<and>
    settled_outcome site s = serve_all site (a_entered s) w0 \<and>
    (a_waiters s \<noteq> [] \<longrightarrow> filter (writing site) (a_running s) \<noteq> [] \<or>
      (\<exists>s'. app_step site s s' \<and> a_entered s' = a_entered s @ [hd (a_waiters s)] \<and> a_waiters s' = tl (a_waiters s)))"
proof -
  have ok: "app_ok site w0 s" by (rule app_reachable_ok [OF assms])
  have "\<exists>s'. app_step site s s' \<and> a_entered s' = a_entered s @ [hd (a_waiters s)] \<and> a_waiters s' = tl (a_waiters s)"
    if free: "a_waiters s \<noteq> []" "filter (writing site) (a_running s) = []"
  proof -
    have "\<not> a_locked s" using ok free(2) by (auto simp: app_ok_def)
    moreover have "a_waiters s = hd (a_waiters s) # tl (a_waiters s)" using free(1) by simp
    ultimately have "app_step site s (enter site (hd (a_waiters s)) (s\<lparr>a_waiters := tl (a_waiters s)\<rparr>))" by (rule wake)
    moreover have "a_entered (enter site (hd (a_waiters s)) (s\<lparr>a_waiters := tl (a_waiters s)\<rparr>)) = a_entered s @ [hd (a_waiters s)]"
      "a_waiters (enter site (hd (a_waiters s)) (s\<lparr>a_waiters := tl (a_waiters s)\<rparr>)) = tl (a_waiters s)"
      by (simp_all add: enter_def)
    ultimately show ?thesis by blast
  qed
  with ok show ?thesis by (auto simp: app_ok_def)
qed

definition sample_site :: "unit site" where
  "sample_site = \<lparr>si_settings = default_settings, si_sha256 = sample_digest, si_uuid = sample_uuid, si_dialect = SQLite,
     si_row_locked = (\<lambda>_. False), si_put_json = e_put_json (sample_env 5), si_s3 = sample_s3, si_generate_latest = (\<lambda>_. ''metrics''), si_cwd = [''srv''],
     si_is_file = (\<lambda>_ _. False)\<rparr>"

definition sample_call :: "time \<Rightarrow> api_call" where
  "sample_call now = CreateRequest sample_headers ''ada@example.org'' ''delete'' None now"

theorem sqlite_writes_serial_witness:
  "\<exists>s. app_reachable sample_site (empty_cloud, ()) s \<and> a_waiters s = [sample_call 2] \<and>
     settled_outcome sample_site s = serve_all sample_site [sample_call 1] (empty_cloud, ())"
proof -
  let ?s0 = "start_app None () :: unit app"
  let ?s1 = "enter sample_site (sample_call 1) (?s0\<lparr>a_arrived := a_arrived ?s0 @ [sample_call 1]\<rparr>)"
  let ?s2 = "?s1\<lparr>a_waiters := a_waiters ?s1 @ [sample_call 2], a_arrived := a_arrived ?s1 @ [sample_call 2]\<rparr>"
  have lock: "takes_lock (si_dialect sample_site) (sample_call n)" for n
    by (simp add: takes_lock_def sample_site_def sample_call_def)
  have "app_reachable sample_site (empty_cloud, ()) ?s0"
    by (rule app_reachable.start) (simp add: create_all_def)
  then have "app_reachable sample_site (empty_cloud, ()) ?s1"
    by (rule app_reachable.more) (rule app_step.acquire, rule lock, simp_all add: start_app_def)
  then have reach: "app_reachable sample_site (empty_cloud, ()) ?s2"
    by (rule app_reachable.more) (rule app_step.enqueue, rule lock, simp add: enter_def)
  have "si_dialect sample_site = SQLite" by (simp add: sample_site_def)
  from sqlite_writes_serial [OF reach this]
  have "settled_outcome sample_site ?s2 = serve_all sample_site (a_entered ?s2) (empty_cloud, ())" by blast
  with reach show ?thesis by (intro exI [of _ ?s2]) (simp add: enter_def start_app_def)
qed

end
