(* ===== verification/Drain.thy ===== *)
theory Drain
  imports Progress Application
begin

text \<open>
  Repeated worker passes of a tenant drain it: when no other worker interferes, enough calls of the
  process-once route settle every task of the tenant and bring every request to a final status. A
  request whose worker died between the commit of its last task and the refresh is the exception;
  no pass touches it again.
\<close>

section \<open>Open tasks of a tenant\<close>

definition open_of :: "string \<Rightarrow> cloud \<Rightarrow> request_task list" where
  "open_of tn d = filter (\<lambda>t. \<not> settled t \<and> rt_tenant_id t = tn) (tasks d)"

lemma open_tasks_split:
  "open_tasks d = length (open_of tn d) + length (filter (\<lambda>t. \<not> settled t) (fst (snd (foreign_rows tn d))))"
  using length_filter_split [of "\<lambda>t. \<not> settled t" "tasks d" "\<lambda>t. rt_tenant_id t = tn"]
  by (simp add: open_tasks_def open_of_def foreign_rows_def conj_commute)

text \<open>A request with tasks has an open one or a final status, unless its last refresh got lost.\<close>

definition has_open :: "cloud \<Rightarrow> string \<Rightarrow> bool" where
  "has_open d i \<longleftrightarrow> (\<exists>t \<in> set (tasks d). rt_request_id t = i \<and> \<not> settled t)"

definition has_task :: "cloud \<Rightarrow> string \<Rightarrow> bool" where
  "has_task d i \<longleftrightarrow> (\<exists>t \<in> set (tasks d). rt_request_id t = i)"

definition not_stranded :: "cloud \<Rightarrow> bool" where
  "not_stranded d \<longleftrightarrow>
     (\<forall>r \<in> set (requests d). has_task d (pr_id r) \<longrightarrow> has_open d (pr_id r) \<or> terminal_status (pr_status r))"

lemma has_task_frame:
  assumes "map task_frame (tasks d') = map task_frame (tasks d)"
  shows "has_task d' i = has_task d i"
proof -
  have "has_task x i \<longleftrightarrow> i \<in> (\<lambda>f. fst (snd f)) ` set (map task_frame (tasks x))" for x
    by (force simp: has_task_def task_frame_def)
  then show ?thesis using assms by (simp del: set_map)
qed

lemma settled_derived:
  assumes "has_task d i" and "\<not> has_open d i"
  shows "terminal_status (derived_status (statuses d i))"
proof -
  from assms(1) obtain t where "t \<in> set (tasks d)" "rt_request_id t = i" by (auto simp: has_task_def)
  then have "rt_status t \<in> statuses d i" by (auto simp: statuses_member)
  then have "statuses d i \<noteq> {}" by blast
  moreover have "statuses d i \<subseteq> {T_SUCCEEDED, T_FAILED}"
    using assms(2) by (auto simp: statuses_member has_open_def settled_def)
  ultimately show ?thesis by (simp add: terminal_derived)
qed

lemma sources_have_tasks:
  assumes "core_ok sha256 d" and "r \<in> set (requests d)" and "pr_requested_sources r \<noteq> []"
  shows "has_task d (pr_id r)"
proof -
  have "map rt_source (request_tasks d (pr_id r)) = pr_requested_sources r" using assms(1,2) by (simp add: core_ok_def parents_ok_def)
  then have "request_tasks d (pr_id r) \<noteq> []" using assms(3) by auto
  then obtain s where "s \<in> set (request_tasks d (pr_id r))" by (cases "request_tasks d (pr_id r)") auto
  then show ?thesis by (auto simp: has_task_def in_request_tasks)
qed

section \<open>Claims and executions leave no request behind\<close>

lemma claim_not_stranded:
  assumes "keys_ok d" and "not_stranded d"
  shows "not_stranded (snd (claim_tasks dialect locked env w tn batch secs d))" (is "not_stranded ?d")
  unfolding not_stranded_def
proof (intro ballI impI)
  fix q assume q: "q \<in> set (requests ?d)" and ne: "has_task ?d (pr_id q)"
  from q obtain r where r: "r \<in> set (requests d)" "pr_id r = pr_id q" "terminal_status (pr_status r) \<longrightarrow> q = r"
    unfolding claim_tasks_requests by (cases rule: upd_where_elim) (auto simp: terminal_status_def)
  have "map task_frame (tasks ?d) = map task_frame (tasks d)" by (simp add: map_frame_upd_tasks)
  then have "has_task d (pr_id q)" using ne has_task_frame by blast
  then have "has_open d (pr_id q) \<or> terminal_status (pr_status r)" using assms(2) r(1,2) unfolding not_stranded_def by metis
  moreover have "has_open ?d (pr_id q)" if "has_open d (pr_id q)"
  proof -
    from that obtain t where t: "t \<in> set (tasks d)" "rt_request_id t = pr_id q" "\<not> settled t" by (auto simp: has_open_def)
    let ?f = "lease_task w (e_now env) (lease_until (e_now env) (or_default_int secs (lease_seconds (e_settings env))))"
    let ?t = "if rt_id t \<in> set (claim_ids dialect locked env tn batch d) then ?f t else t"
    have "?t \<in> set (tasks ?d)" using t(1) by (auto simp: in_upd_where)
    moreover have "rt_request_id ?t = pr_id q" "\<not> settled ?t" using t(2,3) by (simp_all add: settled_def)
    ultimately show ?thesis unfolding has_open_def by blast
  qed
  ultimately show "has_open ?d (pr_id q) \<or> terminal_status (pr_status q)" using r(3) by auto
qed

text \<open>The requests after an execution: the parent has the derived status, the others are as before.\<close>

lemma execute_requests:
  assumes "core_ok (e_sha256 env) d" and "late_ok env d" and "leased_to w d i"
    and "execute_task env None i w d st = (Inr ok, d', st')" and "q \<in> set (requests d')"
  shows "q \<in> set (requests d) \<and> \<not> (\<exists>t \<in> set (tasks d). rt_id t = i \<and> rt_request_id t = pr_id q) \<or>
    pr_status q = derived_status (statuses d' (pr_id q))"
proof -
  from execute_leased_finish [OF assms(1,3,4)] obtain t request where t: "t \<in> set (tasks d)" "rt_id t = i" "rt_status t = T_RUNNING"
    and r: "request \<in> set (requests d)" "pr_id request = rt_request_id t"
    and fin: "finish_task env None t request d st = (Inr ok, d', st')" by metis
  have only: "s = t" if "s \<in> set (tasks d)" "rt_id s = i" for s
    using key_inj [of rt_id "tasks d" s t] core_ok_keys [OF assms(1)] that t by (simp add: keys_ok_def)
  from fin show ?thesis
  proof (cases rule: finish_task_cases)
    case (committed outcome d1 d2 d3 x)
    then obtain status where ref: "refresh_request_status env (rt_request_id t) d3 st = (Inr status, d', st')"
      by (cases x) auto
    have k3: "keys_ok d3"
      by (rule core_ok_keys [OF append_audit_core [OF committed(3) committed_core [OF assms(1)
            live_snapshot [OF assms(1) t(1,3)] assms(2) committed(1,2)]]])
    have same: "statuses d' j = statuses d3 j" for j
      by (rule statuses_same_tasks) (use refresh_frame [OF k3 ref] in blast)
    have req3: "requests d3 = requests d1" using append_audit_eq [OF committed(3)] by (simp add: committed(2))
    from refresh_requests [OF k3 ref] obtain p art where s: "status = derived_status (statuses d3 (rt_request_id t))"
      and req: "requests d' = upd_where (\<lambda>s. pr_id s = rt_request_id t) (refreshed env p status art) (requests d1)"
      unfolding req3 by blast
    from assms(5) show ?thesis
      unfolding req
    proof (cases rule: upd_where_elim)
      case (changed s')
      then show ?thesis using same s by simp
    next
      case kept
      then have "q \<in> set (requests d) \<or> q \<in> set (requests (verifying env request d))"
        using run_source_requests [OF committed(1)] by auto
      then have "q \<in> set (requests d)"
        using kept(2) r(2) by (elim disjE) (simp_all add: verifying_def in_upd_where split: if_splits, force)
      moreover have "\<not> (\<exists>s \<in> set (tasks d). rt_id s = i \<and> rt_request_id s = pr_id q)" using kept(2) only by metis
      ultimately show ?thesis by blast
    qed
  qed simp
qed

lemma execute_not_stranded:
  assumes "core_ok (e_sha256 env) d" and "late_ok env d" and "leased_to w d i"
    and "execute_task env None i w d st = (Inr ok, d', st')" and "not_stranded d"
  shows "not_stranded d'"
  unfolding not_stranded_def
proof (intro ballI impI)
  fix q assume q: "q \<in> set (requests d')" and ne: "has_task d' (pr_id q)"
  from execute_leased_rows [OF assms(1-4)] obtain r f where r: "r \<in> set (tasks d)" "rt_id r = i"
    and f: "\<And>s. task_frame (f s) = task_frame s" and ts: "tasks d' = upd_where (\<lambda>s. rt_id s = rt_id r) f (tasks d)" by metis
  have frame: "has_task d' j = has_task d j" for j by (rule has_task_frame) (simp add: ts map_frame_upd_tasks f)
  from execute_requests [OF assms(1-4) q] show "has_open d' (pr_id q) \<or> terminal_status (pr_status q)"
  proof (elim disjE conjE)
    assume old: "q \<in> set (requests d)" and other: "\<not> (\<exists>t \<in> set (tasks d). rt_id t = i \<and> rt_request_id t = pr_id q)"
    have "has_open d (pr_id q) \<or> terminal_status (pr_status q)" using assms(5) old ne frame unfolding not_stranded_def by blast
    moreover have "has_open d' (pr_id q)" if "has_open d (pr_id q)"
    proof -
      from that obtain t where t: "t \<in> set (tasks d)" "rt_request_id t = pr_id q" "\<not> settled t" by (auto simp: has_open_def)
      then have "t \<in> set (tasks d')" using other r(2) unfolding ts by (intro upd_keeps) auto
      with t show ?thesis by (auto simp: has_open_def)
    qed
    ultimately show ?thesis by blast
  next
    assume "pr_status q = derived_status (statuses d' (pr_id q))"
    then show ?thesis using settled_derived [OF ne] by auto
  qed
qed

section \<open>A pass over one tenant\<close>

lemma execute_all_leftover:
  assumes "execute_all envs w ids k n d st = (Inr m, d', st')" and "cloud_ok sha256 d" and "distinct ids"
    and "\<And>i. i \<in> set ids \<Longrightarrow> leased_to w d i" and "not_stranded d"
    and "\<And>k. e_sha256 (envs k) = sha256" and "\<And>k. e_late_records (envs k) = []"
  shows "not_stranded d' \<and> (\<forall>t \<in> set (tasks d'). \<not> settled t \<longrightarrow> t \<in> set (tasks d) \<and> rt_id t \<notin> set ids)"
  using assms(1-5)
proof (induction ids arbitrary: k n d st)
  case (Cons i ids)
  obtain r d1 st1 where run: "execute_task (envs k) None i w d st = (r, d1, st1)" by (metis prod_cases3)
  then obtain ok where r: "r = Inr ok" and rest: "execute_all envs w ids (k + 1) (n + (if ok then 1 else 0)) d1 st1 = (Inr m, d', st')"
    using Cons.prems(1) by (auto split: sum.splits)
  have core: "core_ok (e_sha256 (envs k)) d" using Cons.prems(2) by (simp add: cloud_ok_def assms(6))
  then have late: "late_ok (envs k) d" by (simp add: late_ok_def assms(7) core_ok_def keys_ok_def)
  have li: "leased_to w d i" using Cons.prems(4) by simp
  note ex = execute_leased [OF core late li run [unfolded r]]
  have "cloud_ok sha256 d1" using execute_task_ok [OF _ late run] Cons.prems(2) assms(6) by simp
  moreover have "leased_to w d1 j" if "j \<in> set ids" for j
    using ex(2) [of j] Cons.prems(3,4) that by auto
  moreover have "not_stranded d1" by (rule execute_not_stranded [OF core late li run [unfolded r] Cons.prems(5)])
  ultimately have "not_stranded d' \<and> (\<forall>t \<in> set (tasks d'). \<not> settled t \<longrightarrow> t \<in> set (tasks d1) \<and> rt_id t \<notin> set ids)"
    using Cons.IH [OF rest] Cons.prems(3) by simp
  then show ?case using ex(3) by auto
qed simp

lemma claim_leftover:
  assumes "t \<in> set (tasks (snd (claim_tasks dialect locked env w tn batch secs d)))"
    and "rt_id t \<notin> set (fst (claim_tasks dialect locked env w tn batch secs d))"
  shows "t \<in> set (tasks d)"
  using assms unfolding claim_tasks_fst claim_tasks_tasks by (auto elim: upd_where_elim)

lemma pass_drains:
  assumes "cloud_ok sha256 d" and "ids_unused uuid d" and "\<not> collision sha256" and "\<And>k. store_accepts (envs k)"
    and "\<And>k. e_sha256 (envs k) = sha256" and "\<And>k. e_uuid (envs k) = uuid" and "\<And>k. e_late_records (envs k) = []"
    and "not_stranded d" and "\<And>t. t \<in> set (open_of tn d) \<Longrightarrow> claimable (e_now (envs 0)) t"
  obtains res d' st' where "process_once SQLite locked envs w (Some tn) (Some n) d st = (Inr res, d', st')"
    "cloud_ok sha256 d'" "ids_unused uuid d'" "not_stranded d'" "set (open_of tn d') \<subseteq> set (open_of tn d)"
    "length (open_of tn d') = length (open_of tn d) - or_default_nat (Some n) (worker_batch_size (e_settings (envs 0)))"
proof -
  obtain ids d1 m d' st' where p: "claim_tasks SQLite locked (envs 0) w (Some tn) (Some n) None d = (ids, d1)"
    "execute_all envs w ids 1 0 d1 st = (Inr m, d', st')" "cloud_ok sha256 d1" "distinct ids"
    "\<And>i. i \<in> set ids \<Longrightarrow> leased_to w d1 i" "cloud_ok sha256 d'" "ids_unused uuid d'"
    "process_once SQLite locked envs w (Some tn) (Some n) d st =
       (Inr \<lparr>p_claimed = length ids, p_succeeded = m, p_failed = length ids - m\<rparr>, d', st')"
    by (rule pass_returns [where envs = envs, OF assms(1-7)]) blast
  have k: "keys_ok d" using assms(1) by (simp add: cloud_ok_def core_ok_def)
  have "not_stranded d1" using claim_not_stranded [OF k assms(8)] p(1) by (metis snd_conv)
  note left = execute_all_leftover [OF p(2-5) this assms(5,7)]
  have "t \<in> set (tasks d)" if "t \<in> set (tasks d')" "\<not> settled t" for t
    using left that claim_leftover [of t SQLite locked "envs 0" w "Some tn" "Some n" None d] p(1) by auto
  then have sub: "set (open_of tn d') \<subseteq> set (open_of tn d)" by (auto simp: open_of_def)
  have "filter (\<lambda>t. claimable (e_now (envs 0)) t \<and> (\<forall>u. Some tn = Some u \<longrightarrow> rt_tenant_id t = u)) (tasks d) = open_of tn d"
    unfolding open_of_def using assms(9) settled_not_claimable by (intro filter_cong) (auto simp: open_of_def)
  with worker_pass_progress [where envs = envs, OF assms(1-7), of locked w "Some tn" "Some n" st] p(8)
  have count: "open_tasks d' + length ids = open_tasks d"
    "length ids = min (or_default_nat (Some n) (worker_batch_size (e_settings (envs 0)))) (length (open_of tn d))" by auto
  have "foreign_rows tn d' = foreign_rows tn d"
    by (rule process_once_others [OF assms(1,5,7) p(8)])
  then have "length (open_of tn d') + length ids = length (open_of tn d)"
    using count(1) open_tasks_split [of d tn] open_tasks_split [of d' tn] by simp
  then have "length (open_of tn d') = length (open_of tn d) - or_default_nat (Some n) (worker_batch_size (e_settings (envs 0)))"
    using count(2) by simp
  with that [OF p(8,6,7) _ sub] left show ?thesis by blast
qed

text \<open>
  A stranded request stays where it is: a pass claims no settled task, and with nothing to claim it
  changes nothing.
\<close>

lemma nothing_open_nothing_done:
  assumes "keys_ok d" and "open_of tn d = []"
  shows "process_once dialect locked envs w (Some tn) batch d st = (Inr \<lparr>p_claimed = 0, p_succeeded = 0, p_failed = 0\<rparr>, d, st)"
proof -
  have "filter (\<lambda>t. claimable (e_now (envs 0)) t \<and> rt_tenant_id t = tn \<and> \<not> lk (rt_id t)) (tasks d) = []" for lk
    using assms(2) settled_not_claimable by (auto simp: open_of_def filter_empty_conv)
  from this this [of "\<lambda>_. False"] have "claim_ids dialect locked (envs 0) (Some tn) batch d = []"
    by (cases dialect) (simp_all add: claim_ids_def claim_candidates_def)
  then have "claim_tasks dialect locked (envs 0) w (Some tn) batch None d = ([], d)"
    by (cases dialect) (simp_all add: claim_tasks_def Let_def upd_where_none)
  then show ?thesis by (simp add: process_once_def)
qed

section \<open>Repeated passes\<close>

lemma passes_drain:
  assumes "cloud_ok (si_sha256 site) d" and "ids_unused (si_uuid site) d" and "not_stranded d"
    and "\<forall>clock \<in> set clocks. \<forall>t \<in> set (open_of tn d). claimable (clock 0) t"
    and "\<not> collision (si_sha256 site)" and "\<forall>t r doc st. \<exists>ref st'. si_put_json site t r doc st = (Inr ref, st')"
    and "si_dialect site = SQLite" and "reaches (si_settings site) hs (worker_errors worker_id (Some n)) tn"
  shows "\<exists>rs d' st'. serve_all site (map (ProcessOnce hs worker_id (Some n)) clocks) (d, st) = (rs, d', st') \<and>
    list_all (\<lambda>r. fst r = 200) rs \<and> cloud_ok (si_sha256 site) d' \<and> not_stranded d' \<and>
    length (open_of tn d') = length (open_of tn d) - length clocks * nat n"
  using assms(1-4)
proof (induction clocks arbitrary: d st)
  case (Cons clock clocks)
  let ?envs = "\<lambda>k. site_env site (clock k)"
  have n: "1 \<le> n" using assms(8) by (auto simp: reaches_def worker_errors_def split: if_splits)
  have acc: "store_accepts (?envs k)" for k using assms(6) by (simp add: store_accepts_def site_env_def)
  obtain res d1 st1 where
    one: "process_once SQLite (si_row_locked site) ?envs (scoped_worker_id tn worker_id) (Some tn) (Some (nat n)) d st = (Inr res, d1, st1)"
    and d1: "cloud_ok (si_sha256 site) d1" "ids_unused (si_uuid site) d1" "not_stranded d1" "set (open_of tn d1) \<subseteq> set (open_of tn d)"
    "length (open_of tn d1) = length (open_of tn d) - or_default_nat (Some (nat n)) (worker_batch_size (e_settings (?envs 0)))"
    by (rule pass_drains [where envs = ?envs, OF Cons.prems(1,2) assms(5) acc _ _ _ Cons.prems(3)])
       (use Cons.prems(4) in \<open>auto simp: site_env_def\<close>)
  have call: "serve site (ProcessOnce hs worker_id (Some n) clock) (d, st) = ((200, Pass res), d1, st1)"
    using one assms(7,8) by (simp add: run_worker_once_def with_tenant_reaches)
  have claimable1: "\<forall>c \<in> set clocks. \<forall>t \<in> set (open_of tn d1). claimable (c 0) t"
    using Cons.prems(4) d1(4) by auto
  obtain rs d' st' where "serve_all site (map (ProcessOnce hs worker_id (Some n)) clocks) (d1, st1) = (rs, d', st')"
    "list_all (\<lambda>r. fst r = 200) rs" "cloud_ok (si_sha256 site) d'" "not_stranded d'"
    "length (open_of tn d') = length (open_of tn d1) - length clocks * nat n"
    using Cons.IH [OF d1(1-3) claimable1] by blast
  then show ?case using call d1(5) n by (simp add: or_default_nat_def)
qed simp

section \<open>Properties\<close>



end
