(* ===== verification/Columns.thy ===== *)
theory Columns
  imports Application
begin

text \<open>
  The column types of \<open>models.py\<close>: the widths of the string columns and the dicts in the JSON columns.
  SQLite accepts any length, PostgreSQL raises for a longer value, and the response models refuse a
  result that is not a dict. Every transaction of the routes keeps the types, with one exception:
  the owner of a lease.
\<close>

section \<open>The types\<close>

definition string_col :: "nat \<Rightarrow> string \<Rightarrow> bool" where
  "string_col n s \<longleftrightarrow> length s \<le> n"

fun is_dict :: "json \<Rightarrow> bool" where
  "is_dict (JObj kvs) = True"
| "is_dict v = False"

definition request_columns :: "privacy_request \<Rightarrow> bool" where
  "request_columns r \<longleftrightarrow>
     string_col 36 (pr_id r) \<and> string_col 64 (pr_tenant_id r) \<and> string_col 128 (pr_idempotency_key r) \<and>
     string_col 64 (pr_subject_key_hash r) \<and> string_col 32 (pr_policy_version r)"

definition task_columns :: "request_task \<Rightarrow> bool" where
  "task_columns t \<longleftrightarrow>
     string_col 36 (rt_id t) \<and> string_col 36 (rt_request_id t) \<and> string_col 64 (rt_tenant_id t) \<and>
     string_col 64 (rt_source t) \<and> (case rt_lease_owner t of None \<Rightarrow> True | Some w \<Rightarrow> string_col 64 w) \<and>
     is_dict (rt_result_summary t)"

definition outbox_columns :: "outbox_event \<Rightarrow> bool" where
  "outbox_columns e \<longleftrightarrow>
     string_col 36 (ob_id e) \<and> string_col 64 (ob_tenant_id e) \<and> string_col 36 (ob_aggregate_id e) \<and>
     string_col 64 (ob_event_type e) \<and> is_dict (ob_payload e)"

definition audit_columns :: "audit_event \<Rightarrow> bool" where
  "audit_columns a \<longleftrightarrow>
     string_col 36 (au_id a) \<and> string_col 64 (au_tenant_id a) \<and> string_col 36 (au_request_id a) \<and>
     string_col 64 (au_action a) \<and> string_col 64 (au_payload_hash a) \<and> string_col 64 (au_previous_hash a) \<and>
     string_col 64 (au_event_hash a)"

definition record_columns :: "device_cloud_record \<Rightarrow> bool" where
  "record_columns r \<longleftrightarrow>
     string_col 36 (dr_id r) \<and> string_col 64 (dr_tenant_id r) \<and> string_col 64 (dr_subject_key_hash r) \<and>
     string_col 64 (dr_source r) \<and> is_dict (dr_payload r)"

definition columns_ok :: "cloud \<Rightarrow> bool" where
  "columns_ok d \<longleftrightarrow>
     list_all request_columns (requests d) \<and> list_all task_columns (tasks d) \<and>
     list_all outbox_columns (outbox d) \<and> list_all audit_columns (audit d) \<and> list_all record_columns (records d)"

text \<open>What the standard library gives: \<open>str(uuid4())\<close> has 36 characters, SHA-256 has 32 bytes.\<close>

definition widths_ok :: "digest_fn \<Rightarrow> uuid_stream \<Rightarrow> bool" where
  "widths_ok sha256 uuid \<longleftrightarrow> (\<forall>n. length (uuid n) = 36) \<and> (\<forall>b. length (sha256 b) = 32)"

lemma columns_ok_fields [simp]:
  "columns_ok (d\<lparr>fresh := n\<rparr>) = columns_ok d"
  "columns_ok (d\<lparr>m_request_created := x\<rparr>) = columns_ok d"
  "columns_ok (d\<lparr>m_request_completed := y\<rparr>) = columns_ok d"
  "columns_ok (d\<lparr>m_task_duration := z\<rparr>) = columns_ok d"
  by (simp_all add: columns_ok_def)

lemma columns_ok_empty: "columns_ok empty_cloud"
  by (simp add: columns_ok_def empty_cloud_def)

lemma hexdigest_fits: "widths_ok sha256 uuid \<Longrightarrow> string_col 64 (hexdigest sha256 b)"
  by (simp add: widths_ok_def string_col_def length_hexdigest)

lemma uuid_fits: "widths_ok sha256 uuid \<Longrightarrow> string_col 36 (uuid n)"
  by (simp add: widths_ok_def string_col_def)

lemma list_all_upd_where:
  assumes "list_all P xs" and "\<And>x. P x \<Longrightarrow> P (f x)"
  shows "list_all P (upd_where Q f xs)"
  using assms by (auto simp: list_all_iff in_upd_where)

section \<open>Inserting rows\<close>

lemma enqueue_columns:
  assumes "enqueue_outbox uuid now tn agg ty pl d = Inr d'" and "columns_ok d" and "widths_ok sha256 uuid"
    and "string_col 64 tn" and "string_col 36 agg" and "string_col 64 ty" and "is_dict (or_empty pl)"
  shows "columns_ok d'"
  using enqueue_outbox_spec(1) [OF assms(1)] assms(2-) by (simp add: columns_ok_def outbox_columns_def uuid_fits)

lemma chain_head_fits:
  assumes "columns_ok d" and "chain_head d tn = Some a"
  shows "string_col 64 (au_event_hash a)"
proof -
  have "a \<in> set (sort_key (\<lambda>a. - au_sequence a) (tenant_events d tn))"
    using assms(2) by (auto simp: chain_head_def simp del: set_sort split: list.splits)
  then have "a \<in> set (audit d)" by (simp add: tenant_events_def)
  with assms(1) show ?thesis by (simp add: columns_ok_def list_all_iff audit_columns_def)
qed

lemma append_columns:
  assumes "append_audit sha256 uuid now tn rid act pl d = Inr d'" and "columns_ok d" and "widths_ok sha256 uuid"
    and "string_col 64 tn" and "string_col 36 rid" and "string_col 64 act"
  shows "columns_ok d'"
proof -
  have "string_col 64 zero_hash" by (simp add: string_col_def zero_hash_def)
  then have "audit_columns (audit_row sha256 uuid now tn rid act pl d)"
    using assms(3-) chain_head_fits [OF assms(2)]
    by (simp add: audit_columns_def audit_row_def Let_def uuid_fits hexdigest_fits split: option.split)
  then show ?thesis using append_audit_eq [OF assms(1)] assms(2) by (simp add: columns_ok_def)
qed

lemma insert_tasks_columns:
  assumes "insert_tasks uuid now tn rid srcs d = Inr d'" and "columns_ok d" and "widths_ok sha256 uuid"
    and "string_col 64 tn" and "string_col 36 rid" and "list_all (string_col 64) srcs"
  shows "columns_ok d'"
  using assms(1,2,6)
proof (induction srcs arbitrary: d)
  case (Cons s srcs)
  from Cons.prems(1) obtain d1 where
    ins: "insert_task (new_task uuid now tn rid s d) (d\<lparr>fresh := fresh d + 1\<rparr>) = Inr d1"
    and rest: "insert_tasks uuid now tn rid srcs d1 = Inr d'" by (auto split: sum.splits)
  have "columns_ok d1"
    using insert_task_frame [OF ins] Cons.prems(2,3) assms(3-5)
    by (simp add: columns_ok_def task_columns_def new_task_def uuid_fits)
  with Cons.IH [OF rest] Cons.prems(3) show ?case by simp
qed simp

lemma enqueue_ready_columns:
  assumes "enqueue_ready uuid now tn rid ts d = Inr d'" and "columns_ok d" and "widths_ok sha256 uuid"
    and "string_col 64 tn" and "list_all task_columns ts"
  shows "columns_ok d'"
  using assms(1,2,5)
proof (induction ts arbitrary: d)
  case (Cons t ts)
  from Cons.prems(1) obtain d1 where
    one: "enqueue_outbox uuid now tn (rt_id t) ''privacy_task.ready'' (Some (JObj [(''task_id'', JStr (rt_id t)),
       (''request_id'', JStr rid), (''source'', JStr (rt_source t))])) d = Inr d1"
    and rest: "enqueue_ready uuid now tn rid ts d1 = Inr d'" by (auto split: sum.splits)
  have "columns_ok d1"
    by (rule enqueue_columns [OF one Cons.prems(2) assms(3,4)])
       (use Cons.prems(3) in \<open>simp_all add: task_columns_def string_col_def or_empty_def\<close>)
  with Cons.IH [OF rest] Cons.prems(3) show ?case by simp
qed simp

lemma create_rows_columns:
  assumes "create_rows sha256 uuid now tn key c d = Inr d'" and "columns_ok d" and "widths_ok sha256 uuid"
    and "string_col 64 tn" and "string_col 128 key" and "list_all (string_col 64) (c_sources c)"
  shows "columns_ok d'"
proof -
  let ?r = "new_request sha256 uuid now tn key c d"
  from assms(1) obtain d1 d2 d3 d4 where
    1: "insert_request ?r (d\<lparr>fresh := fresh d + 1\<rparr>) = Inr d1" and
    2: "insert_tasks uuid now tn (pr_id ?r) (c_sources c) d1 = Inr d2" and
    3: "enqueue_outbox uuid now tn (pr_id ?r) ''privacy_request.created'' (Some (created_payload ?r)) d2 = Inr d3" and
    4: "enqueue_ready uuid now tn (pr_id ?r) (drop (length (tasks d1)) (tasks d2)) d3 = Inr d4" and
    5: "append_audit sha256 uuid now tn (pr_id ?r) ''request.created'' (Some (created_payload ?r)) d4 = Inr d'"
    by (auto simp: create_rows_def Let_def split: sum.splits)
  have rid: "string_col 36 (pr_id ?r)" by (simp add: new_request_def uuid_fits [OF assms(3)])
  have "request_columns ?r" using rid assms(3-5)
    by (simp add: request_columns_def new_request_def hash_subject_def Let_def hexdigest_fits string_col_def [of 32])
  then have c1: "columns_ok d1" using insert_request_frame [OF 1] assms(2) by (simp add: columns_ok_def)
  have c2: "columns_ok d2" by (rule insert_tasks_columns [OF 2 c1 assms(3,4) rid assms(6)])
  have c3: "columns_ok d3"
    by (rule enqueue_columns [OF 3 c2 assms(3,4) rid]) (simp_all add: string_col_def or_empty_def created_payload_def)
  have "list_all task_columns (drop (length (tasks d1)) (tasks d2))"
    using c2 by (auto simp: columns_ok_def list_all_iff dest: in_set_dropD)
  then have c4: "columns_ok d4" by (rule enqueue_ready_columns [OF 4 c3 assms(3,4)])
  show ?thesis by (rule append_columns [OF 5 c4 assms(3,4) rid]) (simp add: string_col_def)
qed

lemma create_columns:
  assumes "create_privacy_request_racing sha256 uuid now tn key c d0 d = (res, d')" and "columns_ok d"
    and "widths_ok sha256 uuid" and "string_col 64 tn" and "string_col 128 key" and "list_all (string_col 64) (c_sources c)"
  shows "columns_ok d'"
proof -
  consider "d' = d" | d1 where "create_rows sha256 uuid now tn key c d = Inr d1"
      "d' = d1\<lparr>m_request_created := m_request_created d1 @ [c_kind c]\<rparr>"
    using assms(1)
    by (auto simp: create_privacy_request_racing_def Let_def split: sum.splits option.splits error.splits)
  then show ?thesis by cases (use assms create_rows_columns [OF _ assms(2-)] in simp_all)
qed

lemma seed_rows_columns:
  assumes "insert_seed_rows uuid now tn h rows d = Inr d'" and "columns_ok d" and "widths_ok sha256 uuid"
    and "string_col 64 tn" and "string_col 64 h" and "list_all (\<lambda>p. string_col 64 (fst p)) rows"
  shows "columns_ok d'"
  using assms(1,2,6)
proof (induction rows arbitrary: d)
  case (Cons p rows)
  obtain s q where p: "p = (s, q)" by (cases p)
  from Cons.prems(1) obtain d1 where
    ins: "insert_record \<lparr>dr_id = uuid (fresh d), dr_tenant_id = tn, dr_subject_key_hash = h,
              dr_source = s, dr_payload = seed_payload s q, dr_deleted_at = None, dr_created_at = now\<rparr>
             (d\<lparr>fresh := fresh d + 1\<rparr>) = Inr d1"
    and rest: "insert_seed_rows uuid now tn h rows d1 = Inr d'" by (auto simp: p split: sum.splits)
  have "columns_ok d1"
    using insert_record_frame [OF ins] Cons.prems(2,3) assms(3-5) p
    by (simp add: columns_ok_def record_columns_def uuid_fits seed_payload_def)
  with Cons.IH [OF rest] Cons.prems(3) show ?case by simp
qed simp

lemma allowed_fit: "s \<in> set allowed_sources \<Longrightarrow> string_col 64 s"
  by (auto simp: allowed_sources_def string_col_def)

lemma seed_columns:
  assumes "seed_records sha256 uuid now tn c d = (res, d')" and "columns_ok d" and "widths_ok sha256 uuid"
    and "string_col 64 tn"
  shows "columns_ok d'"
proof -
  have "list_all (\<lambda>p. string_col 64 (fst p)) (seed_plan n)" for n
    using seed_plan_source allowed_fit by (fastforce simp: list_all_iff)
  moreover have "string_col 64 (hash_subject sha256 k)" for k
    by (simp add: hash_subject_def Let_def hexdigest_fits [OF assms(3)])
  ultimately show ?thesis
    using assms seed_rows_columns [OF _ assms(2-4)] by (auto simp: seed_records_def Let_def split: sum.splits)
qed

section \<open>The worker\<close>

lemma status_columns [simp]:
  "list_all request_columns (upd_where P (\<lambda>r. r\<lparr>pr_status := x, pr_updated_at := y\<rparr>) rs) = list_all request_columns rs"
  by (induction rs) (simp_all add: request_columns_def)

lemma start_columns: "columns_ok (start_requests now ids d) = columns_ok d"
  by (simp add: start_requests_def columns_ok_def)

lemma claim_columns:
  assumes "columns_ok d" and "string_col 64 w"
  shows "columns_ok (snd (claim_tasks dialect locked env w tn batch secs d))"
proof -
  have "list_all task_columns (upd_where P (lease_task w now until) (tasks d))" for P now until
    using assms by (intro list_all_upd_where) (auto simp: columns_ok_def task_columns_def lease_task_def)
  then have "columns_ok (d\<lparr>tasks := upd_where P (lease_task w now until) (tasks d)\<rparr>)" for P now until
    using assms(1) by (simp add: columns_ok_def)
  then show ?thesis by (simp add: claim_tasks_def Let_def start_columns)
qed

text \<open>A claim under a longer name leaves rows that do not fit.\<close>

lemma long_owner_does_not_fit:
  assumes "i \<in> set (fst (claim_tasks dialect locked env w tn batch secs d))" and "64 < length w"
  shows "\<not> columns_ok (snd (claim_tasks dialect locked env w tn batch secs d))"
proof -
  have i: "i \<in> set (claim_ids dialect locked env tn batch d)" using assms(1) by (simp add: claim_tasks_fst)
  then obtain t where t: "t \<in> set (tasks d)" "rt_id t = i" by (rule claim_ids_sound)
  let ?f = "lease_task w (e_now env) (lease_until (e_now env) (or_default_int secs (lease_seconds (e_settings env))))"
  have "?f t \<in> set (tasks (snd (claim_tasks dialect locked env w tn batch secs d)))"
    using t i by (auto simp: in_upd_where)
  moreover have "\<not> task_columns (?f t)" using assms(2) by (simp add: task_columns_def lease_task_def string_col_def)
  ultimately show ?thesis by (auto simp: columns_ok_def list_all_iff)
qed

lemma verifying_columns [simp]: "columns_ok (verifying env r d) = columns_ok d"
  by (simp add: verifying_def columns_ok_def)

lemma run_source_columns:
  assumes "run_source env None task request d = (outcome, d1)" and "columns_ok d" and "e_late_records env = []"
  shows "columns_ok d1" and "outcome = Inr v \<Longrightarrow> is_dict v"
proof -
  have "list_all record_columns (upd_where P (\<lambda>r. r\<lparr>dr_deleted_at := x\<rparr>) (records d))" for P x
    using assms(2) by (intro list_all_upd_where) (auto simp: columns_ok_def record_columns_def)
  then show "columns_ok d1" and "outcome = Inr v \<Longrightarrow> is_dict v"
    using assms verifying_columns [of env request d]
    by (auto simp: run_source_def execute_access_def execute_delete_def Let_def columns_ok_def split: if_splits)
qed

lemma settle_columns:
  assumes "task_columns t" and "\<And>v. outcome = Inr v \<Longrightarrow> is_dict v"
  shows "task_columns (settle_task env ex task outcome t)"
  using assms by (auto simp: task_columns_def settle_task_def orm_set_def split: sum.splits)

lemma announce_columns:
  assumes "announce_terminal env r status ts d = Inr d'" and "columns_ok d" and "widths_ok (e_sha256 env) (e_uuid env)"
    and "request_columns r"
  shows "columns_ok d'"
proof -
  from assms(1) obtain d1 d2 where
    1: "enqueue_outbox (e_uuid env) (e_now env) (pr_tenant_id r) (pr_id r)
        (''privacy_request.'' @ status_value status) (Some (terminal_summary status ts)) d = Inr d1" and
    2: "append_audit (e_sha256 env) (e_uuid env) (e_now env) (pr_tenant_id r) (pr_id r)
        (''request.'' @ status_value status) (Some (terminal_summary status ts)) d1 = Inr d2" and
    3: "d' = d2\<lparr>m_request_completed := m_request_completed d2 @ [(pr_kind r, status)]\<rparr>"
    by (auto simp: announce_terminal_def split: sum.splits)
  have r: "string_col 64 (pr_tenant_id r)" "string_col 36 (pr_id r)" using assms(4) by (simp_all add: request_columns_def)
  have n: "length (status_value status) \<le> 9" by (cases status) simp_all
  have "columns_ok d1"
    by (rule enqueue_columns [OF 1 assms(2,3) r]) (use n in \<open>simp_all add: string_col_def or_empty_def terminal_summary_def\<close>)
  then have "columns_ok d2" by (rule append_columns [OF 2 _ assms(3) r]) (use n in \<open>simp add: string_col_def\<close>)
  then show ?thesis by (simp add: 3)
qed

lemma refresh_columns:
  assumes "refresh_request_status env i d st = (res, d', st')" and "columns_ok d" and "widths_ok (e_sha256 env) (e_uuid env)"
  shows "columns_ok d'"
proof (cases "scalar_one (filter (\<lambda>r. pr_id r = i) (requests d))")
  case (Inl e)
  with assms show ?thesis by (simp add: refresh_request_status_def)
next
  case (Inr request)
  then have "filter (\<lambda>r. pr_id r = i) (requests d) = [request]" by (simp add: scalar_one_Inr)
  then have "request \<in> set (filter (\<lambda>r. pr_id r = i) (requests d))" by simp
  then have "request \<in> set (requests d)" by simp
  then have r: "request_columns request" using assms(2) by (simp add: columns_ok_def list_all_iff)
  have "list_all request_columns (upd_where P (refreshed env request status artifact) (requests d))" for P status artifact
    using assms(2) by (intro list_all_upd_where) (auto simp: columns_ok_def request_columns_def refreshed_def)
  then have "columns_ok (d\<lparr>requests := upd_where P (refreshed env request status artifact) (requests d)\<rparr>)" for P status artifact
    using assms(2) by (simp add: columns_ok_def)
  then show ?thesis using assms Inr announce_columns [OF _ _ assms(3) r]
    by (auto simp: refresh_request_status_def Let_def split: prod.splits sum.splits if_splits)
qed

lemma finish_columns:
  assumes "finish_task env None task request d st = (res, d', st')" and "columns_ok d"
    and "widths_ok (e_sha256 env) (e_uuid env)" and "task_columns task" and "e_late_records env = []"
  shows "columns_ok d'"
  using assms(1)
proof (cases rule: finish_task_cases)
  case (refused outcome d1)
  from run_source_records [OF refused(1)] assms(5) have "drop (length (records d)) (records d1) = []" by auto
  with refused(4) assms(2) show ?thesis by (simp add: columns_ok_def)
next
  case (committed outcome d1 d2 d3 r)
  note src = run_source_columns [OF committed(1) assms(2,5)]
  have "list_all task_columns (upd_where P (settle_task env None task outcome) (tasks d1))" for P
    using src by (intro list_all_upd_where settle_columns) (auto simp: columns_ok_def)
  then have "columns_ok d2" using src(1) by (simp add: committed(2) columns_ok_def)
  moreover have "string_col 64 (task_action s)" for s by (cases s) (simp_all add: task_action_def string_col_def)
  ultimately have "columns_ok d3" using assms(3,4) append_columns [OF committed(3)] by (simp add: task_columns_def)
  then show ?thesis by (rule refresh_columns [OF committed(4) _ assms(3)])
qed

section \<open>Programs\<close>

text \<open>Every transaction of a program keeps a predicate, whatever happened to the state before it.\<close>

primrec keeps :: "('w \<Rightarrow> bool) \<Rightarrow> 'w program \<Rightarrow> bool" where
  "keeps I (Answer r) = True"
| "keeps I (Tx f k) = (\<forall>w. I w \<longrightarrow> I (f w) \<and> keeps I (k w))"

lemma keeps_run: "keeps I p \<Longrightarrow> I w \<Longrightarrow> I (snd (run p w))"
  by (induction p arbitrary: w) auto

lemma keeps_guarded:
  assumes "\<And>tn. h_tenant_id hs = Some tn \<Longrightarrow> string_col 64 tn \<Longrightarrow> others = [] \<Longrightarrow> keeps I (handler tn)"
  shows "keeps I (guarded cfg hs others handler)"
  using assms
  by (auto simp: guarded_def tenant_errors_def check_length_def tenant_context_def string_col_def
      split: sum.splits option.splits if_splits bool.splits)

abbreviation typed :: "cloud \<times> 'st \<Rightarrow> bool" where
  "typed w \<equiv> columns_ok (fst w)"

lemma execute_program_typed:
  assumes "\<And>k. widths_ok (e_sha256 (envs k)) (e_uuid (envs k))" and "\<And>k. e_late_records (envs k) = []"
  shows "keeps typed (execute_program envs w claimed ids k n)"
proof (induction ids arbitrary: k n)
  case (Cons i ids)
  have task: "task_columns t" if "columns_ok d" "load_task d i w = Inr (Some t)" for d t
    using that load_task_Some [OF that(2)] by (simp add: columns_ok_def list_all_iff)
  have fin: "columns_ok (fst (snd (finish_task (envs k) None t r d st)))" if "task_columns t" "columns_ok d" for t r d st
    using finish_columns [of "envs k" t r d st, OF _ that(2) assms(1) that(1) assms(2)] by (metis prod.collapse)
  show ?case using Cons.IH task fin by (auto simp: Let_def split: sum.split option.split)
qed simp

lemma create_program_typed:
  assumes "widths_ok (si_sha256 site) (si_uuid site)"
  shows "keeps typed (create_program site hs (make_privacy_request_create key kind sources) now)"
  unfolding create_program_def
proof (rule keeps_guarded)
  fix tn assume tn: "string_col 64 tn" and none: "create_errors hs (make_privacy_request_create key kind sources) = []"
  then obtain c where c: "make_privacy_request_create key kind sources = Inr c"
    by (auto simp: create_errors_def command_errors_def split: sum.splits)
  have "list_all (string_col 64) (c_sources c)"
    using make_privacy_request_create_wf(2) [OF c] allowed_fit by (auto simp: list_all_iff)
  moreover obtain k where "h_idempotency_key hs = Some k" "string_col 128 k"
    using none by (auto simp: create_errors_def tenant_length string_col_def)
  ultimately have "columns_ok d'" if "columns_ok d" "create_privacy_request_racing (si_sha256 site) (si_uuid site) now tn
      (the (h_idempotency_key hs)) c d0 d = (res, d')" for d0 d res d'
    using create_columns [OF that(2,1) assms tn] by simp
  moreover have "snd (create_reply x) = snd x" for x
    by (auto simp: create_reply_def split: prod.splits sum.splits option.splits error.splits)
  ultimately show "keeps typed (Tx id (\<lambda>w0. let intake = (\<lambda>w. create_reply (create_privacy_request_racing (si_sha256 site)
          (si_uuid site) now tn (the (h_idempotency_key hs)) (projr (make_privacy_request_create key kind sources)) (fst w0) (fst w)))
        in Tx (\<lambda>w. (snd (intake w), snd w)) (\<lambda>w. Answer (fst (intake w)))))"
    unfolding c by (simp add: Let_def) (metis prod.collapse)
qed

lemma seed_program_typed:
  assumes "widths_ok (si_sha256 site) (si_uuid site)"
  shows "keeps typed (seed_program site hs command now)"
  unfolding seed_program_def
proof (rule keeps_guarded)
  fix tn assume tn: "string_col 64 tn"
  show "keeps typed (let rows = (\<lambda>w. seed_records (si_sha256 site) (si_uuid site) now tn (projr command) (fst w))
      in Tx (\<lambda>w. (snd (rows w), snd w)) (\<lambda>w. Answer (case fst (rows w) of Inl e \<Rightarrow> error_reply e | Inr n \<Rightarrow> (201, Created n))))"
    using seed_columns [OF _ _ assms tn] by (simp add: Let_def) (metis prod.collapse)
qed

text \<open>The owner of a lease taken by the route fits its column.\<close>

fun call_fits :: "api_call \<Rightarrow> bool" where
  "call_fits (ProcessOnce hs worker_id batch_size clock) =
     (case h_tenant_id hs of None \<Rightarrow> True | Some tn \<Rightarrow> string_col 64 (scoped_worker_id tn worker_id))"
| "call_fits call = True"

lemma worker_program_typed:
  assumes "widths_ok (si_sha256 site) (si_uuid site)" and "call_fits (ProcessOnce hs worker_id batch_size clock)"
  shows "keeps typed (worker_program site hs worker_id batch_size clock)"
  unfolding worker_program_def Let_def
proof (rule keeps_guarded, goal_cases handler)
  case (handler tn)
  have "string_col 64 (scoped_worker_id tn worker_id)" using assms(2) handler(1) by simp
  moreover have "widths_ok (e_sha256 (site_env site (clock k))) (e_uuid (site_env site (clock k)))"
    "e_late_records (site_env site (clock k)) = []" for k using assms(1) by (simp_all add: site_env_def)
  ultimately show ?case by (simp add: claim_columns execute_program_typed)
qed

section \<open>Properties\<close>

text \<open>
  C28. The rows have the types of their columns: from a database whose string columns respect their
  declared widths and whose JSON columns hold dicts, every transaction of every route, in whatever
  interleaving it runs, and every call as a whole leads to such a database again, provided the
  tenant and the worker name of a worker pass fit the owner column together (a longer pair is
  accepted by the route and does not fit).
\<close>

theorem transactions_keep_columns:
  assumes "widths_ok (si_sha256 site) (si_uuid site)" and "call_fits call"
  shows "keeps typed (program_of site call) \<and>
    (\<forall>d st. columns_ok d \<longrightarrow> columns_ok (fst (snd (serve site call (d, st)))))"
proof -
  have reads: "keeps typed (reading answer)" for answer :: "cloud \<times> 'a \<Rightarrow> reply" by (simp add: reading_def)
  have "keeps typed (program_of site call)"
    using assms create_program_typed [OF assms(1)] seed_program_typed [OF assms(1)] worker_program_typed [OF assms(1)] reads
    by (cases call) simp_all
  then show ?thesis using keeps_run [of typed "program_of site call"] by (simp add: run_program_of)
qed

theorem transactions_keep_columns_witness:
  "columns_ok (fst (snd (serve (sample_site\<lparr>si_sha256 := \<lambda>_. replicate 32 CHR ''0'', si_uuid := \<lambda>_. replicate 36 CHR ''u''\<rparr>)
     (ProcessOnce sample_headers ''api-worker'' None (\<lambda>_. 9)) (empty_cloud, ()))))"
proof -
  let ?site = "sample_site\<lparr>si_sha256 := \<lambda>_. replicate 32 CHR ''0'', si_uuid := \<lambda>_. replicate 36 CHR ''u''\<rparr>"
  have "widths_ok (si_sha256 ?site) (si_uuid ?site)" by (simp add: widths_ok_def)
  moreover have "call_fits (ProcessOnce sample_headers ''api-worker'' None (\<lambda>_. 9))"
    by (simp add: sample_headers_def scoped_worker_id_def string_col_def)
  ultimately show ?thesis using transactions_keep_columns [of ?site] columns_ok_empty by blast
qed

end
