(* ===== verification/Queue_Drain.thy ===== *)
theory Queue_Drain
  imports Drain Columns Queue_Props
begin

text \<open>
  Progress of the queue worker over the in-process queue and the database source: one pass relays
  the unpublished events, receives up to ten messages and settles every pending task they name.
\<close>

section \<open>What a message does to the tasks\<close>

definition sound :: "digest_fn \<Rightarrow> uuid_stream \<Rightarrow> cloud \<Rightarrow> bool" where
  "sound sha256 uuid d \<longleftrightarrow> cloud_ok sha256 d \<and> ids_unused uuid d"

text \<open>Settled tasks stay; pending ones stay or, when the message names them, are settled.\<close>

definition settles :: "string option \<Rightarrow> cloud \<Rightarrow> cloud \<Rightarrow> bool" where
  "settles named d d' \<longleftrightarrow>
     (\<forall>t \<in> set (tasks d). settled t \<longrightarrow> t \<in> set (tasks d')) \<and>
     (\<forall>t \<in> set (tasks d). rt_status t = T_PENDING \<longrightarrow>
        (if named = Some (rt_id t) then \<exists>t' \<in> set (tasks d'). rt_id t' = rt_id t \<and> settled t' else t \<in> set (tasks d')))"

lemma settles_same: "tasks d' = tasks d \<Longrightarrow> (\<And>t. t \<in> set (tasks d) \<Longrightarrow> named = Some (rt_id t) \<Longrightarrow> rt_status t \<noteq> T_PENDING) \<Longrightarrow>
    settles named d d'"
  by (auto simp: settles_def)

text \<open>The environments of one deployment whose artifact store accepts.\<close>

definition calm :: "digest_fn \<Rightarrow> uuid_stream \<Rightarrow> (nat \<Rightarrow> 'st env) \<Rightarrow> bool" where
  "calm sha256 uuid envs \<longleftrightarrow> \<not> collision sha256 \<and>
     (\<forall>k. store_accepts (envs k) \<and> e_sha256 (envs k) = sha256 \<and> e_uuid (envs k) = uuid \<and> e_late_records (envs k) = [])"

lemma calm_envs:
  assumes "calm sha256 uuid envs"
  shows "\<not> collision sha256" "store_accepts (envs k)" "e_sha256 (envs k) = sha256" "e_uuid (envs k) = uuid" "e_late_records (envs k) = []"
  using assms by (simp_all add: calm_def)

lemma sound_keys: "sound sha256 uuid d \<Longrightarrow> keys_ok d"
  by (simp add: sound_def cloud_ok_def core_ok_def)

lemma claimed_unused:
  assumes "ids_unused uuid d"
  shows "ids_unused uuid (start_requests now ids (d\<lparr>tasks := upd_where P (lease_task w now until) (tasks d)\<rparr>))"
  by (rule ids_unused_same [OF assms]) (simp_all add: start_requests_def map_upd_where task_frame_def)

lemma handle_claimed:
  assumes "sound sha256 uuid d" and "calm sha256 uuid envs" and "message_task_id b = Inr (Some i)" and "claim_message_task (envs 0) i w secs d = (CLAIMED, d1)"
  shows "\<exists>ok d' st'. handle_task_envelope envs None w secs b d st = (Inr ok, d', st') \<and> sound sha256 uuid d' \<and> settles (Some i) d d'"
proof -
  note env = calm_envs [OF assms(2)]
  have k: "keys_ok d" by (rule sound_keys [OF assms(1)])
  from claim_message_cases [OF k assms(4) [unfolded claim_message_task_def]] obtain t where
    t: "t \<in> set (tasks d)" "rt_id t = i" "claimable (e_now (envs 0)) t" and
    d1: "d1 = start_requests (e_now (envs 0)) [rt_request_id t] (d\<lparr>tasks := upd_where (\<lambda>s. rt_id s = i)
       (lease_task w (e_now (envs 0)) (lease_until (e_now (envs 0)) secs)) (tasks d)\<rparr>)" by auto
  let ?l = "lease_task w (e_now (envs 0)) (lease_until (e_now (envs 0)) secs)"
  have ts1: "tasks d1 = upd_where (\<lambda>s. rt_id s = i) ?l (tasks d)" by (simp add: d1 start_requests_def)
  have ok1: "cloud_ok sha256 d1" using assms(1,4) claim_message_ok by (auto simp: sound_def claim_message_task_def)
  then have core1: "core_ok (e_sha256 (envs 1)) d1" by (simp add: cloud_ok_def env(3))
  then have late: "late_ok (envs 1) d1" by (simp add: late_ok_def env(5) core_ok_def keys_ok_def)
  have u1: "ids_unused (e_uuid (envs 1)) d1"
    unfolding d1 env(4) using assms(1) by (intro claimed_unused) (simp add: sound_def)
  have "?l t \<in> set (tasks d1)" using t(1,2) by (auto simp: ts1 in_upd_where)
  then have leased: "leased_to w d1 i" unfolding leased_to_def using t(2) by (intro bexI [of _ "?l t"]) simp_all
  from execute_returns [OF core1 u1 _ env(2) late leased, of None st] obtain ok d' st' where
    ex: "execute_task (envs 1) None i w d1 st = (Inr ok, d', st')" and u': "ids_unused uuid d'"
    using env by auto
  from execute_leased_rows [OF core1 late leased ex] obtain r f where r: "r \<in> set (tasks d1)" "rt_id r = i"
    and f: "\<And>s. settled (f s)" "\<And>s. task_frame (f s) = task_frame s"
    and ts: "tasks d' = upd_where (\<lambda>s. rt_id s = rt_id r) f (tasks d1)" by metis
  have "cloud_ok sha256 d'" using execute_task_ok [OF _ late ex] ok1 env(3) by simp
  moreover have "settles (Some i) d d'"
    unfolding settles_def
  proof (intro conjI ballI impI)
    fix s assume s: "s \<in> set (tasks d)" "settled s"
    have "s \<noteq> t" using s(2) t(3) settled_not_claimable by blast
    then have "rt_id s \<noteq> i" using key_inj [of rt_id "tasks d" s t] k s(1) t(1,2) by (auto simp: keys_ok_def)
    then show "s \<in> set (tasks d')" using s(1) r(2) by (simp add: ts ts1 upd_keeps)
  next
    fix s assume s: "s \<in> set (tasks d)"
    have "rt_id (f r) = i" using f(2) [of r] r(2) by (simp add: task_frame_def)
    moreover have "f r \<in> set (tasks d')" unfolding ts using r(1) by (auto simp: in_upd_where intro!: bexI [of _ r])
    ultimately show "if Some i = Some (rt_id s) then \<exists>t' \<in> set (tasks d'). rt_id t' = rt_id s \<and> settled t' else s \<in> set (tasks d')"
      using s r(2) f(1) by (auto simp: ts ts1 upd_keeps)
  qed
  moreover have "handle_task_envelope envs None w secs b d st = (Inr ok, d', st')"
    using assms(3,4) ex by (simp add: handle_task_envelope_def)
  ultimately show ?thesis using u' by (auto simp: sound_def)
qed

lemma pending_claimed:
  assumes "keys_ok d" and "t \<in> set (tasks d)" and "rt_status t = T_PENDING"
  shows "fst (claim_message_task env (rt_id t) w secs d) = CLAIMED"
proof -
  have "find (\<lambda>s. rt_id s = rt_id t) (tasks d) = Some t"
    using find_key_Some [of rt_id "tasks d" t] assms by (simp add: keys_ok_def)
  moreover have "t \<in> set (filter (\<lambda>s. rt_id s = rt_id t \<and> claimable (e_now env) s) (tasks d))"
    using assms(2,3) by (simp add: claimable_def)
  then have "filter (\<lambda>s. rt_id s = rt_id t \<and> claimable (e_now env) s) (tasks d) \<noteq> []" by (metis empty_iff empty_set)
  ultimately show ?thesis using assms(3)
    by (auto simp: claim_message_task_def claim_message_task_racing_def split: list.splits)
qed

text \<open>A message that claims nothing leaves the tasks as they are; a duplicate repairs the request.\<close>

lemma handle_unclaimed:
  assumes "sound sha256 uuid d" and "calm sha256 uuid envs" and "message_task_id b = Inr (Some i)"
    and "claim_message_task (envs 0) i w secs d = (res, d1)" and "res \<noteq> CLAIMED"
  shows "\<exists>ok d' st'. handle_task_envelope envs None w secs b d st = (Inr ok, d', st') \<and> sound sha256 uuid d' \<and> tasks d' = tasks d"
proof -
  note env = calm_envs [OF assms(2)]
  have k: "keys_ok d" by (rule sound_keys [OF assms(1)])
  have same: "d1 = d" using claim_message_cases [OF k assms(4) [unfolded claim_message_task_def]] assms(5) by blast
  show ?thesis
  proof (cases "res = TERMINAL_DUPLICATE \<and> find (\<lambda>t. rt_id t = i) (tasks d) \<noteq> None")
    case False
    then have "\<exists>ok. handle_task_envelope envs None w secs b d st = (Inr ok, d, st)"
      using assms(3-5) same by (cases res) (auto simp: handle_task_envelope_def)
    then show ?thesis using assms(1) by auto
  next
    case True
    then obtain t where t: "find (\<lambda>t. rt_id t = i) (tasks d) = Some t" by blast
    then have "t \<in> set (tasks d)" by (auto simp: find_Some_iff)
    moreover have core: "core_ok (e_sha256 (envs 1)) d" using assms(1) env by (simp add: sound_def cloud_ok_def)
    ultimately obtain r where r: "r \<in> set (requests d)" "pr_id r = rt_request_id t"
      using parent_of unfolding core_ok_def by blast
    have u: "ids_unused (e_uuid (envs 1)) d" using assms(1) env by (simp add: sound_def)
    from refresh_returns [OF core u _ env(2) r(1), of st] obtain status d' st' where
      ref: "refresh_request_status (envs 1) (rt_request_id t) d st = (Inr status, d', st')" "ids_unused uuid d'"
      using env r(2) by auto
    have "cloud_ok sha256 d'" using refresh_ok [OF _ ref(1)] assms(1) env by (simp add: sound_def)
    moreover have "tasks d' = tasks d" using refresh_frame [OF k ref(1)] by blast
    moreover have "handle_task_envelope envs None w secs b d st = (Inr True, d', st')"
      using assms(3,4) same True t ref(1) by (simp add: handle_task_envelope_def)
    ultimately show ?thesis using ref(2) by (auto simp: sound_def)
  qed
qed

lemma handle_settles:
  assumes "sound sha256 uuid d" and "calm sha256 uuid envs" and "message_task_id b = Inr named"
  shows "\<exists>ok d' st'. handle_task_envelope envs None w secs b d st = (Inr ok, d', st') \<and> sound sha256 uuid d' \<and> settles named d d'"
proof (cases named)
  case None
  then show ?thesis using assms(1,3) by (auto simp: handle_task_envelope_def intro!: settles_same)
next
  case (Some i)
  note m = assms(3) [unfolded Some]
  obtain res d1 where claim: "claim_message_task (envs 0) i w secs d = (res, d1)" by (cases "claim_message_task (envs 0) i w secs d")
  show ?thesis
  proof (cases "res = CLAIMED")
    case True
    then show ?thesis using handle_claimed [OF assms(1,2) m] claim Some by simp
  next
    case False
    have "rt_status t \<noteq> T_PENDING" if "t \<in> set (tasks d)" "rt_id t = i" for t
      using pending_claimed [OF sound_keys [OF assms(1)] that(1), of "envs 0" w secs] claim False that(2) by auto
    then have "settles named d d'" if "tasks d' = tasks d" for d'
      using that Some by (intro settles_same) auto
    then show ?thesis using handle_unclaimed [OF assms(1,2) m claim False, of st] by blast
  qed
qed

section \<open>Heartbeats\<close>

lemma settles_trans:
  assumes "settles named d d1" and "\<And>t. t \<in> set (tasks d1) \<Longrightarrow> rt_status t \<noteq> T_RUNNING \<Longrightarrow> t \<in> set (tasks d2)"
  shows "settles named d d2"
proof -
  have keep: "t \<in> set (tasks d2)" if "t \<in> set (tasks d1)" "settled t \<or> rt_status t = T_PENDING" for t
    using assms(2) [OF that(1)] that(2) by (auto simp: settled_def)
  show ?thesis
    unfolding settles_def
  proof (intro conjI ballI impI)
    fix t assume "t \<in> set (tasks d)" "settled t"
    then show "t \<in> set (tasks d2)" using assms(1) keep unfolding settles_def by blast
  next
    fix t assume t: "t \<in> set (tasks d)" "rt_status t = T_PENDING"
    then have "if named = Some (rt_id t) then \<exists>t' \<in> set (tasks d1). rt_id t' = rt_id t \<and> settled t' else t \<in> set (tasks d1)"
      using assms(1) unfolding settles_def by blast
    then show "if named = Some (rt_id t) then \<exists>t' \<in> set (tasks d2). rt_id t' = rt_id t \<and> settled t' else t \<in> set (tasks d2)"
      using keep t(2) unfolding if_bool_eq_conj by blast
  qed
qed

lemma beat_sound:
  assumes "sound sha256 uuid (fst w)"
  shows "sound sha256 uuid (fst (beat env worker_id secs b w))"
    and "t \<in> set (tasks (fst w)) \<Longrightarrow> rt_status t \<noteq> T_RUNNING \<Longrightarrow> t \<in> set (tasks (fst (beat env worker_id secs b w)))"
proof -
  have ext: "sound sha256 uuid (snd (extend_task_lease env i worker_id secs (fst w)))" for i
  proof -
    note f = extend_lease_frame [of env i worker_id secs "fst w"]
    have "fresh (snd (extend_task_lease env i worker_id secs (fst w))) = fresh (fst w)"
      by (simp add: extend_task_lease_def Let_def)
    then have "ids_unused uuid (snd (extend_task_lease env i worker_id secs (fst w)))"
      using assms unfolding sound_def by (intro ids_unused_same [of uuid "fst w", OF _ _ _ f(1,3,4)]) (simp_all add: f(2))
    then show ?thesis using assms by (simp add: sound_def cloud_ok_def extend_lease_core extend_lease_status)
  qed
  then show "sound sha256 uuid (fst (beat env worker_id secs b w))"
    using assms by (simp add: beat_def heartbeat_database_lease_def split: sum.splits option.splits)
  show "t \<in> set (tasks (fst w)) \<Longrightarrow> rt_status t \<noteq> T_RUNNING \<Longrightarrow> t \<in> set (tasks (fst (beat env worker_id secs b w)))"
    by (auto simp: beat_def heartbeat_database_lease_def extend_task_lease_def Let_def upd_keeps split: sum.splits option.splits)
qed

lemma beats_sound:
  assumes "sound sha256 uuid (fst w)"
  shows "sound sha256 uuid (fst ((beat env worker_id secs b ^^ n) w)) \<and>
    (\<forall>t \<in> set (tasks (fst w)). rt_status t \<noteq> T_RUNNING \<longrightarrow> t \<in> set (tasks (fst ((beat env worker_id secs b ^^ n) w))))"
proof (induction n)
  case (Suc n)
  then show ?case using beat_sound [of sha256 uuid "(beat env worker_id secs b ^^ n) w"] by simp
qed (use assms in simp)

section \<open>Consuming messages\<close>

lemma consume_local:
  assumes "message_task_id (body m) = Inr named"
  shows "\<exists>res q'. consume_task_message local_task_queue envs ex worker_id ticks m w q =
    (res, (beat (envs 2) worker_id (lease_seconds (e_settings (envs 0))) (body m) ^^ snd ticks)
       (snd (handle_task_envelope envs ex worker_id (lease_seconds (e_settings (envs 0))) (body m)
          (fst ((beat (envs 2) worker_id (lease_seconds (e_settings (envs 0))) (body m) ^^ fst ticks) w))
          (snd ((beat (envs 2) worker_id (lease_seconds (e_settings (envs 0))) (body m) ^^ fst ticks) w)))), q') \<and>
    lq_messages q' = lq_messages q"
proof -
  let ?secs = "lease_seconds (e_settings (envs 0))" and ?vis = "sqs_visibility_timeout_seconds (e_settings (envs 0))"
  let ?b = "beat (envs 2) worker_id ?secs (body m)"
  note main = local_maintain [where f = "heartbeat_database_lease (envs 2) worker_id ?secs (body m)"
      and g = ?b and m = m and vis = ?vis, OF heartbeat_as_beat]
  have ack: "ack local_task_queue h q = (Inr (), q\<lparr>lq_acked := lq_acked q @ [h]\<rparr>)" for h q
    by (simp add: local_task_queue_def local_ack_def)
  obtain r d st where h: "handle_task_envelope envs ex worker_id ?secs (body m)
      (fst ((?b ^^ fst ticks) w)) (snd ((?b ^^ fst ticks) w)) = (r, d, st)" by (metis prod_cases3)
  show ?thesis
    by (cases r) (simp_all add: consume_task_message_def consume_with_heartbeat_def main assms h ack Let_def
          del: maintain_visibility.simps(2,3))
qed

lemma consume_settles:
  assumes "sound sha256 uuid (fst w)" and "calm sha256 uuid envs" and "message_task_id (body m) = Inr named"
    and "consume_task_message local_task_queue envs None worker_id ticks m w q = (res, w', q')"
  shows "sound sha256 uuid (fst w')" and "settles named (fst w) (fst w')" and "lq_messages q' = lq_messages q"
proof -
  let ?secs = "lease_seconds (e_settings (envs 0))"
  let ?b = "beat (envs 2) worker_id ?secs (body m)"
  let ?w1 = "(?b ^^ fst ticks) w"
  note b1 = beats_sound [OF assms(1), where env = "envs 2" and worker_id = worker_id and secs = ?secs and b = "body m" and n = "fst ticks"]
  from handle_settles [OF _ assms(2,3)] b1 obtain ok d2 st2 where
    h: "handle_task_envelope envs None worker_id ?secs (body m) (fst ?w1) (snd ?w1) = (Inr ok, d2, st2)"
    and s2: "sound sha256 uuid d2" "settles named (fst ?w1) d2" by blast
  have w': "w' = (?b ^^ snd ticks) (d2, st2)" and "lq_messages q' = lq_messages q"
    using consume_local [OF assms(3), of envs None worker_id ticks w q] assms(4) h by auto
  note b2 = beats_sound [of sha256 uuid "(d2, st2)", where env = "envs 2" and worker_id = worker_id and secs = ?secs and b = "body m" and n = "snd ticks"]
  have early: "t \<in> set (tasks (fst ?w1))" if "t \<in> set (tasks (fst w))" "settled t \<or> rt_status t = T_PENDING" for t
    using b1 that by (auto simp: settled_def)
  have "settles named (fst w) d2"
    using s2(2) early unfolding settles_def by blast
  then show "settles named (fst w) (fst w')" by (rule settles_trans) (use b2 s2(1) w' in auto)
  show "sound sha256 uuid (fst w')" using b2 s2(1) w' by simp
  show "lq_messages q' = lq_messages q" by fact
qed

lemma consume_all_settles:
  assumes "consume_all local_task_queue runs None worker_id ticks k ms w q = (n, w', q')" and "sound sha256 uuid (fst w)"
    and "\<And>k. calm sha256 uuid (runs k)" and "\<And>m. m \<in> set ms \<Longrightarrow> \<exists>named. message_task_id (body m) = Inr named"
  shows "sound sha256 uuid (fst w') \<and> lq_messages q' = lq_messages q \<and>
    (\<forall>t \<in> set (tasks (fst w)). settled t \<longrightarrow> t \<in> set (tasks (fst w'))) \<and>
    (\<forall>t \<in> set (tasks (fst w)). rt_status t = T_PENDING \<longrightarrow>
       (if Inr (Some (rt_id t)) \<in> (\<lambda>m. message_task_id (body m)) ` set ms
        then \<exists>t' \<in> set (tasks (fst w')). rt_id t' = rt_id t \<and> settled t' else t \<in> set (tasks (fst w'))))"
  using assms(1,2,4)
proof (induction ms arbitrary: k w q n)
  case (Cons m ms)
  obtain r w1 q1 where one: "consume_task_message local_task_queue (runs k) None worker_id (ticks k) m w q = (r, w1, q1)"
    by (metis prod_cases3)
  obtain n' where rest: "consume_all local_task_queue runs None worker_id ticks (k + 1) ms w1 q1 = (n', w', q')"
    using Cons.prems(1) one by (auto split: prod.splits)
  obtain named where nm: "message_task_id (body m) = Inr named" using Cons.prems(3) by auto
  note c = consume_settles [OF Cons.prems(2) assms(3) nm one]
  have IH: "sound sha256 uuid (fst w') \<and> lq_messages q' = lq_messages q1 \<and>
    (\<forall>t \<in> set (tasks (fst w1)). settled t \<longrightarrow> t \<in> set (tasks (fst w'))) \<and>
    (\<forall>t \<in> set (tasks (fst w1)). rt_status t = T_PENDING \<longrightarrow>
       (if Inr (Some (rt_id t)) \<in> (\<lambda>m. message_task_id (body m)) ` set ms
        then \<exists>t' \<in> set (tasks (fst w')). rt_id t' = rt_id t \<and> settled t' else t \<in> set (tasks (fst w'))))"
    using Cons.IH [OF rest c(1)] Cons.prems(3) by simp
  have "if Inr (Some (rt_id t)) \<in> (\<lambda>m. message_task_id (body m)) ` set (m # ms)
        then \<exists>t' \<in> set (tasks (fst w')). rt_id t' = rt_id t \<and> settled t' else t \<in> set (tasks (fst w'))"
    if t: "t \<in> set (tasks (fst w))" "rt_status t = T_PENDING" for t
  proof (cases "named = Some (rt_id t)")
    case True
    then obtain t' where "t' \<in> set (tasks (fst w1))" "rt_id t' = rt_id t" "settled t'" using c(2) t unfolding settles_def by metis
    then have "\<exists>t' \<in> set (tasks (fst w')). rt_id t' = rt_id t \<and> settled t'" using IH by blast
    then show ?thesis using True nm by simp
  next
    case False
    then have "t \<in> set (tasks (fst w1))" using c(2) t unfolding settles_def by metis
    then show ?thesis using IH t(2) False nm by auto
  qed
  moreover have "t \<in> set (tasks (fst w'))" if "t \<in> set (tasks (fst w))" "settled t" for t
    using that c(2) IH unfolding settles_def by blast
  ultimately show ?case using IH c(3) by simp
qed simp

section \<open>The relay before them\<close>

definition relayed :: "outbox_event \<Rightarrow> queue_message" where
  "relayed e = \<lparr>message_id = ob_id e, receipt_handle = ob_id e, body = event_envelope e, receive_count = 1\<rparr>"

lemma local_relay_queue:
  "snd (relay_loop local_task_queue clock events published q) = q\<lparr>lq_messages := lq_messages q @ map relayed events\<rparr>"
proof (induction events arbitrary: published q)
  case (Cons e events)
  then show ?case by (simp add: local_publish_envelope relayed_def)
qed simp

text \<open>A pass as one run over the messages that waited and those that the relay adds.\<close>

lemma local_pass:
  assumes "M = lq_messages q @ map relayed (relay_candidates dialect locked 100 d)"
  obtains p where "map fst p = map ob_id (relay_candidates dialect locked 100 d)"
    "run_worker_pass local_task_queue dialect locked clock runs ex worker_id wait ticks (d, st) q =
       (case consume_all local_task_queue runs ex worker_id ticks 0 (take 10 M) (mark_published p d, st) (q\<lparr>lq_messages := drop 10 M\<rparr>) of
          (n, w', q') \<Rightarrow> (Inr \<lparr>w_outbox_published = length (relay_candidates dialect locked 100 d), w_received = min 10 (length M),
             w_acknowledged = n\<rparr>, w', q'))"
proof -
  let ?c = "relay_candidates dialect locked 100 d"
  obtain p where loop: "relay_loop local_task_queue clock ?c [] q = (p, q\<lparr>lq_messages := M\<rparr>)"
    using local_relay_queue [of clock ?c "[]" q] assms by (cases "relay_loop local_task_queue clock ?c [] q") simp
  then have p: "map fst p = map ob_id ?c" using local_relay_loop [of clock ?c "[]" q] by simp
  then have len: "length p = length ?c" by (metis length_map)
  have "nat (min 10 (int (length M))) = min 10 (length M)" by linarith
  then have rcv: "receive local_task_queue 10 wait (q\<lparr>lq_messages := M\<rparr>) = (Inr (take 10 M), q\<lparr>lq_messages := drop 10 M\<rparr>)"
    by (cases "10 \<le> length M") (simp_all add: local_task_queue_def local_receive_def Let_def min_def)
  show ?thesis
    by (rule that [OF p]) (simp add: run_worker_pass_def relay_outbox_once_def loop len rcv Let_def min.commute split: prod.split)
qed

lemma marked_sound:
  assumes "sound sha256 uuid d"
  shows "sound sha256 uuid (mark_published p d)"
proof -
  note f = mark_published_frame [of p d]
  have "status_ok (mark_published p d) = status_ok d"
    by (simp add: status_ok_def status_agrees_def [abs_def] statuses_def request_tasks_def f)
  moreover have "fresh (mark_published p d) = fresh d" by (simp add: mark_published_def)
  ultimately show ?thesis
    using assms mark_published_core [of sha256 d p] f by (simp add: sound_def cloud_ok_def ids_unused_def del: set_map)
qed

lemma envelope_readable: "is_dict (ob_payload e) \<Longrightarrow> \<exists>named. message_task_id (event_envelope e) = Inr named"
  by (cases "ob_payload e") (auto simp: message_task_id_def event_envelope_def json_get_or_def split: option.split)

section \<open>Properties\<close>

text \<open>
  A pass of the queue worker settles what it receives: on an empty in-process queue and with the
  database source, when identifiers and digests do not clash and the artifact store accepts, a pass
  publishes every candidate of the outbox, receives the first ten of them and settles each pending
  task that one of these names, however many heartbeats fall into the handling of each message and
  whatever the other messages are about.
\<close>

theorem queue_pass_settles:
  assumes "cloud_ok sha256 d" and "ids_unused uuid d" and "\<not> collision sha256"
    and "\<forall>k j. store_accepts (runs k j) \<and> e_sha256 (runs k j) = sha256 \<and> e_uuid (runs k j) = uuid \<and> e_late_records (runs k j) = []"
    and "\<forall>e \<in> set (outbox d). is_dict (ob_payload e)" and "lq_messages q = []"
  shows "\<exists>res d' st' q'. run_worker_pass local_task_queue dialect locked clock runs None worker_id wait ticks (d, st) q =
      (Inr res, (d', st'), q') \<and>
    w_outbox_published res = length (relay_candidates dialect locked 100 d) \<and>
    w_received res = min 10 (length (relay_candidates dialect locked 100 d)) \<and>
    (\<forall>t \<in> set (tasks d). \<forall>e \<in> set (take 10 (relay_candidates dialect locked 100 d)).
       rt_status t = T_PENDING \<and> rt_id t \<noteq> [] \<and> ob_event_type e = ''privacy_task.ready'' \<and>
       (\<exists>r s. ob_payload e = task_payload (rt_id t) r s) \<longrightarrow>
       (\<exists>t' \<in> set (tasks d'). rt_id t' = rt_id t \<and> settled t'))"
proof -
  let ?c = "relay_candidates dialect locked 100 d"
  let ?ms = "map relayed (take 10 ?c)" and ?q2 = "q\<lparr>lq_messages := drop 10 (map relayed ?c)\<rparr>"
  have M: "map relayed ?c = lq_messages q @ map relayed ?c" using assms(6) by simp
  obtain p where pass: "run_worker_pass local_task_queue dialect locked clock runs None worker_id wait ticks (d, st) q =
      (case consume_all local_task_queue runs None worker_id ticks 0 ?ms (mark_published p d, st) ?q2 of
         (n, w', q') \<Rightarrow> (Inr \<lparr>w_outbox_published = length ?c, w_received = min 10 (length ?c), w_acknowledged = n\<rparr>, w', q'))"
    using local_pass [OF M, of clock runs None worker_id wait ticks st] by (auto simp: take_map)
  obtain n w' q' where run: "consume_all local_task_queue runs None worker_id ticks 0 ?ms (mark_published p d, st) ?q2 = (n, w', q')"
    by (metis prod_cases3)
  have calm: "calm sha256 uuid (runs k)" for k using assms(3,4) by (simp add: calm_def)
  have sound: "sound sha256 uuid (fst (mark_published p d, st))" using assms(1,2) marked_sound [of sha256 uuid d] by (simp add: sound_def)
  have dict: "is_dict (ob_payload e)" if "e \<in> set (take 10 ?c)" for e
    using that relay_candidates_set [of e dialect locked 100 d] assms(5) by (auto dest: in_set_takeD)
  have readable: "\<exists>named. message_task_id (body m) = Inr named" if "m \<in> set ?ms" for m
    using that envelope_readable [OF dict] by (auto simp: relayed_def)
  note all = consume_all_settles [OF run sound calm readable]
  have "\<exists>t' \<in> set (tasks (fst w')). rt_id t' = rt_id t \<and> settled t'"
    if t: "t \<in> set (tasks d)" "rt_status t = T_PENDING" "rt_id t \<noteq> []" and e: "e \<in> set (take 10 ?c)"
      "ob_event_type e = ''privacy_task.ready''" "ob_payload e = task_payload (rt_id t) r s" for t e r s
  proof -
    have "message_task_id (body (relayed e)) = Inr (Some (rt_id t))"
      using ready_task_id(1) [OF e(2,3) t(3)] by (simp add: relayed_def)
    then have "Inr (Some (rt_id t)) \<in> (\<lambda>m. message_task_id (body m)) ` set ?ms"
      using e(1) by (metis image_eqI list.set_map)
    moreover have "t \<in> set (tasks (fst (mark_published p d, st)))" using t(1) by (simp add: mark_published_frame)
    ultimately show ?thesis using all t(2) by (simp only: if_True)
  qed
  moreover have "run_worker_pass local_task_queue dialect locked clock runs None worker_id wait ticks (d, st) q =
      (Inr \<lparr>w_outbox_published = length ?c, w_received = min 10 (length ?c), w_acknowledged = n\<rparr>, w', q')"
    using pass run by simp
  ultimately show ?thesis by (cases w') auto
qed

lemma sample_outbox:
  "map (\<lambda>e. (ob_event_type e, ob_payload e, ob_published_at e, ob_created_at e)) (outbox sample_cloud) =
     [(''privacy_request.created'', created_payload sample_request, None, 0),
      (''privacy_task.ready'', task_payload (sample_uuid 1) (sample_uuid 0) ''jobs'', None, 0),
      (''privacy_task.ready'', task_payload (sample_uuid 2) (sample_uuid 0) ''devices'', None, 0)]"
  by (simp add: sample_cloud_def create_privacy_request_def create_privacy_request_racing_def
      find_by_idempotency_def create_rows_def insert_request_def insert_task_def insert_outbox_def
      append_audit_def insert_audit_def enqueue_outbox_def new_request_def new_task_def Let_def
      sample_delete_def empty_cloud_def request_source_def or_empty_def get_privacy_request_def
      audit_row_def task_payload_def sample_request_def created_payload_def)

theorem queue_pass_settles_witness:
  "\<exists>res d' st' q'. run_worker_pass local_task_queue SQLite (\<lambda>_. False) (\<lambda>_. 8) (\<lambda>_ _. sample_env 9) None ''w1'' 10 (\<lambda>_. (1, 1))
      (sample_cloud, ()) empty_local_queue = (Inr res, (d', st'), q') \<and>
    w_received res = 3 \<and> (\<exists>t' \<in> set (tasks d'). rt_id t' = sample_uuid 1 \<and> settled t')"
proof -
  obtain e0 e1 e2 where out: "outbox sample_cloud = [e0, e1, e2]"
    using arg_cong [OF sample_shape(2), of length] by (auto simp: length_Suc_conv eval_nat_numeral)
  have e: "ob_published_at e0 = None" "ob_published_at e1 = None" "ob_published_at e2 = None"
    "ob_created_at e0 = 0" "ob_created_at e1 = 0" "ob_created_at e2 = 0"
    "ob_event_type e1 = ''privacy_task.ready''" "ob_payload e1 = task_payload (sample_uuid 1) (sample_uuid 0) ''jobs''"
    "is_dict (ob_payload e0)" "is_dict (ob_payload e2)"
    using sample_outbox unfolding out by (simp_all add: created_payload_def task_payload_def)
  have cands: "relay_candidates SQLite (\<lambda>_. False) 100 sample_cloud = [e0, e1, e2]"
    using e by (simp add: relay_candidates_def out)
  have ok: "cloud_ok sample_digest sample_cloud"
    using reachable_sys_ok [OF sample_created [of True]] by (simp add: sys_ok_def cloud_ok_def sample_sys_def)
  have "is_dict (ob_payload e1)" by (simp add: e(8) task_payload_def)
  then have dicts: "\<forall>e \<in> set (outbox sample_cloud). is_dict (ob_payload e)" using e(9,10) by (simp add: out)
  have t: "sample_task 1 ''jobs'' \<in> set (tasks sample_cloud)" "rt_status (sample_task 1 ''jobs'') = T_PENDING"
    "rt_id (sample_task 1 ''jobs'') = sample_uuid 1" "sample_uuid 1 \<noteq> []"
    by (simp_all add: sample_shape) (simp_all add: sample_task_def sample_uuid_def)
  from queue_pass_settles [OF ok sample_ids_unused sample_digest_injective _ dicts, of "\<lambda>_ _. sample_env 9" empty_local_queue SQLite
      "\<lambda>_. False" "\<lambda>_. 8" "''w1''" 10 "\<lambda>_. (1, 1)" "()"]
  obtain res d' st' q' where "run_worker_pass local_task_queue SQLite (\<lambda>_. False) (\<lambda>_. 8) (\<lambda>_ _. sample_env 9) None ''w1'' 10 (\<lambda>_. (1, 1))
      (sample_cloud, ()) empty_local_queue = (Inr res, (d', st'), q')" "w_received res = 3"
    "\<forall>t \<in> set (tasks sample_cloud). \<forall>e \<in> set [e0, e1, e2].
       rt_status t = T_PENDING \<and> rt_id t \<noteq> [] \<and> ob_event_type e = ''privacy_task.ready'' \<and>
       (\<exists>r s. ob_payload e = task_payload (rt_id t) r s) \<longrightarrow> (\<exists>t' \<in> set (tasks d'). rt_id t' = rt_id t \<and> settled t')"
    by (auto simp: cands sample_env_def store_accepts_def empty_local_queue_def)
  moreover from this(3) t have "\<exists>t' \<in> set (tasks d'). rt_id t' = sample_uuid 1 \<and> settled t'"
    using e(7,8) by (metis list.set_intros(1,2))
  ultimately show ?thesis by blast
qed

end
