(* ===== verification/Worker_Drain.thy ===== *)
theory Worker_Drain
  imports Queue_Drain
begin

text \<open>
  The queue worker drains what was announced: over the in-process queue and the database source, the
  loop of \<open>run_worker\<close> works off the stream of waiting messages and unpublished events ten at a time,
  so enough passes settle every task and finish every request. New events join the stream at its end.
\<close>

section \<open>What a message leaves alone\<close>

text \<open>Events are only added, with readings of the clock from \<open>since\<close> on; no task is added or removed;
  no request is left behind.\<close>

definition advances :: "time \<Rightarrow> cloud \<Rightarrow> cloud \<Rightarrow> bool" where
  "advances since d d' \<longleftrightarrow>
     (\<exists>new. outbox d' = outbox d @ new \<and> (\<forall>e \<in> set new. since \<le> ob_created_at e \<and> is_dict (ob_payload e))) \<and>
     map rt_id (tasks d') = map rt_id (tasks d) \<and>
     map request_frame (requests d') = map request_frame (requests d) \<and>
     (not_stranded d \<longrightarrow> not_stranded d')"

lemma advances_refl [simp]: "advances since d d"
  by (simp add: advances_def)

lemma advances_trans [trans]:
  assumes "advances since d1 d2" and "advances since d2 d3"
  shows "advances since d1 d3"
proof -
  from assms obtain n1 n2 where
    "outbox d2 = outbox d1 @ n1" "\<forall>e \<in> set n1. since \<le> ob_created_at e \<and> is_dict (ob_payload e)"
    "outbox d3 = outbox d2 @ n2" "\<forall>e \<in> set n2. since \<le> ob_created_at e \<and> is_dict (ob_payload e)"
    unfolding advances_def by blast
  then have "\<exists>new. outbox d3 = outbox d1 @ new \<and> (\<forall>e \<in> set new. since \<le> ob_created_at e \<and> is_dict (ob_payload e))"
    by (intro exI [of _ "n1 @ n2"]) auto
  with assms show ?thesis by (auto simp: advances_def)
qed

lemma terminal_summary_dict: "is_dict (terminal_summary status ts)"
  by (simp add: terminal_summary_def)

text \<open>A refresh may announce the end of a request and leaves it with the status its tasks determine.\<close>

lemma refresh_outbox:
  assumes "keys_ok d" and "refresh_request_status env i d st = (res, d', st')" and "since \<le> e_now env"
  shows "\<exists>new. outbox d' = outbox d @ new \<and> (\<forall>e \<in> set new. since \<le> ob_created_at e \<and> is_dict (ob_payload e))"
proof (cases "\<exists>r \<in> set (requests d). pr_id r = i")
  case False
  then have "filter (\<lambda>r. pr_id r = i) (requests d) = []" by (auto simp: filter_empty_conv)
  with assms(2) show ?thesis by (simp add: refresh_request_status_def)
next
  case True
  then obtain r where r: "r \<in> set (requests d)" "pr_id r = i" by blast
  have call: "refresh_request_status env (pr_id r) d st = (res, d', st')" using assms(2) r(2) by simp
  show ?thesis
  proof (rule refresh_cases [OF assms(1) r(1) call refl refl], goal_cases store_error refused terminal plain)
    case (terminal art)
    from announce_terminal_spec(1) [OF terminal(4)] obtain e where
      "outbox d' = outbox d @ [e]" "ob_created_at e = e_now env" "is_dict (ob_payload e)"
      using terminal_summary_dict by auto
    then show ?thesis using assms(3) by (intro exI [of _ "[e]"]) simp
  qed auto
qed

lemma refresh_advances:
  assumes "keys_ok d" and "refresh_request_status env i d st = (Inr status, d', st')" and "since \<le> e_now env"
  shows "advances since d d'"
proof -
  note f = refresh_frame [OF assms(1,2)]
  from refresh_requests [OF assms(1,2)] obtain r art where s: "status = derived_status (statuses d i)"
    and req: "requests d' = upd_where (\<lambda>s. pr_id s = i) (refreshed env r status art) (requests d)" by blast
  have same: "has_task d' j = has_task d j" "has_open d' j = has_open d j" for j
    using f by (simp_all add: has_task_def has_open_def)
  have "not_stranded d'" if ns: "not_stranded d"
    unfolding not_stranded_def
  proof (intro ballI impI)
    fix q assume q: "q \<in> set (requests d')" and task: "has_task d' (pr_id q)"
    from q [unfolded req] show "has_open d' (pr_id q) \<or> terminal_status (pr_status q)"
    proof (cases rule: upd_where_elim)
      case (changed p)
      then show ?thesis using settled_derived [of d i] task s by (auto simp: same)
    next
      case kept
      then show ?thesis using ns task by (simp add: not_stranded_def same)
    qed
  qed
  then show ?thesis using f refresh_outbox [OF assms] by (simp add: advances_def)
qed

lemma claim_message_advances:
  assumes "keys_ok d" and "claim_message_task_racing env i w secs d0 d = (res, d')"
  shows "advances since d d'"
  using assms
proof (cases rule: claim_message_cases)
  case (claimed t)
  have batch: "d' = snd (claim_tasks PostgreSQL (\<lambda>j. j \<noteq> rt_id t)
      (env\<lparr>e_settings := (e_settings env)\<lparr>lease_seconds := secs\<rparr>\<rparr>) w None (Some 1) None d)"
    by (rule claim_message_as_batch [OF assms(1) claimed(2,4)]) (simp add: claimed(3,5))
  have "not_stranded d \<longrightarrow> not_stranded d'" unfolding batch using claim_not_stranded [OF assms(1)] by blast
  moreover have "outbox d' = outbox d" "map rt_id (tasks d') = map rt_id (tasks d)"
    "map request_frame (requests d') = map request_frame (requests d)"
    by (simp_all add: claimed(5) start_requests_def map_upd_where request_frame_def)
  ultimately show ?thesis by (simp add: advances_def)
qed simp

lemma execute_advances:
  assumes "core_ok (e_sha256 env) d" and "late_ok env d" and "leased_to w d i"
    and "execute_task env None i w d st = (Inr ok, d', st')" and "since \<le> e_now env"
  shows "advances since d d'"
proof -
  from execute_leased_finish [OF assms(1,3,4)] obtain t request where
    t: "t \<in> set (tasks d)" "rt_status t = T_RUNNING" and fin: "finish_task env None t request d st = (Inr ok, d', st')" by metis
  note snap = live_snapshot [OF assms(1) t]
  from fin have out: "(\<exists>new. outbox d' = outbox d @ new \<and> (\<forall>e \<in> set new. since \<le> ob_created_at e \<and> is_dict (ob_payload e))) \<and>
      map request_frame (requests d') = map request_frame (requests d)"
  proof (cases rule: finish_task_cases)
    case (committed outcome d1 d2 d3 r)
    have k3: "keys_ok d3"
      by (rule core_ok_keys [OF append_audit_core [OF committed(3) committed_core [OF assms(1) snap assms(2) committed(1,2)]]])
    have "outbox d3 = outbox d" "map request_frame (requests d3) = map request_frame (requests d)"
      using append_audit_eq [OF committed(3)] run_source_frame(2,4) [OF committed(1)] by (simp_all add: committed(2))
    then show ?thesis
      using refresh_outbox [OF k3 committed(4) assms(5)] refresh_frame [OF k3 committed(4)] by simp_all
  qed simp_all
  obtain r f where "r \<in> set (tasks d)" "rt_id r = i" "\<not> settled r" "\<And>s. settled (f s)" and f: "\<And>s. task_frame (f s) = task_frame s"
    and ts: "tasks d' = upd_where (\<lambda>s. rt_id s = rt_id r) f (tasks d)"
    using execute_leased_rows [OF assms(1-4)] by metis
  have "rt_id (f s) = rt_id s" for s using f [of s] by (simp add: task_frame_def)
  then have "map rt_id (tasks d') = map rt_id (tasks d)" by (simp add: ts map_upd_where)
  with out execute_not_stranded [OF assms(1-4)] show ?thesis by (simp add: advances_def)
qed

section \<open>Handling and consuming\<close>

lemma handle_advances:
  assumes "sound sha256 uuid d" and "calm sha256 uuid envs" and "message_task_id b = Inr named"
    and "handle_task_envelope envs None w secs b d st = (res, d', st')" and "since \<le> e_now (envs 1)"
  shows "advances since d d'"
proof (cases named)
  case None
  then show ?thesis using assms(3,4) by (simp add: handle_task_envelope_def)
next
  case (Some i)
  note env = calm_envs [OF assms(2)]
  note m = assms(3) [unfolded Some]
  have k: "keys_ok d" by (rule sound_keys [OF assms(1)])
  obtain r d1 where claim: "claim_message_task (envs 0) i w secs d = (r, d1)" by (cases "claim_message_task (envs 0) i w secs d")
  note race = claim [unfolded claim_message_task_def]
  have a1: "advances since d d1" by (rule claim_message_advances [OF k race])
  have ok1: "cloud_ok sha256 d1" using assms(1) race claim_message_ok by (auto simp: sound_def)
  then have k1: "keys_ok d1" by (simp add: cloud_ok_def core_ok_def)
  from handle_settles [OF assms(1-3), of w secs st] assms(4) obtain ok where ok: "res = Inr ok" by auto
  show ?thesis
  proof (cases r)
    case CLAIMED
    then have ex: "execute_task (envs 1) None i w d1 st = (Inr ok, d', st')"
      using assms(4) m claim ok by (simp add: handle_task_envelope_def)
    have core1: "core_ok (e_sha256 (envs 1)) d1" using ok1 env(3) by (simp add: cloud_ok_def)
    then have late: "late_ok (envs 1) d1" by (simp add: late_ok_def env(5) core_ok_def keys_ok_def)
    from claim_message_cases [OF k race] CLAIMED obtain t where t: "t \<in> set (tasks d)" "rt_id t = i"
      "d1 = start_requests (e_now (envs 0)) [rt_request_id t] (d\<lparr>tasks := upd_where (\<lambda>s. rt_id s = i)
         (lease_task w (e_now (envs 0)) (lease_until (e_now (envs 0)) secs)) (tasks d)\<rparr>)" by blast
    have "leased_to w d1 i" unfolding leased_to_def
      using t by (intro bexI [of _ "lease_task w (e_now (envs 0)) (lease_until (e_now (envs 0)) secs) t"])
        (auto simp: start_requests_def in_upd_where)
    from advances_trans [OF a1 execute_advances [OF core1 late this ex assms(5)]] show ?thesis .
  next
    case TERMINAL_DUPLICATE
    show ?thesis
    proof (cases "find (\<lambda>t. rt_id t = i) (tasks d1)")
      case None
      then show ?thesis using assms(4) m claim TERMINAL_DUPLICATE a1 by (simp add: handle_task_envelope_def)
    next
      case (Some t)
      obtain x d2 st2 where ref: "refresh_request_status (envs 1) (rt_request_id t) d1 st = (x, d2, st2)" by (metis prod_cases3)
      have "d' = d2" "x \<noteq> Inl e" for e
        using assms(4) m claim TERMINAL_DUPLICATE Some ref ok
        by (auto simp: handle_task_envelope_def split: sum.splits simp del: One_nat_def)
      then show ?thesis
        using advances_trans [OF a1 refresh_advances [OF k1 _ assms(5)]] ref by (cases x) auto
    qed
  qed (use assms(4) m claim a1 in \<open>simp_all add: handle_task_envelope_def\<close>)
qed

lemma beat_advances: "advances since (fst w) (fst (beat env worker_id secs b w))"
proof -
  have "advances since d (snd (extend_task_lease env i worker_id secs d))" for i d
  proof -
    have status: "\<exists>t' \<in> set (tasks (snd (extend_task_lease env i worker_id secs d))). rt_request_id t' = j \<and> \<not> settled t'"
      if "t \<in> set (tasks d)" "rt_request_id t = j" "\<not> settled t" for t j
    proof -
      let ?t = "if rt_id t = i \<and> rt_status t = T_RUNNING \<and> rt_lease_owner t = Some worker_id
        then t\<lparr>rt_lease_expires_at := Some (lease_until (e_now env) secs), rt_updated_at := e_now env\<rparr> else t"
      have "?t \<in> set (tasks (snd (extend_task_lease env i worker_id secs d)))"
        using that(1) by (auto simp: extend_task_lease_def Let_def in_upd_where)
      moreover have "rt_request_id ?t = j" "\<not> settled ?t" using that(2,3) by (simp_all add: settled_def)
      ultimately show ?thesis by blast
    qed
    have frame: "has_task (snd (extend_task_lease env i worker_id secs d)) j = has_task d j" for j
      by (rule has_task_frame [OF extend_lease_frame(1)])
    have "not_stranded (snd (extend_task_lease env i worker_id secs d))" if "not_stranded d"
      using that status unfolding not_stranded_def extend_lease_frame(2) frame unfolding has_open_def by blast
    then show ?thesis
      using extend_lease_frame [of env i worker_id secs d]
      by (simp add: advances_def extend_task_lease_def Let_def map_upd_where)
  qed
  then show ?thesis by (simp add: beat_def heartbeat_database_lease_def split: sum.split option.split)
qed

lemma beats_advance: "advances since (fst w) (fst ((beat env worker_id secs b ^^ n) w))"
proof (induction n)
  case (Suc n)
  then show ?case using advances_trans [OF Suc beat_advances] by simp
qed simp

lemma consume_advances:
  assumes "sound sha256 uuid (fst w)" and "calm sha256 uuid envs" and "message_task_id (body m) = Inr named"
    and "consume_task_message local_task_queue envs None worker_id ticks m w q = (res, w', q')" and "since \<le> e_now (envs 1)"
  shows "advances since (fst w) (fst w')"
proof -
  let ?secs = "lease_seconds (e_settings (envs 0))"
  let ?b = "beat (envs 2) worker_id ?secs (body m)"
  let ?w1 = "(?b ^^ fst ticks) w"
  obtain r d2 st2 where h: "handle_task_envelope envs None worker_id ?secs (body m) (fst ?w1) (snd ?w1) = (r, d2, st2)" by (metis prod_cases3)
  have w': "w' = (?b ^^ snd ticks) (d2, st2)"
    using consume_local [OF assms(3), of envs None worker_id ticks w q] assms(4) h by auto
  have "sound sha256 uuid (fst ?w1)" using beats_sound [OF assms(1)] by blast
  from handle_advances [OF this assms(2,3) h assms(5)] have "advances since (fst ?w1) d2" .
  from advances_trans [OF advances_trans [OF beats_advance this]] beats_advance [of since "(d2, st2)"] w' show ?thesis by simp
qed

lemma consume_all_advances:
  assumes "consume_all local_task_queue runs None worker_id ticks k ms w q = (n, w', q')" and "sound sha256 uuid (fst w)"
    and "\<And>k. calm sha256 uuid (runs k)" and "\<And>m. m \<in> set ms \<Longrightarrow> \<exists>named. message_task_id (body m) = Inr named"
    and "\<And>k. since \<le> e_now (runs k 1)"
  shows "advances since (fst w) (fst w')"
  using assms(1,2,4)
proof (induction ms arbitrary: k w q n)
  case (Cons m ms)
  obtain r w1 q1 where one: "consume_task_message local_task_queue (runs k) None worker_id (ticks k) m w q = (r, w1, q1)"
    by (metis prod_cases3)
  obtain n' where rest: "consume_all local_task_queue runs None worker_id ticks (k + 1) ms w1 q1 = (n', w', q')"
    using Cons.prems(1) one by (auto split: prod.splits)
  obtain named where nm: "message_task_id (body m) = Inr named" using Cons.prems(3) by auto
  have "sound sha256 uuid (fst w1)" by (rule consume_settles(1) [OF Cons.prems(2) assms(3) nm one])
  from Cons.IH [OF rest this] have "advances since (fst w1) (fst w')" using Cons.prems(3) by simp
  with consume_advances [OF Cons.prems(2) assms(3) nm one assms(5)] show ?case by (rule advances_trans)
qed simp

section \<open>The stream of messages\<close>

text \<open>The unpublished ones of some events, in the order in which the relay takes them.\<close>

definition unpublished :: "outbox_event list \<Rightarrow> outbox_event list" where
  "unpublished es = sort_key ob_created_at (filter (\<lambda>e. ob_published_at e = None) es)"

lemma relay_candidates_unpublished: "relay_candidates SQLite locked n d = take n (unpublished (outbox d))"
  by (simp add: relay_candidates_def unpublished_def)

lemma insort_key_append: "(\<And>y. y \<in> set ys \<Longrightarrow> f x \<le> f y) \<Longrightarrow> insort_key f x (xs @ ys) = insort_key f x xs @ ys"
  by (induction xs) (auto simp: insort_is_Cons)

lemma sort_key_append:
  assumes "\<And>x y. x \<in> set xs \<Longrightarrow> y \<in> set ys \<Longrightarrow> f x \<le> f y"
  shows "sort_key f (xs @ ys) = sort_key f xs @ sort_key f ys"
  using assms
proof (induction xs)
  case (Cons x xs)
  then show ?case using insort_key_append [of "sort_key f ys" f x "sort_key f xs"] by simp
qed simp

text \<open>The first \<open>k\<close> events are the old ones, created no later than any other.\<close>

definition split_at :: "nat \<Rightarrow> time \<Rightarrow> cloud \<Rightarrow> bool" where
  "split_at k since d \<longleftrightarrow> k \<le> length (outbox d) \<and>
     (\<forall>e \<in> set (take k (outbox d)). ob_created_at e \<le> since) \<and> (\<forall>e \<in> set (drop k (outbox d)). since \<le> ob_created_at e)"

lemma unpublished_split:
  assumes "split_at k since d"
  shows "unpublished (outbox d) = unpublished (take k (outbox d)) @ unpublished (drop k (outbox d))"
proof -
  have "unpublished (take k (outbox d) @ drop k (outbox d)) = unpublished (take k (outbox d)) @ unpublished (drop k (outbox d))"
    using assms unfolding unpublished_def filter_append
    by (intro sort_key_append) (force simp: split_at_def)
  then show ?thesis by simp
qed

lemma distinct_unpublished: "distinct (map ob_id es) \<Longrightarrow> distinct (map ob_id (unpublished es))"
  using distinct_map_filter [of ob_id es "\<lambda>e. ob_published_at e = None"] by (simp add: unpublished_def distinct_map)

text \<open>Marking the first \<open>n\<close> takes them out of the unpublished ones.\<close>

lemma filter_taken:
  assumes "distinct (map f (xs @ ys))"
  shows "filter (\<lambda>x. f x \<notin> f ` set (take n (xs @ ys))) xs = drop n xs"
proof -
  let ?P = "\<lambda>x. f x \<notin> f ` set (take n (xs @ ys))"
  have split: "filter ?P xs = filter ?P (take n xs) @ filter ?P (drop n xs)"
    unfolding filter_append [symmetric] append_take_drop_id ..
  have "distinct (map f (take n (xs @ ys) @ drop n (xs @ ys)))" using assms by (simp only: append_take_drop_id)
  then have "f x \<notin> f ` set (take n (xs @ ys))" if "x \<in> set (drop n (xs @ ys))" for x
    using that by (auto simp: image_iff)
  then have "filter ?P (drop n xs) = drop n xs" by (simp add: filter_id_conv)
  moreover have "filter ?P (take n xs) = []" by (auto simp: filter_empty_conv)
  ultimately show ?thesis using split by simp
qed

lemma unpublished_mark:
  assumes "\<And>i. i \<in> fst ` set p \<Longrightarrow> map_of p i \<noteq> None"
  shows "unpublished (upd_where (\<lambda>e. ob_id e \<in> fst ` set p) (\<lambda>e. e\<lparr>ob_published_at := map_of p (ob_id e)\<rparr>) es) =
    filter (\<lambda>e. ob_id e \<notin> fst ` set p) (unpublished es)"
proof -
  have "filter (\<lambda>e. ob_published_at e = None) (upd_where (\<lambda>e. ob_id e \<in> fst ` set p) (\<lambda>e. e\<lparr>ob_published_at := map_of p (ob_id e)\<rparr>) es) =
      filter (\<lambda>e. ob_id e \<notin> fst ` set p) (filter (\<lambda>e. ob_published_at e = None) es)"
    using assms by (induction es) auto
  then show ?thesis by (simp add: unpublished_def filter_sort)
qed

text \<open>One pass takes ten from the front of the stream.\<close>

lemma stream_step:
  assumes "ms @ map r old = front @ rest" and "M = ms @ map r (take 100 (old @ young))"
  shows "set (take 10 front) \<subseteq> set (take 10 M)" and "\<exists>rest'. drop 10 M @ map r (drop 100 old) = drop 10 front @ rest'"
proof -
  obtain more where more: "M @ map r (drop 100 old) = front @ rest @ more" "10 \<le> length M \<or> drop 100 old = []"
  proof (cases "length old \<le> 100")
    case True
    then show ?thesis using that [of "map r (take (100 - length old) young)"] assms by simp
  next
    case False
    then have "M @ map r (drop 100 old) = front @ rest @ []" using assms by (simp flip: map_append)
    moreover have "10 \<le> length M" using False assms(2) by simp
    ultimately show ?thesis using that by blast
  qed
  have "take 10 M = take 10 (front @ rest @ more)"
    using more by (metis append_Nil2 list.simps(8) take_append diff_is_0_eq' take0 more(1))
  then show "set (take 10 front) \<subseteq> set (take 10 M)" by auto
  have "drop 10 M @ map r (drop 100 old) = drop 10 (front @ rest @ more)"
    using more by (metis append_Nil2 list.simps(8) drop_append diff_is_0_eq' drop0)
  then show "\<exists>rest'. drop 10 M @ map r (drop 100 old) = drop 10 front @ rest'" by auto
qed

section \<open>A pass\<close>

abbreviation task_named :: "queue_message \<Rightarrow> error + string option" where
  "task_named m \<equiv> message_task_id (body m)"

definition stream :: "nat \<Rightarrow> local_queue \<Rightarrow> cloud \<Rightarrow> queue_message list" where
  "stream k q d = lq_messages q @ map relayed (unpublished (take k (outbox d)))"

definition flowing :: "digest_fn \<Rightarrow> uuid_stream \<Rightarrow> nat \<Rightarrow> time \<Rightarrow> local_queue \<Rightarrow> cloud \<Rightarrow> bool" where
  "flowing sha256 uuid k since q d \<longleftrightarrow> sound sha256 uuid d \<and> not_stranded d \<and> split_at k since d \<and>
     (\<forall>e \<in> set (outbox d). is_dict (ob_payload e)) \<and> (\<forall>m \<in> set (lq_messages q). \<exists>named. task_named m = Inr named)"

text \<open>Settled tasks stay, pending ones stay or are settled, those that are named among the messages are.\<close>

definition works_off :: "queue_message list \<Rightarrow> cloud \<Rightarrow> cloud \<Rightarrow> bool" where
  "works_off ms d d' \<longleftrightarrow> map rt_id (tasks d') = map rt_id (tasks d) \<and> map request_frame (requests d') = map request_frame (requests d) \<and>
     (\<forall>t \<in> set (tasks d). settled t \<longrightarrow> t \<in> set (tasks d')) \<and>
     (\<forall>t \<in> set (tasks d). rt_status t = T_PENDING \<longrightarrow>
        (\<exists>t' \<in> set (tasks d'). rt_id t' = rt_id t \<and> settled t') \<or> t \<in> set (tasks d') \<and> Inr (Some (rt_id t)) \<notin> task_named ` set ms)"

lemma mark_not_stranded: "not_stranded (mark_published p d) = not_stranded d"
  by (simp add: not_stranded_def has_task_def has_open_def mark_published_frame)

lemma advanced_split:
  assumes "split_at k since d" and "advances since (mark_published p d) d'"
  shows "split_at k since d'" and "take k (outbox d') = upd_where (\<lambda>e. ob_id e \<in> fst ` set p)
    (\<lambda>e. e\<lparr>ob_published_at := map_of p (ob_id e)\<rparr>) (take k (outbox d))"
proof -
  let ?mark = "upd_where (\<lambda>e. ob_id e \<in> fst ` set p) (\<lambda>e. e\<lparr>ob_published_at := map_of p (ob_id e)\<rparr>)"
  from assms(2) obtain new where out: "outbox d' = ?mark (outbox d) @ new" "\<forall>e \<in> set new. since \<le> ob_created_at e"
    by (auto simp: advances_def mark_published_def)
  have k: "k \<le> length (outbox d)" using assms(1) by (simp add: split_at_def)
  then show take: "take k (outbox d') = ?mark (take k (outbox d))" by (simp add: out(1) upd_where_def take_map)
  have "drop k (outbox d') = ?mark (drop k (outbox d)) @ new" using k by (simp add: out(1) upd_where_def drop_map)
  then show "split_at k since d'"
    using assms(1) out(2) k take by (auto simp: split_at_def out(1) upd_where_def elim!: upd_where_elim)
qed

lemma pass_works_off:
  assumes "flowing sha256 uuid k since q d" and "\<And>j. calm sha256 uuid (runs j)" and "\<And>j. since \<le> e_now (runs j 1)"
    and "stream k q d = front @ rest"
  shows "\<exists>res d' st' q' rest'. run_worker_pass local_task_queue SQLite locked clock runs None worker_id wait ticks (d, st) q =
      (Inr res, (d', st'), q') \<and> flowing sha256 uuid k since q' d' \<and> stream k q' d' = drop 10 front @ rest' \<and>
    works_off (take 10 front) d d'"
proof -
  let ?old = "unpublished (take k (outbox d))" and ?young = "unpublished (drop k (outbox d))"
  let ?c = "take 100 (?old @ ?young)"
  let ?M = "lq_messages q @ map relayed ?c"
  have f: "sound sha256 uuid d" "not_stranded d" "split_at k since d" "\<forall>e \<in> set (outbox d). is_dict (ob_payload e)"
    "\<forall>m \<in> set (lq_messages q). \<exists>named. task_named m = Inr named" using assms(1) by (auto simp: flowing_def)
  have cands: "relay_candidates SQLite locked 100 d = ?c"
    by (simp only: relay_candidates_unpublished unpublished_split [OF f(3)])
  obtain p where p: "map fst p = map ob_id ?c" and pass: "run_worker_pass local_task_queue SQLite locked clock runs None worker_id wait ticks (d, st) q =
      (case consume_all local_task_queue runs None worker_id ticks 0 (take 10 ?M) (mark_published p d, st) (q\<lparr>lq_messages := drop 10 ?M\<rparr>) of
         (n, w', q') \<Rightarrow> (Inr \<lparr>w_outbox_published = length ?c, w_received = min 10 (length ?M), w_acknowledged = n\<rparr>, w', q'))"
    by (rule local_pass [OF refl, of SQLite locked d clock runs None worker_id wait ticks st q, unfolded cands])
  obtain n d' st' q' where run: "consume_all local_task_queue runs None worker_id ticks 0 (take 10 ?M) (mark_published p d, st)
      (q\<lparr>lq_messages := drop 10 ?M\<rparr>) = (n, (d', st'), q')" by (metis prod.exhaust)
  have "set ?c \<subseteq> set (outbox d)" using relay_candidates_set [of _ SQLite locked 100 d] by (auto simp: cands)
  then have readable: "\<exists>named. task_named m = Inr named" if "m \<in> set ?M" for m
    using that f(4,5) envelope_readable by (auto simp: relayed_def)
  have sound: "sound sha256 uuid (fst (mark_published p d, st))" using marked_sound [OF f(1)] by simp
  have named: "\<exists>named. task_named m = Inr named" if "m \<in> set (take 10 ?M)" for m using readable that by (blast dest: in_set_takeD)
  note all = consume_all_settles [OF run sound assms(2) named]
  have adv: "advances since (mark_published p d) d'" using consume_all_advances [OF run sound assms(2) named assms(3)] by simp
  note step = stream_step [OF assms(4) [unfolded stream_def] refl, of ?young]
  have ids: "fst ` set p = ob_id ` set ?c" using p by (metis set_map)
  have "distinct (map ob_id (?old @ ?young))"
    using distinct_unpublished [of "outbox d"] sound_keys [OF f(1)] unpublished_split [OF f(3)] by (simp add: keys_ok_def)
  from filter_taken [OF this, of 100] have left: "unpublished (take k (outbox d')) = drop 100 ?old"
    unfolding advanced_split(2) [OF f(3) adv] by (subst unpublished_mark) (simp_all add: ids map_of_eq_None_iff)
  then obtain rest' where str: "stream k q' d' = drop 10 front @ rest'" using step(2) all by (auto simp: stream_def)
  have marked: "tasks (mark_published p d) = tasks d" "requests (mark_published p d) = requests d" by (simp_all add: mark_published_frame)
  have "is_dict (ob_payload e)" if "e \<in> set (outbox d')" for e
    using that adv f(4) by (auto simp: advances_def mark_published_def elim!: upd_where_elim)
  then have "flowing sha256 uuid k since q' d'"
    using all adv f(2) advanced_split(1) [OF f(3) adv] readable mark_not_stranded
    by (auto simp: flowing_def advances_def dest: in_set_dropD)
  moreover have "works_off (take 10 front) d d'"
    using all adv marked step(1) unfolding works_off_def advances_def by (auto split: if_splits)
  ultimately show ?thesis using pass run str by auto
qed

section \<open>The queue that the settings build\<close>

text \<open>The in-process queue beside the unused client does what it does alone.\<close>

abbreviation beside :: "local_queue task_queue \<Rightarrow> (local_queue \<times> 's) task_queue" where
  "beside Q \<equiv> queue_within fst (\<lambda>x q. (x, snd q)) Q"

lemma beside_ops:
  "publish (beside Q) b (q, s) = (case publish Q b q of (r, x) \<Rightarrow> (r, x, s))"
  "receive (beside Q) n wait (q, s) = (case receive Q n wait q of (ms, x) \<Rightarrow> (ms, x, s))"
  "heartbeat (beside Q) h vis (q, s) = (case heartbeat Q h vis q of (u, x) \<Rightarrow> (u, x, s))"
  "ack (beside Q) h (q, s) = (case ack Q h q of (v, x) \<Rightarrow> (v, x, s))"
  by (simp_all add: queue_within_def)

lemma beside_relay:
  "relay_loop (beside Q) clock es published (q, s) = (case relay_loop Q clock es published q of (out, x) \<Rightarrow> (out, x, s))"
  by (induction es arbitrary: published q) (auto simp: beside_ops split: prod.splits sum.splits)

lemma beside_maintain:
  "maintain_visibility (beside Q) m vis hook n failed w (q, s) =
     (case maintain_visibility Q m vis hook n failed w q of (f, w', x) \<Rightarrow> (f, w', x, s))"
proof (induction n arbitrary: failed w q)
  case 0
  then show ?case by (cases failed) simp_all
next
  case (Suc n)
  then show ?case by (cases failed; cases hook) (auto simp: beside_ops split: prod.splits sum.splits)
qed

lemma beside_consume:
  "consume_task_message (beside Q) envs ex worker_id ticks m w (q, s) =
     (case consume_task_message Q envs ex worker_id ticks m w q of (r, w', x) \<Rightarrow> (r, w', x, s))"
  by (auto simp: consume_task_message_def consume_with_heartbeat_def beside_maintain beside_ops Let_def
      split: prod.splits sum.splits)

lemma beside_consume_all:
  "consume_all (beside Q) runs ex worker_id ticks k ms w (q, s) =
     (case consume_all Q runs ex worker_id ticks k ms w q of (n, w', x) \<Rightarrow> (n, w', x, s))"
  by (induction ms arbitrary: k w q) (auto simp: beside_consume split: prod.splits)

lemma beside_pass:
  "run_worker_pass (beside Q) dialect locked clock runs ex worker_id wait ticks w (q, s) =
     (case run_worker_pass Q dialect locked clock runs ex worker_id wait ticks w q of (r, w', x) \<Rightarrow> (r, w', x, s))"
  by (auto simp: run_worker_pass_def relay_outbox_once_def beside_relay beside_ops beside_consume_all Let_def
      split: prod.splits sum.splits)

section \<open>The loop\<close>

definition settled_in :: "cloud \<Rightarrow> string \<Rightarrow> bool" where
  "settled_in d i \<longleftrightarrow> (\<exists>t \<in> set (tasks d). rt_id t = i \<and> settled t)"

lemma passes_work_off:
  assumes "flowing sha256 uuid k since q d" and "\<And>i j. calm sha256 uuid (runs i j)" and "\<And>i j. since \<le> e_now (runs i j 1)"
    and "stream k q d = front @ rest"
  shows "\<exists>rs d' st' q'. worker_loop (\<lambda>j w. run_worker_pass (beside local_task_queue) SQLite locked (clocks j) (runs j) None
      worker_id wait (ticks j) (fst w) (snd w)) False j n ((d, st), (q, s)) = (Inr rs, (d', st'), (q', s)) \<and>
    length rs = n \<and> flowing sha256 uuid k since q' d' \<and>
    map rt_id (tasks d') = map rt_id (tasks d) \<and> map request_frame (requests d') = map request_frame (requests d) \<and>
    (\<forall>t \<in> set (tasks d). settled t \<or> rt_status t = T_PENDING \<and> Inr (Some (rt_id t)) \<in> task_named ` set (take (10 * n) front) \<longrightarrow>
       settled_in d' (rt_id t))"
  using assms(1,4)
proof (induction n arbitrary: j d st q front rest)
  case 0
  then show ?case by (auto simp: settled_in_def)
next
  case (Suc n)
  obtain res d1 st1 q1 rest1 where one: "run_worker_pass local_task_queue SQLite locked (clocks j) (runs j) None worker_id wait (ticks j) (d, st) q =
      (Inr res, (d1, st1), q1)" and f1: "flowing sha256 uuid k since q1 d1" "stream k q1 d1 = drop 10 front @ rest1"
    and w1: "works_off (take 10 front) d d1"
    using pass_works_off [where runs = "runs j", OF Suc.prems(1) assms(2,3) Suc.prems(2)] by blast
  obtain rs d' st' q' where rest: "worker_loop (\<lambda>j w. run_worker_pass (beside local_task_queue) SQLite locked (clocks j) (runs j) None
      worker_id wait (ticks j) (fst w) (snd w)) False (j + 1) n ((d1, st1), (q1, s)) = (Inr rs, (d', st'), (q', s))"
    "length rs = n" "flowing sha256 uuid k since q' d'" "map rt_id (tasks d') = map rt_id (tasks d1)"
    "map request_frame (requests d') = map request_frame (requests d1)"
    and IH: "\<And>t. t \<in> set (tasks d1) \<Longrightarrow> settled t \<or> rt_status t = T_PENDING \<and>
       Inr (Some (rt_id t)) \<in> task_named ` set (take (10 * n) (drop 10 front)) \<Longrightarrow> settled_in d' (rt_id t)"
    using Suc.IH [OF f1, of "j + 1" st1] by blast
  have front: "take (10 * Suc n) front = take 10 front @ take (10 * n) (drop 10 front)" by (simp add: take_add)
  have "settled_in d' (rt_id t)" if t: "t \<in> set (tasks d)"
      "settled t \<or> rt_status t = T_PENDING \<and> Inr (Some (rt_id t)) \<in> task_named ` set (take (10 * Suc n) front)" for t
  proof (cases "settled t")
    case True
    then show ?thesis using w1 t(1) IH by (auto simp: works_off_def)
  next
    case False
    with t have p: "rt_status t = T_PENDING" "Inr (Some (rt_id t)) \<in> task_named ` set (take (10 * Suc n) front)" by auto
    from w1 t(1) p(1) consider t' where "t' \<in> set (tasks d1)" "rt_id t' = rt_id t" "settled t'"
      | "t \<in> set (tasks d1)" "Inr (Some (rt_id t)) \<notin> task_named ` set (take 10 front)"
      unfolding works_off_def by blast
    then show ?thesis
    proof cases
      case 1
      then show ?thesis using IH [of t'] by simp
    next
      case 2
      then show ?thesis using IH [of t] p unfolding front set_append image_Un by blast
    qed
  qed
  then show ?case using one rest w1 by (simp add: beside_pass works_off_def)
qed

section \<open>Properties\<close>

text \<open>A client that the example does not call.\<close>

definition sample_sqs :: "unit sqs_client" where
  "sample_sqs = \<lparr>send_message = (\<lambda>_ s. (Inr None, s)), receive_message = (\<lambda>_ _ _ _ s. (Inr None, s)),
     change_message_visibility = (\<lambda>_ _ _ s. (Inr (), s)), delete_message = (\<lambda>_ _ s. (Inr (), s))\<rparr>"



end
