(* ===== verification/Sqs.thy ===== *)
theory Sqs
  imports Queue_Props System_Props
begin

text \<open>
  Acknowledgement on any queue: the interface \<open>acknowledging_queue\<close> says what a queue records of
  acknowledgements, the in-process queue and the SQS adapter provide it, and a consumed message is
  acknowledged only when its task needs no more work. \<open>sqs_contract\<close> is what SQS documents of its
  calls; the client that the repository's tests use keeps it.
\<close>

section \<open>The client of the tests\<close>

text \<open>\<open>FakeSqsClient\<close> of \<open>tests/test_aws_adapters.py\<close>: it records its calls.\<close>

record fake_sqs_client =
  fk_sent :: "sqs_send list"
  fk_visibility_changes :: "(string \<times> string \<times> int) list"
  fk_deleted :: "(string \<times> string) list"

definition fake_receipt :: sqs_raw_message where
  "fake_receipt = \<lparr>raw_MessageId = Some ''sqs-message-1'', raw_ReceiptHandle = Some ''receipt-1'',
     raw_Body = Some (json_dumps True (JObj [(''event_id'', JStr ''event-1''),
       (''payload'', JObj [(''task_id'', JStr ''task-1'')])])),
     raw_Attributes = Some [(''ApproximateReceiveCount'', ''3'')]\<rparr>"

definition fake_client :: "fake_sqs_client sqs_client" where
  "fake_client =
     \<lparr>send_message = (\<lambda>arguments s. (Inr (Some ''sqs-message-1''), s\<lparr>fk_sent := fk_sent s @ [arguments]\<rparr>)),
      receive_message = (\<lambda>url n wait vis s. (Inr (Some [fake_receipt]), s)),
      change_message_visibility = (\<lambda>url handle vis s.
        (Inr (), s\<lparr>fk_visibility_changes := fk_visibility_changes s @ [(url, handle, vis)]\<rparr>)),
      delete_message = (\<lambda>url handle s. (Inr (), s\<lparr>fk_deleted := fk_deleted s @ [(url, handle)]\<rparr>))\<rparr>"

definition new_fake :: fake_sqs_client where
  "new_fake = \<lparr>fk_sent = [], fk_visibility_changes = [], fk_deleted = []\<rparr>"

section \<open>What a queue records of acknowledgements\<close>

text \<open>
  A call that raises may have reached the service or not, so an acknowledgement that fails may still
  have been recorded.
\<close>

locale acknowledging_queue =
  fixes Q :: "'q task_queue" and acked :: "'q \<Rightarrow> string list"
  assumes ack_done: "ack Q h q = (Inr u, q') \<Longrightarrow> acked q' = acked q @ [h]"
    and ack_failed: "ack Q h q = (Inl e, q') \<Longrightarrow> acked q' = acked q \<or> acked q' = acked q @ [h]"
    and heartbeat_acks: "heartbeat Q h vis q = (b, q') \<Longrightarrow> acked q' = acked q"
    and publish_acks: "publish Q j q = (i, q') \<Longrightarrow> acked q' = acked q"
    and receive_acks: "receive Q n wait q = (ms, q') \<Longrightarrow> acked q' = acked q"
begin

lemma maintain_acks:
  "maintain_visibility Q m vis hook n f w q = (f', w', q') \<Longrightarrow> acked q' = acked q"
proof (induction n arbitrary: f w q)
  case 0
  then show ?case by (cases f) simp_all
next
  case (Suc n)
  show ?case
  proof (cases f)
    case None
    obtain r q1 where hb: "heartbeat Q (receipt_handle m) vis q = (r, q1)" by (cases "heartbeat Q (receipt_handle m) vis q")
    with Suc None heartbeat_acks [OF hb] show ?thesis by (auto split: prod.splits sum.splits option.splits)
  qed (use Suc in simp)
qed

text \<open>
  The handler runs once, on the state that the heartbeats before it left; the message is acknowledged
  only when it returned true, and it was when the consumer returns true.
\<close>

lemma consume_acks:
  assumes "consume_with_heartbeat Q m handler vis hook ticks w q = (res, w', q')"
  obtains f1 w1 q1 r w2 f2 q2 where
    "maintain_visibility Q m vis hook (fst ticks) None w q = (f1, w1, q1)" "handler (body m) w1 = (r, w2)"
    "maintain_visibility Q m vis hook (snd ticks) f1 w2 q2 = (f2, w', q')"
    "acked q' = acked q \<or> r = Inr True \<and> acked q' = acked q @ [receipt_handle m]"
    "res = Inr True \<longrightarrow> acked q' = acked q @ [receipt_handle m]"
proof -
  obtain f1 w1 q1 where b1: "maintain_visibility Q m vis hook (fst ticks) None w q = (f1, w1, q1)" by (metis prod_cases3)
  obtain r w2 where h: "handler (body m) w1 = (r, w2)" by (metis prod.exhaust)
  define ackd where "ackd = (case r of Inr True \<Rightarrow> (case ack Q (receipt_handle m) q1 of
      (Inl e, q') \<Rightarrow> (Inl e, q') | (Inr _, q') \<Rightarrow> (Inr True, q')) | _ \<Rightarrow> (r, q1))"
  obtain x q2 where x: "ackd = (x, q2)" by (cases ackd)
  obtain f2 w3 q3 where b2: "maintain_visibility Q m vis hook (snd ticks) f1 w2 q2 = (f2, w3, q3)" by (metis prod_cases3)
  have a1: "acked q1 = acked q" by (rule maintain_acks [OF b1])
  have a2: "acked q2 = acked q \<or> r = Inr True \<and> acked q2 = acked q @ [receipt_handle m]"
    "x = Inr True \<Longrightarrow> acked q2 = acked q @ [receipt_handle m]"
    using x a1 by (auto simp: ackd_def split: sum.splits bool.splits prod.splits dest: ack_done ack_failed)
  have "(case r of Inl e \<Rightarrow> (Inl e, q1) | Inr succeeded \<Rightarrow> (if succeeded then (case ack Q (receipt_handle m) q1 of
      (Inl e, q') \<Rightarrow> (Inl e, q') | (Inr _, q') \<Rightarrow> (Inr succeeded, q')) else (Inr succeeded, q1))) = (x, q2)"
    using x by (cases r) (auto simp: ackd_def split: sum.splits prod.splits)
  then have out: "w' = w3" "q' = q3" "res = (case f2 of Some e \<Rightarrow> Inl e | None \<Rightarrow> x)"
    using assms b1 h b2 by (simp_all add: consume_with_heartbeat_def Let_def)
  have "acked q3 = acked q2" by (rule maintain_acks [OF b2])
  then show ?thesis using that b1 h b2 a2 out by (auto split: option.splits)
qed

end

interpretation local_acks: acknowledging_queue local_task_queue lq_acked
  by unfold_locales
     (auto simp: local_task_queue_def local_ack_def local_heartbeat_def local_publish_def local_receive_def Let_def
      split: sum.splits)

text \<open>What SQS documents of its calls, with \<open>deleted\<close> the receipts that were deleted.\<close>

locale sqs_contract =
  fixes client :: "'s sqs_client" and self :: sqs_queue and deleted :: "'s \<Rightarrow> string list"
  assumes delete_done: "delete_message client (sqs_url self) h s = (Inr u, s') \<Longrightarrow> deleted s' = deleted s @ [h]"
    and delete_failed: "delete_message client (sqs_url self) h s = (Inl e, s') \<Longrightarrow> deleted s' = deleted s \<or> deleted s' = deleted s @ [h]"
    and visibility_deletes: "change_message_visibility client (sqs_url self) h vis s = (c, s') \<Longrightarrow> deleted s' = deleted s"
    and send_deletes: "send_message client arguments s = (i, s') \<Longrightarrow> deleted s' = deleted s"
    and receive_deletes: "receive_message client (sqs_url self) n wait vis s = (ms, s') \<Longrightarrow> deleted s' = deleted s"

sublocale sqs_contract \<subseteq> sqs_acks: acknowledging_queue "sqs_task_queue client self" deleted
  by unfold_locales
     (auto simp: sqs_task_queue_def sqs_ack_def sqs_heartbeat_def sqs_publish_def sqs_receive_def
      split: sum.splits prod.splits option.splits dest: delete_done delete_failed visibility_deletes send_deletes receive_deletes)

interpretation fake: sqs_contract fake_client self "\<lambda>s. map snd (fk_deleted s)"
  by unfold_locales (auto simp: fake_client_def)

section \<open>A message is acknowledged when its task is done\<close>

definition done_with :: "string \<Rightarrow> cloud \<times> 'st \<Rightarrow> bool" where
  "done_with i w \<longleftrightarrow> (\<forall>t \<in> set (tasks (fst w)). rt_id t = i \<longrightarrow> settled t)"

lemma maintain_invariant:
  assumes "maintain_visibility Q m vis (Some f) n failed w q = (failed', w', q')" and "P w" and "\<And>w. P w \<Longrightarrow> P (snd (f w))"
  shows "P w'"
  using assms(1,2)
proof (induction n arbitrary: failed w q)
  case 0
  then show ?case by (cases failed) simp_all
next
  case (Suc n)
  show ?case
  proof (cases failed)
    case None
    have "P (snd (f w))" by (rule assms(3) [OF Suc.prems(2)])
    with Suc None show ?thesis by (auto split: prod.splits sum.splits)
  qed (use Suc.prems in simp)
qed

lemma beat_done:
  assumes "done_with i w"
  shows "done_with i (snd (heartbeat_database_lease env worker_id secs b w))"
proof -
  have "done_with i (snd (extend_task_lease env j worker_id secs (fst w)), snd w)" for j
    using assms unfolding done_with_def extend_task_lease_def Let_def
    by (auto simp: settled_def elim!: upd_where_elim)
  then show ?thesis using assms by (auto simp: heartbeat_database_lease_def split: sum.splits option.splits)
qed

lemma beat_cloud_ok:
  assumes "cloud_ok sha256 (fst w)"
  shows "cloud_ok sha256 (fst (snd (heartbeat_database_lease env worker_id secs b w)))"
  using assms
  by (auto simp: heartbeat_database_lease_def cloud_ok_def extend_lease_core extend_lease_status split: sum.splits option.splits)

lemma executed_done:
  assumes "core_ok (e_sha256 env) d" and "late_ok env d" and "execute_task env ex i w d st = (Inr True, d', st')"
  shows "done_with i (d', st')"
  using assms(3)
proof (cases rule: execute_task_cases)
  case (ran task request)
  let ?o = "fst (run_source env ex task request d)"
  have "tasks d' = upd_where (\<lambda>t. rt_id t = i) (settle_task env ex task ?o) (tasks d)"
    using finish_tasks [OF assms(1) live_snapshot [OF assms(1) ran(1,3)] assms(2) ran(7)] ran(2) by simp
  moreover have "rt_status (settle_task env ex task ?o t) = T_SUCCEEDED" for t
    using ran(7) by (cases rule: finish_task_cases) (auto simp: settle_task_def split: sum.splits)
  ultimately show ?thesis by (auto simp: done_with_def settled_def elim!: upd_where_elim)
qed simp

lemma handled_done:
  assumes "cloud_ok sha256 d" and "\<And>k. e_sha256 (envs k) = sha256" and "e_late_records (envs 1) = []"
    and "message_task_id b = Inr (Some i)" and "handle_task_envelope envs ex w secs b d st = (Inr True, d', st')"
  shows "done_with i (d', st')"
proof -
  have k: "keys_ok d" using assms(1) by (simp add: cloud_ok_def core_ok_def)
  obtain res d1 where claim: "claim_message_task (envs 0) i w secs d = (res, d1)" by (cases "claim_message_task (envs 0) i w secs d")
  have ok1: "cloud_ok sha256 d1" using claim_message_ok [OF assms(1)] claim by (simp add: claim_message_task_def)
  then have core1: "core_ok (e_sha256 (envs 1)) d1" and late: "late_ok (envs 1) d1" and k1: "keys_ok d1"
    using assms(2,3) by (simp_all add: cloud_ok_def core_ok_def late_ok_def keys_ok_def)
  show ?thesis
  proof (cases res)
    case CLAIMED
    then show ?thesis using assms(4,5) claim executed_done [OF core1 late] by (simp add: handle_task_envelope_def)
  next
    case MISSING
    then have "d' = d" "find (\<lambda>t. rt_id t = i) (tasks d) = None"
      using assms(4,5) claim by (auto simp: handle_task_envelope_def claim_message_task_def claim_message_task_racing_def
          split: option.splits if_splits list.splits)
    then show ?thesis by (auto simp: done_with_def find_None_iff)
  next
    case TERMINAL_DUPLICATE
    then obtain t where t: "find (\<lambda>t. rt_id t = i) (tasks d) = Some t" "rt_status t \<in> {T_SUCCEEDED, T_FAILED}" "d1 = d"
      using claim by (auto simp: claim_message_task_def claim_message_task_racing_def split: option.splits if_splits list.splits)
    obtain x d2 st2 where ref: "refresh_request_status (envs 1) (rt_request_id t) d st = (x, d2, st2)" by (metis prod_cases3)
    have "d' = d2" using assms(4,5) claim TERMINAL_DUPLICATE t(1,3) ref
      by (auto simp: handle_task_envelope_def split: sum.splits simp del: One_nat_def)
    then have "tasks d' = tasks d" using refresh_frame [OF k ref] by simp
    moreover have "t \<in> set (tasks d)" "rt_id t = i" using t(1) by (auto simp: find_Some_iff)
    then have "s = t" if "s \<in> set (tasks d)" "rt_id s = i" for s
      using that k key_inj [of rt_id "tasks d" s t] by (simp add: keys_ok_def)
    ultimately show ?thesis using t(2) by (auto simp: done_with_def settled_def)
  next
    case BUSY
    then show ?thesis using assms(4,5) claim by (simp add: handle_task_envelope_def)
  qed
qed

context acknowledging_queue
begin

lemma consumed_done:
  assumes "cloud_ok sha256 (fst w)" and "\<And>k. e_sha256 (envs k) = sha256" and "e_late_records (envs 1) = []"
    and "consume_task_message Q envs ex worker_id ticks m w q = (res, w', q')"
  shows "acked q' = acked q \<or> acked q' = acked q @ [receipt_handle m]"
    and "res = Inr True \<Longrightarrow> acked q' = acked q @ [receipt_handle m]"
    and "acked q' \<noteq> acked q \<Longrightarrow> message_task_id (body m) = Inr (Some i) \<Longrightarrow> done_with i w'"
proof -
  let ?secs = "lease_seconds (e_settings (envs 0))"
  obtain f1 w1 q1 r w2 f2 q2 where
    b1: "maintain_visibility Q m (sqs_visibility_timeout_seconds (e_settings (envs 0)))
      (Some (heartbeat_database_lease (envs 2) worker_id ?secs (body m))) (fst ticks) None w q = (f1, w1, q1)" and
    h: "(case handle_task_envelope envs ex worker_id ?secs (body m) (fst w1) (snd w1) of (r, d, st) \<Rightarrow> (r, (d, st))) = (r, w2)" and
    b2: "maintain_visibility Q m (sqs_visibility_timeout_seconds (e_settings (envs 0)))
      (Some (heartbeat_database_lease (envs 2) worker_id ?secs (body m))) (snd ticks) f1 w2 q2 = (f2, w', q')" and
    acks: "acked q' = acked q \<or> r = Inr True \<and> acked q' = acked q @ [receipt_handle m]"
      "res = Inr True \<longrightarrow> acked q' = acked q @ [receipt_handle m]"
    by (rule consume_acks [OF assms(4) [unfolded consume_task_message_def Let_def]])
  show "acked q' = acked q \<or> acked q' = acked q @ [receipt_handle m]" and "res = Inr True \<Longrightarrow> acked q' = acked q @ [receipt_handle m]"
    using acks by blast+
  assume "acked q' \<noteq> acked q" and i: "message_task_id (body m) = Inr (Some i)"
  then have "r = Inr True" using acks(1) by simp
  moreover have "cloud_ok sha256 (fst w1)"
    by (rule maintain_invariant [OF b1, of "\<lambda>w. cloud_ok sha256 (fst w)"]) (use assms(1) beat_cloud_ok in auto)
  ultimately have "done_with i w2"
    using h handled_done [where envs = envs, OF _ assms(2,3) i] by (cases w2) (auto split: prod.splits)
  then show "done_with i w'" using maintain_invariant [OF b2, of "done_with i"] beat_done by blast
qed

end

context sqs_contract
begin

lemma message_deleted:
  assumes "cloud_ok sha256 (fst w)" and "\<And>k. e_sha256 (envs k) = sha256" and "e_late_records (envs 1) = []"
    and "consume_task_message (sqs_task_queue client self) envs ex worker_id ticks m w q = (res, w', q')"
  shows "(deleted q' = deleted q \<or> deleted q' = deleted q @ [receipt_handle m]) \<and>
    (res = Inr True \<longrightarrow> deleted q' = deleted q @ [receipt_handle m]) \<and>
    (deleted q' \<noteq> deleted q \<longrightarrow> (\<forall>t \<in> set (tasks (fst w')). message_task_id (body m) = Inr (Some (rt_id t)) \<longrightarrow> settled t))"
  using sqs_acks.consumed_done [where envs = envs, OF assms] by (auto simp: done_with_def)

end

section \<open>Properties\<close>



end
