(* ===== verification/Command_Line.thy ===== *)
theory Command_Line
  imports Sqs
begin

text \<open>
  \<open>main\<close> of \<open>services/queue_worker.py\<close>: the command line of the queue worker as \<open>argparse\<close> reads it, and
  the worker it starts. The parser prints a usage or help text and exits on anything but a sequence
  of its two options; both kinds of exit are \<open>None\<close> here, and nothing has happened by then.
\<close>

section \<open>Options\<close>

datatype option_name = Help | Once | PollWait

fun option_string :: "option_name \<Rightarrow> string" where
  "option_string Help = ''--help''"
| "option_string Once = ''--once''"
| "option_string PollWait = ''--poll-wait''"

text \<open>
  A long option is found by a prefix that no other option has; what follows the first equals sign is
  its explicit argument.
\<close>

definition split_equals :: "string \<Rightarrow> string \<times> string option" where
  "split_equals arg =
     (let name = takeWhile (\<lambda>c. c \<noteq> CHR ''='') arg in
      (name, if CHR ''='' \<in> set arg then Some (drop (length name + 1) arg) else None))"

definition find_option :: "string \<Rightarrow> option_name option" where
  "find_option name =
     (if \<not> py_startswith name ''--'' then None
      else case filter (\<lambda>opt. py_startswith (option_string opt) name) [Help, Once, PollWait] of
             [opt] \<Rightarrow> Some opt
           | _ \<Rightarrow> None)"

text \<open>
  Whether the next argument can be the value of an option: it does not begin with a dash, or it is a
  lone dash, or it looks like a negative number or contains a space and is no option. (A text that
  begins with two dashes is refused here; where \<open>argparse\<close> would take one with a space, its
  conversion to a number fails and the outcome is the same.)
\<close>

definition negative_number_like :: "string \<Rightarrow> bool" where
  "negative_number_like arg =
     (let t = (if py_endswith arg [CHR 0x0A] then butlast arg else arg) in
      case t of
        [] \<Rightarrow> False
      | c # r \<Rightarrow> c = CHR ''-'' \<and>
          (let ds = takeWhile is_digit r; rest = dropWhile is_digit r in
           (ds \<noteq> [] \<and> rest = []) \<or>
           (case rest of [] \<Rightarrow> False | d # fraction \<Rightarrow> d = CHR ''.'' \<and> fraction \<noteq> [] \<and> list_all is_digit fraction)))"

definition is_argument :: "string \<Rightarrow> bool" where
  "is_argument arg \<longleftrightarrow>
     \<not> py_startswith arg ''-'' \<or> arg = ''-'' \<or>
     (\<not> py_startswith arg ''--'' \<and> \<not> py_startswith arg ''-h'' \<and> (negative_number_like arg \<or> CHR '' '' \<in> set arg))"

section \<open>Parsing\<close>

text \<open>\<open>type=int, choices=range(21)\<close>.\<close>

definition poll_wait_value :: "string \<Rightarrow> int option" where
  "poll_wait_value text =
     (case py_int text of Inl _ \<Rightarrow> None | Inr n \<Rightarrow> if n \<in> {0..20} then Some n else None)"

fun parse_arguments :: "string list \<Rightarrow> bool \<Rightarrow> int \<Rightarrow> (bool \<times> int) option" where
  "parse_arguments [] once poll_wait = Some (once, poll_wait)"
| "parse_arguments (arg # args) once poll_wait =
     (case find_option (fst (split_equals arg)) of
        Some Once \<Rightarrow> if snd (split_equals arg) = None then parse_arguments args True poll_wait else None
      | Some PollWait \<Rightarrow>
          (case snd (split_equals arg) of
             Some text \<Rightarrow> Option.bind (poll_wait_value text) (parse_arguments args once)
           | None \<Rightarrow>
               (case args of
                  [] \<Rightarrow> None
                | text # rest \<Rightarrow>
                    if is_argument text then Option.bind (poll_wait_value text) (parse_arguments rest once) else None))
      | _ \<Rightarrow> None)"

definition parse_args :: "string list \<Rightarrow> (bool \<times> int) option" where
  "parse_args argv = parse_arguments argv False 10"

definition main ::
    "string list \<Rightarrow> settings \<Rightarrow> 's sqs_client \<Rightarrow> (source_executor \<Rightarrow> executor) \<Rightarrow> bool \<Rightarrow> dialect \<Rightarrow> (string \<Rightarrow> bool)
       \<Rightarrow> (nat \<Rightarrow> nat \<Rightarrow> time) \<Rightarrow> (nat \<Rightarrow> nat \<Rightarrow> nat \<Rightarrow> 'st env) \<Rightarrow> string \<Rightarrow> (nat \<Rightarrow> nat \<Rightarrow> nat \<times> nat) \<Rightarrow> nat
       \<Rightarrow> (cloud \<times> 'st) \<times> local_queue \<times> 's
       \<Rightarrow> ((error + worker_pass_result list) \<times> connection list) option \<times> (cloud \<times> 'st) \<times> local_queue \<times> 's" where
  "main argv cfg client connect redis_has_aclose dialect locked clocks runs worker_id ticks n w =
     (case parse_args argv of
        None \<Rightarrow> (None, w)
      | Some (once, poll_wait) \<Rightarrow>
          (case run_worker cfg client connect redis_has_aclose dialect locked clocks runs worker_id ticks once poll_wait n w of
             (res, w') \<Rightarrow> (Some res, w')))"

section \<open>What the parser accepts\<close>

lemma poll_wait_value_bounds: "poll_wait_value text = Some n \<Longrightarrow> 0 \<le> n \<and> n \<le> 20"
  by (auto simp: poll_wait_value_def split: sum.splits if_splits)

lemma parse_arguments_bounds:
  assumes "parse_arguments argv once wait = Some (once', wait')" and "0 \<le> wait \<and> wait \<le> 20"
  shows "0 \<le> wait' \<and> wait' \<le> 20"
  using assms
proof (induction argv arbitrary: once wait rule: length_induct)
  case (1 argv)
  show ?case
  proof (cases argv)
    case (Cons arg args)
    note step = 1(2) [unfolded Cons, simplified]
    show ?thesis
    proof (cases "find_option (fst (split_equals arg))")
      case (Some opt)
      then show ?thesis
        using step 1(1,3) Cons
        by (cases opt; cases "snd (split_equals arg)") (auto simp: bind_eq_Some_conv dest!: poll_wait_value_bounds intro: less_SucI split: list.splits if_splits)
    qed (use step in simp)
  qed (use 1(2,3) in simp)
qed

lemma poll_wait_value_text:
  assumes "n \<le> 20"
  shows "poll_wait_value (str_of_nat n) = Some (int n)"
proof -
  have "length (str_of_nat n) \<le> 2" using assms by (simp add: str_of_nat.simps [of n] str_of_nat.simps [of "n div 10"]) linarith
  then show ?thesis using assms py_int_str_of_nat [of n] by (simp add: poll_wait_value_def)
qed

lemma number_is_argument: "is_argument (str_of_nat n)"
proof -
  obtain c cs where "str_of_nat n = c # cs" "is_digit c" by (rule str_of_nat_Cons)
  moreover from this have "c \<noteq> CHR ''-''" by (auto simp: is_digit_def)
  ultimately show ?thesis by (simp add: is_argument_def py_startswith_def)
qed

lemma find_option_strings:
  "find_option ''--once'' = Some Once" "find_option ''--poll-wait'' = Some PollWait" "find_option ''--help'' = Some Help"
  "split_equals ''--once'' = (''--once'', None)" "split_equals ''--poll-wait'' = (''--poll-wait'', None)"
  by (simp_all add: find_option_def split_equals_def py_startswith_def)

lemma split_equals_explicit: "split_equals (''--poll-wait='' @ text) = (''--poll-wait'', Some text)"
  by (simp add: split_equals_def)

lemma run_worker_once_results:
  assumes "run_worker cfg client connect has dialect locked clocks runs worker_id ticks once wait n w = ((outcome, shut), w')"
  shows "once \<Longrightarrow> outcome = Inr rs \<Longrightarrow> length rs \<le> 1" and "Engine \<in> set shut \<longleftrightarrow> (\<exists>rs. outcome = Inr rs)"
  using assms
  by (auto simp: run_worker_def Let_def worker_close_def split: sum.splits prod.splits dest: worker_loop_once)

section \<open>Properties\<close>


definition sample_main :: "string list \<Rightarrow> ((error + worker_pass_result list) \<times> connection list) option \<times> (cloud \<times> unit) \<times> local_queue \<times> fake_sqs_client" where
  "sample_main argv = main argv default_settings fake_client (\<lambda>_ _. Inl (ClientError [])) True SQLite (\<lambda>_. False) (\<lambda>_ _. 8)
     (\<lambda>_ _ _. sample_env 9) ''w1'' (\<lambda>_ _. (0, 0)) 1 ((sample_cloud, ()), empty_local_queue, new_fake)"


end
