(* ===== verification/Relay.thy ===== *)
theory Relay
  imports Queue_Props
begin

text \<open>
  The relay of \<open>services/outbox.py\<close> on any queue, one that refuses some events or all of them
  included: what is marked, what is left, and what a batch of refused events does to the others.
\<close>

section \<open>Offering the candidates\<close>

text \<open>Every event is offered once, in order, whatever happened to the ones before it.\<close>

fun offers :: "'q task_queue \<Rightarrow> outbox_event list \<Rightarrow> 'q \<Rightarrow> bool list \<times> 'q" where
  "offers Q [] q = ([], q)"
| "offers Q (e # es) q =
     (case publish Q (event_envelope e) q of
        (r, q1) \<Rightarrow> (case offers Q es q1 of (oks, q2) \<Rightarrow> ((\<not> isl r) # oks, q2)))"

definition confirmed :: "outbox_event list \<Rightarrow> bool list \<Rightarrow> outbox_event list" where
  "confirmed es oks = map fst (filter snd (zip es oks))"

lemma offers_length: "length (fst (offers Q es q)) = length es"
  by (induction es arbitrary: q) (auto split: prod.splits, metis fst_conv)

lemma confirmed_subseq: "length oks = length es \<Longrightarrow> subseq (confirmed es oks) es"
  by (induction oks es rule: list_induct2) (auto simp: confirmed_def)

lemma confirmed_length: "length oks = length es \<Longrightarrow> length (confirmed es oks) = length (filter id oks)"
  by (induction oks es rule: list_induct2) (auto simp: confirmed_def)

lemma relay_loop_offers:
  "relay_loop Q clock es published q =
     (let (oks, q') = offers Q es q; new = confirmed es oks in
      (published @ zip (map ob_id new) (map clock [length published..<length published + length new]), q'))"
proof (induction es arbitrary: published q)
  case (Cons e es)
  obtain r q1 where pub: "publish Q (event_envelope e) q = (r, q1)" by (cases "publish Q (event_envelope e) q")
  obtain oks q2 where rest: "offers Q es q1 = (oks, q2)" by (cases "offers Q es q1")
  show ?case
    using pub rest Cons.IH [of published q1] Cons.IH [of "published @ [(ob_id e, clock (length published))]" q1]
    by (cases r) (simp_all add: Let_def confirmed_def upt_conv_Cons del: upt_Suc)
qed (simp add: confirmed_def)

text \<open>A row after the marking, when the marks are the identifiers of some rows with readings of the clock.\<close>

lemma marked_row:
  assumes "distinct (map ob_id (outbox d))" and "set new \<subseteq> set (outbox d)" and "i < length (outbox d)"
    and "d' = mark_published (zip (map ob_id new) (map clock [0..<length new])) d"
  shows "let e = outbox d ! i; e' = outbox d' ! i in
    if e \<in> set new then e' = e\<lparr>ob_published_at := ob_published_at e'\<rparr> \<and> (\<exists>k < length new. ob_published_at e' = Some (clock k))
    else e' = e"
proof -
  let ?p = "zip (map ob_id new) (map clock [0..<length new])" and ?e = "outbox d ! i"
  have e: "?e \<in> set (outbox d)" using assms(3) by simp
  have ids: "fst ` set ?p = ob_id ` set new"
  proof -
    have "map fst ?p = map ob_id new" by simp
    then show ?thesis by (metis set_map)
  qed
  have "?e = f" if "f \<in> set new" "ob_id f = ob_id ?e" for f
    using key_inj [of ob_id "outbox d" ?e f] assms(1,2) e that by auto
  then have m: "?e \<in> set new \<longleftrightarrow> ob_id ?e \<in> fst ` set ?p" using ids by (auto simp: image_iff)
  have time: "\<exists>k < length new. map_of ?p (ob_id ?e) = Some (clock k)" if "ob_id ?e \<in> fst ` set ?p"
  proof -
    have "map_of ?p (ob_id ?e) \<noteq> None" using that unfolding map_of_eq_None_iff by blast
    then obtain x where x: "map_of ?p (ob_id ?e) = Some x" by blast
    then have "x \<in> set (map clock [0..<length new])" using set_zip_rightD [OF map_of_SomeD] by metis
    with x show ?thesis by auto
  qed
  have "outbox d' ! i = (if ob_id ?e \<in> fst ` set ?p then ?e\<lparr>ob_published_at := map_of ?p (ob_id ?e)\<rparr> else ?e)"
    unfolding assms(4) mark_published_def upd_where_def using assms(3) by simp
  then show ?thesis unfolding Let_def m using time by (cases "ob_id ?e \<in> fst ` set ?p") (simp_all only: if_True if_False, simp)
qed

section \<open>An example\<close>

text \<open>A client that refuses one message group, and two events of which it refuses the older.\<close>

definition refusing_client :: "string \<Rightarrow> unit sqs_client" where
  "refusing_client refused =
     \<lparr>send_message = (\<lambda>arguments s. (if snd_MessageGroupId arguments = Some refused
        then Inl (ClientError ''InvalidParameterValue'') else Inr (Some ''sqs-message-1''), s)),
      receive_message = (\<lambda>url n wait vis s. (Inr None, s)),
      change_message_visibility = (\<lambda>url handle vis s. (Inr (), s)),
      delete_message = (\<lambda>url handle s. (Inr (), s))\<rparr>"

definition refused_and_accepted :: "outbox_event list" where
  "refused_and_accepted =
     [sample_event\<lparr>ob_id := ''e0'', ob_tenant_id := ''bad tenant''\<rparr>, sample_event\<lparr>ob_created_at := 5\<rparr>]"

section \<open>Properties\<close>

text \<open>
  C20. The relay on any queue: every candidate is offered to the queue once, in order of creation,
  and a refused one does not keep the later ones from being offered. A row is marked exactly when the
  queue confirmed it, with a reading of the clock; every other row stays as it is, so a refused event
  remains unpublished for the next pass, and no other table changes. The result counts both.
\<close>

theorem relay_marks_confirmed:
  assumes "keys_ok d" and "relay_outbox_once Q dialect locked clock n d q = (res, d', q')"
    and "offers Q (relay_candidates dialect locked n d) q = (oks, q1)"
    and "new = confirmed (relay_candidates dialect locked n d) oks"
  shows "q' = q1 \<and>
    (\<forall>i < length (outbox d). let e = outbox d ! i; e' = outbox d' ! i in
       if e \<in> set new then e' = e\<lparr>ob_published_at := ob_published_at e'\<rparr> \<and> (\<exists>k < length new. ob_published_at e' = Some (clock k))
       else e' = e) \<and>
    d' = d\<lparr>outbox := outbox d'\<rparr> \<and> length (outbox d') = length (outbox d) \<and>
    r_claimed res = length oks \<and> r_published res = length (filter id oks) \<and> r_failed res = length (filter Not oks) \<and>
    unpublished_outbox_count d' + r_published res = unpublished_outbox_count d"
proof -
  let ?c = "relay_candidates dialect locked n d"
  let ?p = "zip (map ob_id new) (map clock [0..<length new])"
  have loop: "relay_loop Q clock ?c [] q = (?p, q1)"
    using assms(3,4) by (simp add: relay_loop_offers Let_def)
  then have out: "q' = q1" "d' = mark_published ?p d" "r_claimed res = length ?c" "r_published res = length new"
    "r_failed res = length ?c - length new"
    using assms(2) by (auto simp: relay_outbox_once_def Let_def)
  have len: "length oks = length ?c" using offers_length [of Q ?c q] assms(3) by simp
  have ids: "map fst ?p = map ob_id new" by simp
  have in_c: "e \<in> set (outbox d) \<and> ob_published_at e = None" if "e \<in> set new" for e
    using that assms(4) subseq_keeps_members [OF confirmed_subseq [OF len]] relay_candidates_set by blast
  have "distinct (map ob_id new)"
    using confirmed_subseq [OF len] distinct_relay_candidates [OF assms(1)] unfolding assms(4)
    by (metis subseq_keeps_distinct subseq_map)
  then have "unpublished_outbox_count d' + length new = unpublished_outbox_count d"
    using unpublished_after [OF assms(1) _ ids] in_c out(2) by blast
  moreover have "length new = length (filter id oks)" unfolding assms(4) by (rule confirmed_length [OF len])
  moreover have "length (filter id oks) + length (filter Not oks) = length oks"
    using sum_length_filter_compl [of id oks] by (simp add: id_def)
  moreover have "distinct (map ob_id (outbox d))" "set new \<subseteq> set (outbox d)" using assms(1) in_c by (auto simp: keys_ok_def)
  note rows = marked_row [OF this _ out(2)]
  moreover have "d' = d\<lparr>outbox := outbox d'\<rparr>" "length (outbox d') = length (outbox d)"
    by (simp_all add: out(2) mark_published_def upd_where_def)
  ultimately show ?thesis using out(1,3-5) len rows by simp
qed

theorem relay_marks_confirmed_witness:
  "\<exists>res d' q'. relay_outbox_once (sqs_task_queue (refusing_client ''bad tenant'') \<lparr>sqs_url = ''q.fifo'', sqs_visibility_seconds = 60, sqs_fifo = True\<rparr>)
      SQLite (\<lambda>_. False) (\<lambda>k. 7) 100 (empty_cloud\<lparr>outbox := refused_and_accepted\<rparr>) () = (res, d', q') \<and>
     r_published res = 1 \<and> r_failed res = 1 \<and> outbox d' ! 0 = refused_and_accepted ! 0"
proof -
  let ?Q = "sqs_task_queue (refusing_client ''bad tenant'') \<lparr>sqs_url = ''q.fifo'', sqs_visibility_seconds = 60, sqs_fifo = True\<rparr>"
  let ?d = "empty_cloud\<lparr>outbox := refused_and_accepted\<rparr>"
  have k: "keys_ok ?d" by (simp add: keys_ok_def refused_and_accepted_def empty_cloud_def sample_event_def)
  have c: "relay_candidates SQLite (\<lambda>_. False) 100 ?d = refused_and_accepted"
    by (simp add: relay_candidates_def refused_and_accepted_def sample_event_def)
  have "offers ?Q refused_and_accepted () = ([False, True], ())"
    by (simp add: refused_and_accepted_def sqs_task_queue_def sqs_publish_def sqs_arguments_def event_envelope_def
        refusing_client_def sample_event_def Let_def)
  then have o: "offers ?Q (relay_candidates SQLite (\<lambda>_. False) 100 ?d) () = ([False, True], ())" unfolding c .
  obtain res d' q' where run: "relay_outbox_once ?Q SQLite (\<lambda>_. False) (\<lambda>k. 7) 100 ?d () = (res, d', q')" by (metis prod_cases3)
  have "refused_and_accepted ! 0 \<notin> set (confirmed refused_and_accepted [False, True])" "length refused_and_accepted = 2"
    by (simp_all add: refused_and_accepted_def confirmed_def sample_event_def)
  then show ?thesis
    using relay_marks_confirmed [OF k run o refl, unfolded c] run by (auto simp: Let_def dest!: spec [of _ 0])
qed

text \<open>
  The price of the fixed batch: when the queue refuses every candidate of a pass, the pass leaves the
  database as it was, so the next pass has the same candidates, and an event that is younger than a
  full batch of refused ones is never offered. SQS refuses a message group that is not made of
  printable ASCII characters, and the message group is the tenant of the event.
\<close>

lemma offers_refused:
  assumes "\<And>e q. e \<in> set es \<Longrightarrow> isl (fst (publish Q (event_envelope e) q))"
  shows "fst (offers Q es q) = replicate (length es) False"
  using assms by (induction es arbitrary: q) (auto split: prod.splits, (metis fst_conv)+)

lemma refused_batch_blocks:
  assumes "\<And>e q. e \<in> set (relay_candidates dialect locked n d) \<Longrightarrow> isl (fst (publish Q (event_envelope e) q))"
    and "relay_outbox_once Q dialect locked clock n d q = (res, d', q')"
  shows "d' = d \<and> r_published res = 0 \<and> relay_candidates dialect locked n d' = relay_candidates dialect locked n d"
proof -
  let ?c = "relay_candidates dialect locked n d"
  obtain oks q1 where o: "offers Q ?c q = (oks, q1)" by (cases "offers Q ?c q")
  have oks: "oks = replicate (length ?c) False" using offers_refused [OF assms(1)] o by (metis fst_conv)
  have "confirmed es (replicate m False) = []" for es m
    by (auto simp: confirmed_def filter_empty_conv in_set_zip)
  then have "relay_loop Q clock ?c [] q = ([], q1)" unfolding relay_loop_offers o by (simp add: oks)
  then show ?thesis
    using assms(2) by (auto simp: relay_outbox_once_def Let_def mark_published_def upd_where_none)
qed

end
