(* ===== verification/Metrics_Props.thy ===== *)
theory Metrics_Props
  imports System_Props "HOL-Library.Multiset"
begin

text \<open>
  The counters agree with the tables: in every state the control plane can reach, the created counters
  count the rows of the requests, and, while workers commit under their lease, the completed counters
  count each final request once with its status.
\<close>

section \<open>The final requests\<close>

definition finished :: "privacy_request list \<Rightarrow> (request_kind \<times> request_status) list" where
  "finished rs = map (\<lambda>r. (pr_kind r, pr_status r)) (filter (\<lambda>r. terminal_status (pr_status r)) rs)"

lemma finished_same:
  assumes "\<And>r. r \<in> set rs \<Longrightarrow> P r \<Longrightarrow> pr_kind (f r) = pr_kind r \<and>
    (if terminal_status (pr_status r) then pr_status (f r) = pr_status r else \<not> terminal_status (pr_status (f r)))"
  shows "finished (upd_where P f rs) = finished rs"
  using assms unfolding finished_def
proof (induction rs)
  case (Cons r rs)
  then show ?case by (cases "P r") (auto split: if_splits)
qed simp

lemma finished_add:
  assumes "distinct (map pr_id rs)" and "r \<in> set rs" and "\<not> terminal_status (pr_status r)" and "terminal_status (pr_status (f r))"
    and "pr_kind (f r) = pr_kind r"
  shows "mset (finished (upd_where (\<lambda>s. pr_id s = pr_id r) f rs)) = add_mset (pr_kind r, pr_status (f r)) (mset (finished rs))"
  using assms unfolding finished_def
proof (induction rs)
  case (Cons q rs)
  show ?case
  proof (cases "q = r")
    case True
    then have "upd_where (\<lambda>s. pr_id s = pr_id r) f rs = rs" using Cons.prems(1) by (intro upd_where_none) (auto simp: image_iff)
    then show ?thesis using True Cons.prems(3-5) by simp
  next
    case False
    then have "r \<in> set rs" and "pr_id q \<noteq> pr_id r" using Cons.prems(1,2) by (auto simp: image_iff)
    then show ?thesis using Cons by simp
  qed
qed simp

definition metrics_ok :: "bool \<Rightarrow> cloud \<Rightarrow> bool" where
  "metrics_ok fenced d \<longleftrightarrow> m_request_created d = map pr_kind (requests d) \<and>
     (fenced \<longrightarrow> mset (m_request_completed d) = mset (finished (requests d)))"

lemma metrics_ok_same:
  assumes "metrics_ok fenced d" and "map pr_kind (requests d') = map pr_kind (requests d)"
    and "m_request_created d' = m_request_created d" and "m_request_completed d' = m_request_completed d"
    and "fenced \<Longrightarrow> finished (requests d') = finished (requests d)"
  shows "metrics_ok fenced d'"
  using assms by (auto simp: metrics_ok_def)

lemma kinds_of_frames: "map request_frame rs = map request_frame qs \<Longrightarrow> map pr_kind rs = map pr_kind qs"
  by (drule arg_cong [of _ _ "map (\<lambda>f. fst (snd (snd (snd (snd f)))))"]) (simp add: request_frame_def comp_def)

section \<open>The transactions\<close>

lemma create_metrics:
  assumes "keys_ok d0" and "keys_ok d" and "create_privacy_request_racing sha256 uuid now tn key c d0 d = (res, d')"
    and "metrics_ok fenced d"
  shows "metrics_ok fenced d'"
  using assms(1-3)
proof (cases rule: create_cases)
  case (created d1)
  from create_rows_spec [OF created(1)] obtain ts es a n where
    "d1 = d\<lparr>requests := requests d @ [new_request sha256 uuid now tn key c d],
       tasks := tasks d @ ts, outbox := outbox d @ es, audit := audit d @ [a], fresh := n\<rparr>" by blast
  then show ?thesis
    using created(2) assms(4) by (simp add: metrics_ok_def finished_def new_request_def terminal_status_def)
qed (use assms(4) in simp_all)

lemma start_metrics:
  assumes "metrics_ok fenced d"
  shows "metrics_ok fenced (start_requests now ids (d\<lparr>tasks := ts\<rparr>))"
  by (rule metrics_ok_same [OF assms])
     (auto simp: start_requests_def map_upd_where terminal_status_def intro!: finished_same)

lemma claim_metrics: "metrics_ok fenced d \<Longrightarrow> metrics_ok fenced (snd (claim_tasks dialect locked env w tn batch secs d))"
  using start_metrics [of fenced d] by (auto simp: claim_tasks_def Let_def metrics_ok_def)

lemma claim_message_metrics:
  assumes "metrics_ok fenced d" and "claim_message_task_racing env i w secs d0 d = (res, d')"
  shows "metrics_ok fenced d'"
  using assms start_metrics [OF assms(1)]
  by (auto simp: claim_message_task_racing_def split: option.splits if_splits list.splits)

text \<open>A refresh counts a request exactly when it makes it final.\<close>

lemma refresh_metrics:
  assumes "keys_ok d" and "refresh_request_status env i d st = (res, d', st')" and "metrics_ok fenced d"
    and "\<And>r. fenced \<Longrightarrow> r \<in> set (requests d) \<Longrightarrow> pr_id r = i \<Longrightarrow> terminal_status (pr_status r) \<Longrightarrow>
      pr_status r = derived_status (statuses d i)"
  shows "metrics_ok fenced d'"
proof (cases "\<exists>r \<in> set (requests d). pr_id r = i")
  case False
  then have "filter (\<lambda>r. pr_id r = i) (requests d) = []" by (auto simp: filter_empty_conv)
  with assms(2,3) show ?thesis by (simp add: refresh_request_status_def)
next
  case True
  then obtain r where r: "r \<in> set (requests d)" "pr_id r = i" by blast
  let ?s = "derived_status (set (map rt_status (request_tasks d (pr_id r))))"
  have only: "q = r" if "q \<in> set (requests d)" "pr_id q = pr_id r" for q
    using key_inj [of pr_id "requests d" q r] assms(1) r(1) that by (simp add: keys_ok_def)
  have call: "refresh_request_status env (pr_id r) d st = (res, d', st')" using assms(2) r(2) by simp
  have dist: "distinct (map pr_id (requests d))" using assms(1) by (simp add: keys_ok_def)
  show ?thesis
  proof (rule refresh_cases [OF assms(1) r(1) call refl refl], goal_cases store_error refused terminal plain)
    case (terminal art)
    from announce_terminal_spec(1) [OF terminal(4)] obtain e a n where
      d': "d' = d\<lparr>requests := upd_where (\<lambda>s. pr_id s = pr_id r) (refreshed env r ?s art) (requests d),
        outbox := outbox d @ [e], audit := audit d @ [a], fresh := n,
        m_request_completed := m_request_completed d @ [(pr_kind r, ?s)]\<rparr>" by auto
    have t: "\<not> terminal_status (pr_status r)" "terminal_status ?s" using terminal(2) by (simp_all add: became_terminal_def)
    show ?thesis
      using assms(3) finished_add [OF dist r(1) t(1), of "refreshed env r ?s art"] t(2)
      by (simp add: d' metrics_ok_def map_upd_where)
  next
    case (plain art)
    have "terminal_status (pr_status r) \<longrightarrow> ?s = pr_status r" if fenced
      using assms(4) [OF that r] r(2) by (simp add: statuses_def)
    then have row: "if terminal_status (pr_status r) then ?s = pr_status r else \<not> terminal_status ?s" if fenced
      using that plain(2) by (auto simp: became_terminal_def)
    have "finished (requests d') = finished (requests d)" if fenced
    proof -
      have "finished (upd_where (\<lambda>s. pr_id s = pr_id r) (refreshed env r ?s art) (requests d)) = finished (requests d)"
      proof (rule finished_same)
        fix q assume "q \<in> set (requests d)" "pr_id q = pr_id r"
        then have "q = r" by (rule only)
        then show "pr_kind (refreshed env r ?s art q) = pr_kind q \<and> (if terminal_status (pr_status q)
            then pr_status (refreshed env r ?s art q) = pr_status q else \<not> terminal_status (pr_status (refreshed env r ?s art q)))"
          using row [OF that] by (simp del: set_map)
      qed
      then show ?thesis by (simp add: plain(4))
    qed
    then show ?thesis
      by (intro metrics_ok_same [OF assms(3)]) (simp_all add: plain(4) map_upd_where)
  qed (use assms(3) in simp_all)
qed

lemma run_source_counters:
  assumes "run_source env ex task request d = (outcome, d1)"
  shows "m_request_created d1 = m_request_created d" and "m_request_completed d1 = m_request_completed d"
proof -
  have "m_request_created (snd (execute_delete env x task request)) = m_request_created x"
    "m_request_completed (snd (execute_delete env x task request)) = m_request_completed x" for x
    by (simp_all add: execute_delete_def Let_def)
  then have "m_request_created (snd (run_source env ex task request d)) = m_request_created d \<and>
      m_request_completed (snd (run_source env ex task request d)) = m_request_completed d"
    by (simp add: run_source_def Let_def verifying_def split: option.split sum.split)
  then show "m_request_created d1 = m_request_created d" and "m_request_completed d1 = m_request_completed d"
    by (simp_all add: assms)
qed

lemma finish_metrics:
  assumes "core_ok (e_sha256 env) d" and "snapshot_ok d task" and "late_ok env d" and "pr_id request = rt_request_id task"
    and "finish_task env ex task request d st = (res, d', st')" and "metrics_ok fenced d"
    and open_parent: "\<And>r. fenced \<Longrightarrow> r \<in> set (requests d) \<Longrightarrow> pr_id r = rt_request_id task \<Longrightarrow> \<not> terminal_status (pr_status r)"
  shows "metrics_ok fenced d'"
  using assms(5)
proof (cases rule: finish_task_cases)
  case (refused outcome d1)
  then show ?thesis using assms(6) by (simp add: metrics_ok_def)
next
  case (committed outcome d1 d2 d3 r)
  have k3: "keys_ok d3"
    using append_audit_core [OF committed(3) committed_core [OF assms(1-3) committed(1,2)]] by (rule core_ok_keys)
  have d3: "requests d3 = requests d1" "m_request_created d3 = m_request_created d" "m_request_completed d3 = m_request_completed d"
    using append_audit_eq [OF committed(3)] run_source_counters [OF committed(1)] by (simp_all add: committed(2))
  have rows: "requests d1 = requests d \<or> requests d1 = upd_where (\<lambda>r. pr_id r = rt_request_id task)
      (\<lambda>r. r\<lparr>pr_status := VERIFYING, pr_updated_at := e_now env\<rparr>) (requests d)"
    using run_source_requests [OF committed(1)] assms(4) by (auto simp: verifying_def split: if_splits)
  have "finished (requests d1) = finished (requests d)" if fenced
    using rows open_parent [OF that] by (auto simp: terminal_status_def intro!: finished_same)
  then have m3: "metrics_ok fenced d3"
    using d3 by (intro metrics_ok_same [OF assms(6)]) (simp_all add: kinds_of_frames [OF run_source_frame(4) [OF committed(1)]])
  have "\<not> terminal_status (pr_status q)" if "fenced" "q \<in> set (requests d3)" "pr_id q = rt_request_id task" for q
    using rows open_parent [OF that(1)] that(2,3) unfolding d3(1)
    by (auto simp: terminal_status_def elim!: upd_where_elim)
  then show ?thesis by (intro refresh_metrics [OF k3 committed(4) m3]) blast
qed

section \<open>Every step\<close>

lemma step_metrics:
  assumes "step fenced sha256 Q s s'" and "sys_ok fenced sha256 s" and "metrics_ok fenced (db s)"
  shows "metrics_ok fenced (db s')"
  using assms
proof (induction rule: step.induct)
  case (intake d0 uuid now tn key c s res d')
  then show ?case using create_metrics [of d0 "db s"] core_ok_keys [of sha256 "db s"] by (auto simp: sys_ok_def)
next
  case (claim s dialect locked env w tn batch secs)
  then show ?case by (simp add: claim_metrics)
next
  case (claim_message env i w secs d0 s res d')
  then show ?case using claim_message_metrics by auto
next
  case (finish task request s env ex res d' st')
  have core: "core_ok (e_sha256 env) (db s)" and lo: "loaded_ok (db s) (task, request)"
    using finish by (auto simp: sys_ok_def)
  note k = core_ok_keys [OF core]
  have "\<not> terminal_status (pr_status r)" if "fenced" "r \<in> set (requests (db s))" "pr_id r = rt_request_id task" for r
  proof -
    obtain t where "t \<in> set (tasks (db s))" "rt_request_id t = rt_request_id task" "rt_status t = T_RUNNING"
      by (rule leased_row [OF k lo]) (use finish(2) \<open>fenced\<close> in auto)
    moreover have "status_agrees (db s) r" using finish(6) that by (simp add: sys_ok_def status_ok_def list_all_iff)
    ultimately show ?thesis using running_parent [of "db s" r t] that(3) by simp
  qed
  then show ?case
    using finish_metrics [OF core loaded_snapshot [OF k lo] finish(4) _ finish(5,7)] lo by (simp add: loaded_ok_def)
next
  case (refresh env i s res d' st')
  have k: "keys_ok (db s)" using refresh(3) core_ok_keys by (auto simp: sys_ok_def)
  show ?case
    using refresh_metrics [OF k refresh(2,4)] refresh(3) by (auto simp: sys_ok_def status_ok_def list_all_iff status_agrees_def)
next
  case (extend s env i w secs)
  then show ?case by (simp add: metrics_ok_def extend_task_lease_def Let_def)
next
  case (relay dialect locked clock n s r d' q')
  then show ?case using relay_state [OF relay(1)] by (auto simp: metrics_ok_def mark_published_def)
next
  case (seeding uuid now tn sc s nr d')
  then show ?case using seed_state [OF seeding(1)] by (auto simp: metrics_ok_def)
next
  case (clearing s tn)
  then show ?case by (simp add: metrics_ok_def clear_seed_records_def)
qed simp_all

lemma reachable_metrics: "reachable fenced sha256 Q s \<Longrightarrow> metrics_ok fenced (db s)"
proof (induction rule: reachable.induct)
  case (start st q)
  then show ?case by (simp add: metrics_ok_def initial_sys_def empty_cloud_def finished_def)
next
  case (more s s')
  then show ?case using step_metrics reachable_sys_ok by blast
qed

section \<open>Properties\<close>

lemma count_labels:
  assumes "inj f"
  shows "count_list (map f xs) (f x) = count_list xs x"
  using assms by (induction xs) (auto dest: injD)

lemma kind_labels_inj: "inj (\<lambda>k. [kind_value k])" "inj (\<lambda>x. [kind_value (fst x), status_value (snd x)])"
proof -
  have k: "kind_value a = kind_value b \<Longrightarrow> a = b" for a b by (cases a; cases b) simp_all
  have s: "status_value a = status_value b \<Longrightarrow> a = b" for a b by (cases a; cases b) simp_all
  show "inj (\<lambda>k. [kind_value k])" "inj (\<lambda>x. [kind_value (fst x), status_value (snd x)])"
    using k s by (auto intro!: injI simp: prod_eq_iff)
qed

lemma count_list_length: "count_list xs x = length (filter (\<lambda>y. y = x) xs)"
  by (induction xs) auto



end
