(* ===== verification/Connectors_Props.thy ===== *)
theory Connectors_Props
  imports Connectors
begin

text \<open>
  Properties of the source connectors: a batch ends and answers every operation in order, the
  admission loop ends by its deadline, an admitted task always gives its place back, and a deletion
  is reported as done only when the source verified that nothing remains.
\<close>

section \<open>Batches\<close>

lemma execute_controller:
  assumes "execute H self op c h = (r, c', h')"
  shows "c' = c\<lparr>latencies := latencies c', failures := failures c'\<rparr>"
    and "\<And>x. r = Inr x \<Longrightarrow> rc_task_id x = op_task_id op \<and> latencies c' \<noteq> []"
    and "failures c \<le> failures c'"
  using assms
  by (auto simp: execute_def Let_def observe_def split: prod.splits sum.splits if_splits)

lemma execute_each_controller:
  assumes "execute_each H self ops c h = (rs, c', h')"
  shows "limit c' = limit c \<and> minimum c' = minimum c \<and> maximum c' = maximum c \<and>
    additive_step c' = additive_step c \<and> decrease_ratio c' = decrease_ratio c \<and>
    length rs = length ops \<and> (\<forall>xs. gathered rs = Inr xs \<longrightarrow> map rc_task_id xs = map op_task_id ops)"
  using assms
proof (induction ops arbitrary: c h rs c' h')
  case Nil
  then show ?case by simp
next
  case (Cons op ops)
  obtain r c1 h1 where e: "execute H self op c h = (r, c1, h1)" by (metis prod_cases3)
  obtain qs c2 h2 where es: "execute_each H self ops c1 h1 = (qs, c2, h2)" by (metis prod_cases3)
  have same: "limit c1 = limit c" "minimum c1 = minimum c" "maximum c1 = maximum c"
    "additive_step c1 = additive_step c" "decrease_ratio c1 = decrease_ratio c"
    using execute_controller(1) [OF e] by (metis controller.simps controller.surjective)+
  have rs: "rs = r # qs" "c' = c2" using Cons.prems e es by simp_all
  have tid: "rc_task_id x = op_task_id op" if "r = Inr x" for x
    using execute_controller(2) [OF e that] by simp
  show ?case
    using Cons.IH [OF es] same tid by (auto simp: rs split: sum.splits)
qed

lemma py_slice_window: "1 \<le> l \<Longrightarrow> py_slice xs i (int i + l) = take (nat l) (drop i xs)"
  by (simp add: py_slice_def Let_def nat_add_distrib)

lemma adjust_after_batch:
  assumes "controller_ok c" and "1 \<le> minimum c" and "execute_each H self ops c h = (rs, c1, h1)"
  shows "controller_ok (snd (adjust c1)) \<and> 1 \<le> minimum (snd (adjust c1))"
proof -
  have c1: "controller_ok c1" "minimum c1 = minimum c"
    using execute_each_controller [OF assms(3)] assms(1) by (simp_all add: controller_ok_def)
  have "minimum (snd (adjust c1)) = minimum c1" by (simp add: adjust_def Let_def)
  moreover have "controller_ok (snd (adjust c1))"
    using c1(1) controller_ok_next [OF c1(1)] by (auto simp: adjust_def Let_def controller_ok_def)
  ultimately show ?thesis using assms(2) c1(2) by simp
qed

lemma take_then_drop: "take n xs @ drop (length (take n xs)) xs = xs"
  by (cases "n \<le> length xs") simp_all

lemma batch_loop_ends:
  assumes "controller_ok c" and "1 \<le> minimum c" and "length operations \<le> fuel + cursor"
  shows "\<exists>res c' h'. batch_loop H R None self fuel operations cursor receipts c h s = Some (res, c', h', s) \<and>
    (\<forall>xs. res = Inr xs \<longrightarrow> map rc_task_id xs = map rc_task_id receipts @ map op_task_id (drop cursor operations))"
  using assms
proof (induction fuel arbitrary: cursor receipts c h)
  case 0
  then show ?case by (simp add: batch_loop.simps)
next
  case (Suc n)
  show ?case
  proof (cases "length operations \<le> cursor")
    case True
    then show ?thesis by (simp add: batch_loop.simps)
  next
    case False
    have l: "1 \<le> limit c" using Suc.prems(1,2) by (simp add: controller_ok_def)
    let ?batch = "take (nat (limit c)) (drop cursor operations)"
    have slice: "py_slice operations cursor (int cursor + limit c) = ?batch" using l by (rule py_slice_window)
    have same: "c\<lparr>limit := limit c\<rparr> = c" by simp
    obtain rs c1 h1 where run: "execute_each H self ?batch c h = (rs, c1, h1)" by (metis prod_cases3)
    note ec = execute_each_controller [OF run]
    obtain dec c2 where adj: "adjust c1 = (dec, c2)" by (cases "adjust c1")
    have ok: "controller_ok c2" "1 \<le> minimum c2"
      using adjust_after_batch [OF Suc.prems(1,2) run] adj by simp_all
    have len: "1 \<le> length ?batch" using False l by (simp add: Suc_leI)
    show ?thesis
    proof (cases "gathered rs")
      case (Inl e)
      then show ?thesis using False by (simp add: batch_loop.simps [of _ _ _ _ "Suc n"] slice run Let_def)
    next
      case (Inr xs)
      have step: "batch_loop H R None self (Suc n) operations cursor receipts c h s =
          batch_loop H R None self n operations (cursor + length ?batch) (receipts @ xs) c2 h1 s"
        using False Inr adj by (simp add: batch_loop.simps [of _ _ _ _ "Suc n"] slice run Let_def)
      have "length operations \<le> n + (cursor + length ?batch)" using Suc.prems(3) len by linarith
      from Suc.IH [OF ok this, of "receipts @ xs" h1] obtain res c' h' where
        res: "batch_loop H R None self n operations (cursor + length ?batch) (receipts @ xs) c2 h1 s = Some (res, c', h', s)"
        "\<And>ys. res = Inr ys \<Longrightarrow> map rc_task_id ys = map rc_task_id (receipts @ xs) @
           map op_task_id (drop (cursor + length ?batch) operations)" by blast
      have "map rc_task_id xs = map op_task_id ?batch" using ec Inr by blast
      moreover have "drop cursor operations = ?batch @ drop (cursor + length ?batch) operations"
        using take_then_drop [of "nat (limit c)" "drop cursor operations"] by (simp add: drop_drop add.commute)
      ultimately have "\<And>ys. res = Inr ys \<Longrightarrow> map rc_task_id ys = map rc_task_id receipts @ map op_task_id (drop cursor operations)"
        using res(2) by (metis append_assoc map_append)
      then show ?thesis using step res(1) by auto
    qed
  qed
qed

section \<open>Admission\<close>

lemma acquire_admitted:
  assumes "redis_ok R members" and "acquire R self tn src holder dl lease now s = (Inr (True, l), s')"
  shows "members (inflight_key self tn src) s' holder = Some (now + lease)"
  using assms by (auto simp: acquire_def redis_admission_lua_def redis_ok_def Let_def split: sum.splits if_splits)

lemma admission_loop_ends:
  assumes "\<And>j. w_start_ms w + 20 * int j \<le> w_mono_ms w j" and "ex_admission_timeout_ms self \<le> 20 * int (k + n)"
  shows "admission_loop R self op w (Suc n) k c s \<noteq> None"
  using assms(2)
proof (induction n arbitrary: k c s)
  case 0
  then show ?case using assms(1) [of k] by (auto split: prod.splits sum.splits)
next
  case (Suc n)
  then have "ex_admission_timeout_ms self \<le> 20 * int ((k + 1) + n)" by simp
  then show ?case using Suc.IH
    by (subst admission_loop.simps) (auto simp del: admission_loop.simps split: prod.splits sum.splits)
qed

section \<open>The executor\<close>

lemma release_removes:
  assumes "redis_ok R members"
  shows "members (inflight_key self tn src) (release R self tn src holder s) holder = None"
  using assms by (simp add: redis_ok_def release_def)

lemma executor_cases:
  assumes "executor_execute H R P self op w fuel h s = Some (res, h', s')"
  obtains (not_admitted) e where "admission_loop R self op w fuel 0
        ((ex_controller self)\<lparr>latencies := [], failures := 0\<rparr>) s = Some (Inl e, s')" "res = Inl e"
    | (ran) c1 s1 r c2 s2 where "admission_loop R self op w fuel 0
        ((ex_controller self)\<lparr>latencies := [], failures := 0\<rparr>) s = Some (Inr c1, s1)"
        "checked_execute H P (ex_client self) op c1 h = (r, c2, h')"
        "s' = release R (ex_shared self) (op_tenant_id op) (op_source op) (op_task_id op) s2"
        "\<And>x. res = Inr x \<Longrightarrow> r = Inr x"
  using assms
  by (auto simp: executor_execute_def Let_def split: option.splits prod.splits sum.splits)

text \<open>What a source answered: the decoded JSON, and an empty object for an empty body.\<close>

definition answer_json :: "http_response \<Rightarrow> error + json" where
  "answer_json resp = (if resp_text resp \<noteq> [] then json_loads (resp_text resp) else Inr (JObj []))"

lemma execute_answer:
  assumes "execute H client op c h = (Inr x, c', h')"
  shows "\<exists>resp. post H (rc_base_url client @ ''/privacy/'' @ op_source op @ ''/'' @ op_kind op) (request_headers client op)
      (JObj [(''subject_key_hash'', JStr (op_subject_key_hash op))]) h = (Inr resp, h') \<and>
    rc_succeeded x = is_success resp \<and> answer_json resp = Inr (rc_payload x)"
proof -
  obtain r h1 where r: "post H (rc_base_url client @ ''/privacy/'' @ op_source op @ ''/'' @ op_kind op)
      (request_headers client op) (JObj [(''subject_key_hash'', JStr (op_subject_key_hash op))]) h = (r, h1)"
    by (metis surj_pair)
  show ?thesis
  proof (cases r)
    case (Inl e)
    with assms r show ?thesis by (simp add: execute_def)
  next
    case (Inr resp)
    note ex = assms [unfolded execute_def r Inr prod.case sum.case Let_def answer_json_def [symmetric]]
    show ?thesis
    proof (cases "answer_json resp")
      case (Inl e)
      with ex show ?thesis by simp
    next
      case (Inr v)
      with ex r \<open>r = Inr resp\<close> show ?thesis by auto
    qed
  qed
qed

lemma checked_execute_verified:
  assumes "checked_execute H P client op c h = (Inr x, c', h')" and "rc_succeeded x"
  shows "\<exists>resp raw p. post H (rc_base_url client @ ''/privacy/'' @ op_source op @ ''/'' @ op_kind op) (request_headers client op)
      (JObj [(''subject_key_hash'', JStr (op_subject_key_hash op))]) h = (Inr resp, h') \<and>
    is_success resp \<and> answer_json resp = Inr raw \<and> model_validate P raw = Inr p \<and> sp_verified p \<and>
    (op_kind op = ''delete'' \<longrightarrow> sp_remaining_count p = Some 0) \<and> rc_payload x = model_dump P p"
proof -
  from assms obtain y p where y: "execute H client op c h = (Inr y, c', h')" "rc_succeeded y"
    "model_validate P (rc_payload y) = Inr p" "assert_kind p (op_kind op) = Inr ()" "rc_payload x = model_dump P p"
    by (auto simp: checked_execute_def split: prod.splits sum.splits if_splits)
  moreover have "sp_verified p \<and> (op_kind op = ''delete'' \<longrightarrow> sp_remaining_count p = Some 0)"
    using y(4) by (auto simp: assert_kind_def split: if_splits)
  ultimately show ?thesis using execute_answer [OF y(1)] by auto
qed

section \<open>Clients for the examples\<close>

definition sample_http :: "unit http_client" where
  "sample_http = \<lparr>post = (\<lambda>url headers b h.
     (Inr \<lparr>resp_status_code = 200, resp_text = [], resp_latency = 1 / 5\<rparr>, h))\<rparr>"

definition sample_pydantic :: pydantic where
  "sample_pydantic = \<lparr>model_validate = (\<lambda>v. Inr \<lparr>sp_verified = True, sp_record_count = None,
       sp_deleted_count = Some 2, sp_remaining_count = Some 0, sp_extra = []\<rparr>),
     model_dump = (\<lambda>p. JObj [(''verified'', JBool (sp_verified p))])\<rparr>"

definition sample_operation :: "string \<Rightarrow> source_operation" where
  "sample_operation i = \<lparr>op_task_id = i, op_tenant_id = ''acme'', op_source = ''jobs'',
     op_subject_key_hash = ''00'', op_kind = ''delete''\<rparr>"

definition sample_executor :: source_executor where
  "sample_executor = \<lparr>ex_client = \<lparr>rc_base_url = ''https://eu'', rc_service_token = ''t''\<rparr>,
     ex_controller = sample_controller 0, ex_shared = \<lparr>aimd_prefix = ''p'', ttl_seconds = 900\<rparr>,
     ex_admission_timeout_ms = 30000\<rparr>"

definition sample_world :: "sample_redis_state world" where
  "sample_world = \<lparr>w_wall_ms = (\<lambda>k. 1000 + 20 * int k), w_mono_ms = (\<lambda>k. 20 * int k), w_start_ms = 0,
     w_others = (\<lambda>k s. s)\<rparr>"

abbreviation sample_redis_empty :: sample_redis_state where
  "sample_redis_empty \<equiv> (Map.empty, \<lambda>_. [])"

lemma sample_admitted:
  "0 < limit c \<Longrightarrow>
   admission_loop sample_redis sample_executor (sample_operation i) sample_world 1 0 c sample_redis_empty =
     Some (Inr c, (Map.empty, (\<lambda>_. [])(inflight_key (ex_shared sample_executor) ''acme'' ''jobs'' := [(i, 36000)])))"
  by (simp add: acquire_def redis_admission_lua_def window_def sample_redis_def Let_def sample_executor_def
      sample_operation_def sample_world_def)

lemma sample_run:
  "\<exists>receipt s'. executor_execute sample_http sample_redis sample_pydantic sample_executor (sample_operation ''t1'')
      sample_world 1 () sample_redis_empty = Some (Inr receipt, (), s') \<and> rc_succeeded receipt \<and>
      rc_payload receipt = JObj [(''verified'', JBool True)]"
proof -
  let ?c = "(ex_controller sample_executor)\<lparr>latencies := [], failures := 0\<rparr>"
  have "0 < limit ?c" by (simp add: sample_executor_def sample_controller_def)
  note adm = sample_admitted [OF this, of "''t1''"]
  have win: "window sample_redis k d (Map.empty, z) = Inr d" for k d z
    by (simp add: window_def sample_redis_def)
  show ?thesis
    unfolding executor_execute_def Let_def adm
    by (simp add: Let_def checked_execute_def execute_def sample_http_def is_success_def sample_pydantic_def
        assert_kind_def publish_decision_def shared_adjust_def redis_aimd_lua_def win split: prod.splits)
qed

section \<open>Properties\<close>



text \<open>
  C36. The admission loop ends: when the monotonic clock advances by the 20 milliseconds of the sleep
  per attempt, at most one attempt more than the timeout holds sleeps is made before the loop
  admits the task, times out or fails, whatever other clients do to the window meanwhile.
\<close>

theorem admission_ends:
  assumes "\<forall>j. w_start_ms w + 20 * int j \<le> w_mono_ms w j"
  shows "\<exists>res. executor_execute H R P self operation w (Suc (nat (ex_admission_timeout_ms self div 20 + 1))) h s = Some res"
proof -
  let ?n = "nat (ex_admission_timeout_ms self div 20 + 1)"
  let ?c = "(ex_controller self)\<lparr>latencies := [], failures := 0\<rparr>"
  have "ex_admission_timeout_ms self \<le> 20 * int (0 + ?n)" by simp linarith
  then have "admission_loop R self operation w (Suc ?n) 0 ?c s \<noteq> None"
    using admission_loop_ends [of w self 0 ?n R operation ?c s] assms by blast
  then show ?thesis
    by (auto simp: executor_execute_def Let_def simp del: admission_loop.simps
        split: option.splits prod.splits sum.splits)
qed

theorem admission_ends_witness:
  "\<exists>res. executor_execute sample_http sample_redis sample_pydantic sample_executor (sample_operation ''t1'')
      sample_world (Suc (nat (ex_admission_timeout_ms sample_executor div 20 + 1))) () sample_redis_empty = Some res"
  by (rule admission_ends) (simp add: sample_world_def)



text \<open>
  C34. A deletion is reported as succeeded only when verified: behind a successful receipt of the
  executor there is one call to the source with the task's idempotency key, answered with a success
  code and a body whose validated payload is marked verified and, for a deletion, has a read-back
  count of zero; the receipt carries that payload.
\<close>

theorem executor_success_verified:
  assumes "executor_execute H R P self operation w fuel h s = Some (Inr receipt, h', s')" and "rc_succeeded receipt"
  shows "\<exists>resp raw p. post H (rc_base_url (ex_client self) @ ''/privacy/'' @ op_source operation @ ''/'' @ op_kind operation)
      (request_headers (ex_client self) operation) (JObj [(''subject_key_hash'', JStr (op_subject_key_hash operation))]) h = (Inr resp, h') \<and>
    is_success resp \<and> answer_json resp = Inr raw \<and> model_validate P raw = Inr p \<and> sp_verified p \<and>
    (op_kind operation = ''delete'' \<longrightarrow> sp_remaining_count p = Some 0) \<and> rc_payload receipt = model_dump P p"
  using assms(1)
proof (cases rule: executor_cases)
  case (not_admitted e)
  then show ?thesis by simp
next
  case (ran c1 s1 r c2 s2)
  then have "checked_execute H P (ex_client self) operation c1 h = (Inr receipt, c2, h')" by simp
  from checked_execute_verified [OF this assms(2)] show ?thesis .
qed

theorem executor_success_verified_witness:
  "\<exists>receipt s'. executor_execute sample_http sample_redis sample_pydantic sample_executor (sample_operation ''t1'')
      sample_world 1 () sample_redis_empty = Some (Inr receipt, (), s') \<and>
    (\<exists>raw p. model_validate sample_pydantic raw = Inr p \<and> sp_verified p \<and> sp_remaining_count p = Some 0)"
proof -
  obtain receipt s' where run: "executor_execute sample_http sample_redis sample_pydantic sample_executor
      (sample_operation ''t1'') sample_world 1 () sample_redis_empty = Some (Inr receipt, (), s')"
    and ok: "rc_succeeded receipt" using sample_run by blast
  have "op_kind (sample_operation ''t1'') = ''delete''" by (simp add: sample_operation_def)
  with executor_success_verified [OF run ok] run show ?thesis by blast
qed

end
